theory Spec2Isabelle
  imports Complex_Main "HOL-Library.Sublist"
begin

section \<open>Numbers, strings and truthiness\<close>

text \<open>
  The values of the TypeScript type \<open>number\<close> are modelled as real numbers, and the
  values NaN and the infinities do not occur. The sums, products and quotients of the
  source are the exact ones, except in the Sharpe ratio, whose null case turns on a
  comparison of a rounded value with 0: there every operation is followed by the
  rounding to the nearest double. An optional field (\<open>price?: number\<close>) is an \<open>option\<close>,
  \<open>None\<close> standing for \<open>undefined\<close> and \<open>null\<close>. Where the feed delivers a
  numeric field as a string, the field stands for the number that \<open>parseFloat\<close> reads
  from it, and for 0 when that is NaN, as \<open>parseNumber\<close> returns it.
\<close>

definition parseNumber :: "real option \<Rightarrow> real" where
  "parseNumber v = (case v of None \<Rightarrow> 0 | Some n \<Rightarrow> n)"

text \<open>A string is truthy when it is present and not empty; \<open>a || b\<close> takes the first truthy one.\<close>

definition truthy :: "string option \<Rightarrow> bool" where
  "truthy v = (case v of None \<Rightarrow> False | Some s \<Rightarrow> s \<noteq> [])"

definition orElse :: "string option \<Rightarrow> string \<Rightarrow> string" where
  "orElse v d = (case v of None \<Rightarrow> d | Some s \<Rightarrow> if s = [] then d else s)"

definition orUndefined :: "string option \<Rightarrow> string option \<Rightarrow> string option" where
  "orUndefined v w = (if truthy v then v else if truthy w then w else None)"

text \<open>Case conversion on the ASCII letters, which is all the comparisons of the source need.\<close>

definition upperLetters :: string where
  "upperLetters = ''ABCDEFGHIJKLMNOPQRSTUVWXYZ''"

definition lowerLetters :: string where
  "lowerLetters = ''abcdefghijklmnopqrstuvwxyz''"

definition toLowerCase_char :: "char \<Rightarrow> char" where
  "toLowerCase_char c =
     (case map_of (zip upperLetters lowerLetters) c of Some d \<Rightarrow> d | None \<Rightarrow> c)"

definition toUpperCase_char :: "char \<Rightarrow> char" where
  "toUpperCase_char c =
     (case map_of (zip lowerLetters upperLetters) c of Some d \<Rightarrow> d | None \<Rightarrow> c)"

definition toLowerCase :: "string \<Rightarrow> string" where
  "toLowerCase s = map toLowerCase_char s"

definition toUpperCase :: "string \<Rightarrow> string" where
  "toUpperCase s = map toUpperCase_char s"

section \<open>Trades and the position key\<close>

record TradeActivity =
  trade_id :: string
  userAddress :: string
  title :: "string option"
  slug :: "string option"
  eventSlug :: "string option"
  side :: "string option"
  outcome :: "string option"
  asset :: "string option"
  market :: "string option"
  price :: "real option"
  trade_size :: "real option"
  usdcSize :: "real option"
  timestamp :: "real option"
  transactionHash :: "string option"

datatype Side = Buy | Sell

definition normalizeSide :: "string option \<Rightarrow> Side" where
  "normalizeSide s =
     (case s of None \<Rightarrow> Buy
      | Some v \<Rightarrow> if v \<noteq> [] \<and> toLowerCase v = ''sell'' then Sell else Buy)"

definition getPositionKey :: "TradeActivity \<Rightarrow> string" where
  "getPositionKey trade =
     (if truthy (asset trade) then orElse (asset trade) []
      else
        (let label = orElse (slug trade) (orElse (title trade)
                       (orElse (eventSlug trade) ''unknown-market''));
             outc = orElse (outcome trade) ''unknown-outcome''
         in label @ '':'' @ outc))"

definition normalizeTimestampMs :: "real \<Rightarrow> real" where
  "normalizeTimestampMs ts = (if ts < 1000000000000 then ts * 1000 else ts)"

text \<open>
  Both replay functions sort by \<open>(timestamp, index)\<close>: a stable sort on the timestamp.
\<close>

definition sortTrades :: "TradeActivity list \<Rightarrow> TradeActivity list" where
  "sortTrades trades =
     sort_key (\<lambda>trade. normalizeTimestampMs (parseNumber (timestamp trade))) trades"

text \<open>
  Size and price of a trade as both loops resolve them: a missing size is derived from
  notional and price, then a missing price from notional and size.
\<close>

definition tradeUsdcOf :: "TradeActivity \<Rightarrow> real" where
  "tradeUsdcOf trade = parseNumber (usdcSize trade)"

definition tradeSizeOf :: "TradeActivity \<Rightarrow> real" where
  "tradeSizeOf trade =
     (let tradePrice = parseNumber (price trade);
          tradeUsdc = parseNumber (usdcSize trade);
          tradeSize = parseNumber (trade_size trade)
      in if tradeSize = 0 \<and> tradePrice > 0 \<and> tradeUsdc > 0
         then tradeUsdc / tradePrice else tradeSize)"

definition tradePriceOf :: "TradeActivity \<Rightarrow> real" where
  "tradePriceOf trade =
     (let tradePrice = parseNumber (price trade);
          tradeUsdc = parseNumber (usdcSize trade);
          tradeSize = tradeSizeOf trade
      in if tradePrice = 0 \<and> tradeSize > 0 \<and> tradeUsdc > 0
         then tradeUsdc / tradeSize else tradePrice)"

section \<open>computePositionHistory\<close>

record HistoryPosition =
  p_size :: real
  p_costBasisUsd :: real
  p_avgPrice :: real
  p_realizedPnl :: real
  p_asset :: string
  p_market :: string
  p_slug :: "string option"
  p_outcome :: string

datatype Status = OPEN | CLOSED

record PositionHistoryEntry =
  h_key :: string
  h_asset :: string
  h_market :: string
  h_slug :: "string option"
  h_outcome :: string
  h_side :: Side
  tradePrice :: real
  tradeSize :: real
  tradeUsdc :: real
  h_timestamp :: real
  positionSize :: real
  positionCostBasis :: real
  positionAvgPrice :: real
  realizedPnl :: real
  cumulativeRealizedPnl :: real
  status :: Status

text \<open>\<open>positions.get(key) || {size: 0, ...}\<close>\<close>

definition historyExisting ::
  "(string \<rightharpoonup> HistoryPosition) \<Rightarrow> TradeActivity \<Rightarrow> HistoryPosition" where
  "historyExisting positions trade =
     (case positions (getPositionKey trade) of
        Some p \<Rightarrow> p
      | None \<Rightarrow>
          \<lparr> p_size = 0, p_costBasisUsd = 0, p_avgPrice = 0, p_realizedPnl = 0,
            p_asset = orElse (asset trade) [],
            p_market = orElse (title trade) (orElse (market trade)
                         (orElse (slug trade) (orElse (eventSlug trade) []))),
            p_slug = orUndefined (slug trade) (eventSlug trade),
            p_outcome = orElse (outcome trade) [] \<rparr>)"

text \<open>One iteration of the loop: the entry pushed to the history and the position stored.\<close>

definition historyEntry ::
  "(string \<rightharpoonup> HistoryPosition) \<Rightarrow> TradeActivity \<Rightarrow> PositionHistoryEntry" where
  "historyEntry positions trade =
     (let sd = normalizeSide (side trade);
          tPrice = tradePriceOf trade;
          tUsdc = tradeUsdcOf trade;
          tSize = tradeSizeOf trade;
          existing = historyExisting positions trade;
          matched = (sd = Sell \<and> tSize > 0 \<and> p_size existing > 0);
          avgCost = p_costBasisUsd existing / p_size existing;
          realizedDelta = (if matched then tUsdc - avgCost * tSize else 0);
          nextSize0 =
            (if sd = Sell then (if matched then p_size existing - tSize else p_size existing)
             else p_size existing + tSize);
          nextCostBasis0 =
            (if sd = Sell
             then (if matched then p_costBasisUsd existing - avgCost * tSize
                   else p_costBasisUsd existing)
             else p_costBasisUsd existing + tUsdc);
          nextSize = (if nextSize0 \<le> 0 then 0 else nextSize0);
          nextCostBasis = (if nextSize0 \<le> 0 then 0 else nextCostBasis0);
          nextAvgPrice = (if nextSize \<noteq> 0 then \<bar>nextCostBasis / nextSize\<bar> else 0);
          nextRealized = p_realizedPnl existing + realizedDelta
      in \<lparr> h_key = getPositionKey trade,
           h_asset = (if p_asset existing \<noteq> [] then p_asset existing
                      else orElse (asset trade) []),
           h_market = (if p_market existing \<noteq> [] then p_market existing
                       else orElse (title trade) (orElse (market trade)
                              (orElse (slug trade) (orElse (eventSlug trade) [])))),
           h_slug = (if truthy (p_slug existing) then p_slug existing
                     else orUndefined (slug trade) (eventSlug trade)),
           h_outcome = (if p_outcome existing \<noteq> [] then p_outcome existing
                        else orElse (outcome trade) []),
           h_side = sd,
           tradePrice = tPrice,
           tradeSize = tSize,
           tradeUsdc = tUsdc,
           h_timestamp = parseNumber (timestamp trade),
           positionSize = nextSize,
           positionCostBasis = nextCostBasis,
           positionAvgPrice = nextAvgPrice,
           realizedPnl = realizedDelta,
           cumulativeRealizedPnl = nextRealized,
           status = (if nextSize = 0 then CLOSED else OPEN) \<rparr>)"

definition historyStep ::
  "(string \<rightharpoonup> HistoryPosition) \<Rightarrow> TradeActivity \<Rightarrow> (string \<rightharpoonup> HistoryPosition)" where
  "historyStep positions trade =
     (let e = historyEntry positions trade
      in positions(h_key e \<mapsto>
           \<lparr> p_size = positionSize e, p_costBasisUsd = positionCostBasis e,
             p_avgPrice = positionAvgPrice e, p_realizedPnl = cumulativeRealizedPnl e,
             p_asset = h_asset e, p_market = h_market e, p_slug = h_slug e,
             p_outcome = h_outcome e \<rparr>))"

fun historyLoop ::
  "(string \<rightharpoonup> HistoryPosition) \<Rightarrow> TradeActivity list \<Rightarrow> PositionHistoryEntry list" where
  "historyLoop positions [] = []"
| "historyLoop positions (trade # rest) =
     historyEntry positions trade # historyLoop (historyStep positions trade) rest"

definition computePositionHistory :: "TradeActivity list \<Rightarrow> PositionHistoryEntry list" where
  "computePositionHistory trades = historyLoop Map.empty (sortTrades trades)"

text \<open>The map \<open>positions\<close> as it stands after the loop has processed a list of trades.\<close>

fun historyPositions ::
  "(string \<rightharpoonup> HistoryPosition) \<Rightarrow> TradeActivity list \<Rightarrow> (string \<rightharpoonup> HistoryPosition)" where
  "historyPositions positions [] = positions"
| "historyPositions positions (trade # rest) =
     historyPositions (historyStep positions trade) rest"

section \<open>computePositionSummary\<close>

record SummaryPosition =
  s_key :: string
  s_asset :: string
  s_market :: string
  s_slug :: "string option"
  s_outcome :: string
  buySize :: real
  buyCost :: real
  sellSize :: real
  sellProceeds :: real
  openSize :: real
  costBasisUsd :: real
  s_realizedPnl :: real
  lastPrice :: "real option"
  lastTradeAt :: "real option"

record PositionSummaryEntry =
  e_key :: string
  e_asset :: string
  e_market :: string
  e_slug :: "string option"
  e_outcome :: string
  e_buySize :: real
  e_buyCost :: real
  avgEntry :: real
  e_sellSize :: real
  e_sellProceeds :: real
  avgExit :: real
  e_realizedPnl :: real
  unrealizedPnl :: "real option"
  totalPnl :: real
  e_openSize :: real
  e_lastPrice :: "real option"
  e_lastTradeAt :: "real option"
  e_status :: Status

definition summaryExisting ::
  "(string \<rightharpoonup> SummaryPosition) \<Rightarrow> TradeActivity \<Rightarrow> SummaryPosition" where
  "summaryExisting positions trade =
     (case positions (getPositionKey trade) of
        Some p \<Rightarrow> p
      | None \<Rightarrow>
          \<lparr> s_key = getPositionKey trade,
            s_asset = orElse (asset trade) [],
            s_market = orElse (title trade) (orElse (market trade)
                         (orElse (slug trade) (orElse (eventSlug trade) []))),
            s_slug = orUndefined (slug trade) (eventSlug trade),
            s_outcome = orElse (outcome trade) [],
            buySize = 0, buyCost = 0, sellSize = 0, sellProceeds = 0,
            openSize = 0, costBasisUsd = 0, s_realizedPnl = 0,
            lastPrice = None, lastTradeAt = None \<rparr>)"

text \<open>The body of the loop: \<open>existing\<close> is updated field by field, then stored.\<close>

definition summaryUpdate :: "SummaryPosition \<Rightarrow> TradeActivity \<Rightarrow> SummaryPosition" where
  "summaryUpdate existing0 trade =
     (let sd = normalizeSide (side trade);
          tPrice = tradePriceOf trade;
          tUsdc = tradeUsdcOf trade;
          tSize = tradeSizeOf trade;
          existing1 = (if tPrice > 0 then existing0\<lparr>lastPrice := Some tPrice\<rparr> else existing0);
          ts = parseNumber (timestamp trade);
          existing = (if ts > 0 then existing1\<lparr>lastTradeAt := Some ts\<rparr> else existing1)
      in if sd = Buy then
           existing\<lparr> buySize := buySize existing + tSize,
                      buyCost := buyCost existing + tUsdc,
                      openSize := openSize existing + tSize,
                      costBasisUsd := costBasisUsd existing + tUsdc \<rparr>
         else
           (let sold = existing\<lparr> sellSize := sellSize existing + tSize,
                                  sellProceeds := sellProceeds existing + tUsdc \<rparr>
            in if openSize sold > 0 \<and> tSize > 0 then
                 (let avgCost = costBasisUsd sold / openSize sold;
                      reduced = sold\<lparr> s_realizedPnl := s_realizedPnl sold + (tUsdc - avgCost * tSize),
                                       openSize := openSize sold - tSize,
                                       costBasisUsd := costBasisUsd sold - avgCost * tSize \<rparr>
                  in if openSize reduced \<le> 0
                     then reduced\<lparr> openSize := 0, costBasisUsd := 0 \<rparr>
                     else reduced)
               else sold))"

definition summaryStep ::
  "(string \<rightharpoonup> SummaryPosition) \<Rightarrow> TradeActivity \<Rightarrow> (string \<rightharpoonup> SummaryPosition)" where
  "summaryStep positions trade =
     positions(getPositionKey trade \<mapsto> summaryUpdate (summaryExisting positions trade) trade)"

fun summaryLoop ::
  "(string \<rightharpoonup> SummaryPosition) \<Rightarrow> TradeActivity list \<Rightarrow> (string \<rightharpoonup> SummaryPosition)" where
  "summaryLoop positions [] = positions"
| "summaryLoop positions (trade # rest) = summaryLoop (summaryStep positions trade) rest"

definition summaryEntry :: "SummaryPosition \<Rightarrow> PositionSummaryEntry" where
  "summaryEntry pos =
     (let avgEntry' = (if buySize pos > 0 then buyCost pos / buySize pos else 0);
          avgExit' = (if sellSize pos > 0 then sellProceeds pos / sellSize pos else 0);
          unrealized =
            (case lastPrice pos of
               Some lp \<Rightarrow>
                 if openSize pos > 0 \<and> lp \<noteq> 0
                 then Some (lp * openSize pos - costBasisUsd pos) else None
             | None \<Rightarrow> None);
          totalPnl' = s_realizedPnl pos + (case unrealized of Some u \<Rightarrow> u | None \<Rightarrow> 0)
      in \<lparr> e_key = s_key pos, e_asset = s_asset pos, e_market = s_market pos,
           e_slug = s_slug pos, e_outcome = s_outcome pos,
           e_buySize = buySize pos, e_buyCost = buyCost pos, avgEntry = avgEntry',
           e_sellSize = sellSize pos, e_sellProceeds = sellProceeds pos, avgExit = avgExit',
           e_realizedPnl = s_realizedPnl pos, unrealizedPnl = unrealized,
           totalPnl = totalPnl', e_openSize = openSize pos,
           e_lastPrice = lastPrice pos, e_lastTradeAt = lastTradeAt pos,
           e_status = (if openSize pos > 0 then OPEN else CLOSED) \<rparr>)"

text \<open>
  \<open>Array.from(positions.values())\<close> lists the positions in the order in which their keys
  were first inserted.
\<close>

definition insertionOrder :: "string list \<Rightarrow> string list" where
  "insertionOrder ks = rev (remdups (rev ks))"

definition computePositionSummary :: "TradeActivity list \<Rightarrow> PositionSummaryEntry list" where
  "computePositionSummary trades =
     (let sorted = sortTrades trades;
          positions = summaryLoop Map.empty sorted
      in concat (map (\<lambda>k. case positions k of Some pos \<Rightarrow> [summaryEntry pos] | None \<Rightarrow> [])
                     (insertionOrder (map getPositionKey sorted))))"

section \<open>Reading the replay at one event\<close>

text \<open>
  The replay order is \<open>sortTrades trades\<close>. \<open>historyBefore trades i\<close> and
  \<open>summaryBefore trades i\<close> are the maps \<open>positions\<close> of the two loops when they
  reach the event at index \<open>i\<close>; at \<open>Suc i\<close> they are the maps after that event.
\<close>

definition historyBefore :: "TradeActivity list \<Rightarrow> nat \<Rightarrow> (string \<rightharpoonup> HistoryPosition)" where
  "historyBefore trades i = historyPositions Map.empty (take i (sortTrades trades))"

definition summaryBefore :: "TradeActivity list \<Rightarrow> nat \<Rightarrow> (string \<rightharpoonup> SummaryPosition)" where
  "summaryBefore trades i = summaryLoop Map.empty (take i (sortTrades trades))"

text \<open>The two invariants of a position, for every key of a map.\<close>

definition historyInv :: "(string \<rightharpoonup> HistoryPosition) \<Rightarrow> bool" where
  "historyInv ps \<longleftrightarrow>
     (\<forall>k p. ps k = Some p \<longrightarrow> 0 \<le> p_size p \<and> (p_size p = 0 \<longrightarrow> p_costBasisUsd p = 0))"

definition summaryInv :: "(string \<rightharpoonup> SummaryPosition) \<Rightarrow> bool" where
  "summaryInv ps \<longleftrightarrow>
     (\<forall>k p. ps k = Some p \<longrightarrow> 0 \<le> openSize p \<and> (openSize p = 0 \<longrightarrow> costBasisUsd p = 0))"

subsection \<open>Example trades\<close>

definition exampleTrade ::
  "string \<Rightarrow> string \<Rightarrow> real option \<Rightarrow> real option \<Rightarrow> real \<Rightarrow> TradeActivity" where
  "exampleTrade a sd sz usdc ts =
     \<lparr> trade_id = ''t'', userAddress = ''0xabc'', title = None, slug = None, eventSlug = None,
       side = Some sd, outcome = None, asset = Some a, market = None, price = None,
       trade_size = sz, usdcSize = usdc, timestamp = Some ts, transactionHash = None \<rparr>"

text \<open>BUY 10 for 4 USD, then SELL 15 for 9 USD: a sell of more than is open.\<close>

definition oversellTrades :: "TradeActivity list" where
  "oversellTrades =
     [exampleTrade ''A'' ''BUY'' (Some 10) (Some 4) 1,
      exampleTrade ''A'' ''SELL'' (Some 15) (Some 9) 2]"

text \<open>BUY 10 for 5 USD, then SELL 4 for 2.80 USD: a partial close.\<close>

definition partialCloseTrades :: "TradeActivity list" where
  "partialCloseTrades =
     [exampleTrade ''A'' ''BUY'' (Some 10) (Some 5) 1,
      exampleTrade ''A'' ''SELL'' (Some 4) (Some (28 / 10)) 2]"

text \<open>A buy record that carries a notional but neither size nor price.\<close>

definition zeroSizeBuy :: "TradeActivity list" where
  "zeroSizeBuy = [exampleTrade ''A'' ''BUY'' None (Some 5) 1]"

definition negativeSizeBuy :: "TradeActivity list" where
  "negativeSizeBuy = [exampleTrade ''A'' ''BUY'' (Some (- 5)) (Some 4) 1]"

definition zeroSizeBuyThenRoundTrip :: "TradeActivity list" where
  "zeroSizeBuyThenRoundTrip =
     [exampleTrade ''A'' ''BUY'' None (Some 5) 1,
      exampleTrade ''A'' ''BUY'' (Some 10) (Some 4) 2,
      exampleTrade ''A'' ''SELL'' (Some 10) (Some 6) 3]"

text \<open>A sell on an instrument that has no position yet.\<close>

definition loneSell :: "TradeActivity list" where
  "loneSell = [exampleTrade ''A'' ''SELL'' (Some 10) (Some 6) 1]"

section \<open>getActivityNetDelta\<close>

text \<open>
  A raw activity of the feed, as far as \<open>getActivityNetDelta\<close> and
  \<open>computeLifetimeAnalytics\<close> read it. \<open>a_type\<close> and \<open>a_side\<close> are \<open>None\<close> when the
  field is not a string. The amount fields are given by the number \<open>parseNumber\<close> reads
  from them, \<open>None\<close> when the field is \<open>undefined\<close> or \<open>null\<close>.
\<close>

record Activity =
  a_type :: "string option"
  a_side :: "string option"
  a_usdcSize :: "real option"
  a_amount :: "real option"
  a_value :: "real option"
  a_usdcAmount :: "real option"
  a_amountUsd :: "real option"
  a_cashDelta :: "real option"
  a_delta :: "real option"
  a_pnl :: "real option"
  a_timestamp :: "real option"

definition ACTIVITY_POSITIVE_TYPES :: "string list" where
  "ACTIVITY_POSITIVE_TYPES =
     [''REDEEM'', ''SETTLEMENT'', ''SETTLE'', ''CLAIM'', ''PAYOUT'', ''REWARD'',
      ''MAKER_REBATE'', ''REBATE'', ''REFUND'', ''CREDIT'']"

definition ACTIVITY_NEGATIVE_TYPES :: "string list" where
  "ACTIVITY_NEGATIVE_TYPES = [''FEE'', ''MAKER_FEE'', ''TAKER_FEE'', ''PENALTY'', ''DEBIT'']"

definition ACTIVITY_IGNORE_TYPES :: "string list" where
  "ACTIVITY_IGNORE_TYPES = [''TRANSFER'', ''DEPOSIT'', ''WITHDRAWAL'', ''WITHDRAW'']"

definition normalizeActivityType :: "string option \<Rightarrow> string" where
  "normalizeActivityType v = (case v of Some s \<Rightarrow> toUpperCase s | None \<Rightarrow> [])"

text \<open>\<open>s.includes(w)\<close>: \<open>w\<close> occurs in \<open>s\<close> as a contiguous piece.\<close>

definition includes_str :: "string \<Rightarrow> string \<Rightarrow> bool" where
  "includes_str s w = sublist w s"

text \<open>\<open>a ?? b\<close>\<close>

definition nullish :: "'a option \<Rightarrow> 'a option \<Rightarrow> 'a option" where
  "nullish a b = (case a of Some v \<Rightarrow> Some v | None \<Rightarrow> b)"

definition getActivityAmount :: "Activity \<Rightarrow> real" where
  "getActivityAmount item =
     parseNumber
       (nullish (a_usdcSize item) (nullish (a_amount item) (nullish (a_value item)
         (nullish (a_usdcAmount item) (nullish (a_amountUsd item) (nullish (a_cashDelta item)
           (nullish (a_delta item) (a_pnl item))))))))"

definition isIgnoredActivityType :: "string \<Rightarrow> bool" where
  "isIgnoredActivityType ty =
     (if ty \<in> set ACTIVITY_IGNORE_TYPES then True
      else includes_str ty ''TRANSFER'' \<or> includes_str ty ''WITHDRAW'' \<or>
           includes_str ty ''DEPOSIT'' \<or> includes_str ty ''BRIDGE'')"

definition isPositiveActivityType :: "string \<Rightarrow> bool" where
  "isPositiveActivityType ty =
     (if ty \<in> set ACTIVITY_POSITIVE_TYPES then True
      else includes_str ty ''REDEEM'' \<or> includes_str ty ''REBATE'' \<or> includes_str ty ''REWARD'' \<or>
           includes_str ty ''PAYOUT'' \<or> includes_str ty ''CLAIM'' \<or> includes_str ty ''SETTLE'' \<or>
           includes_str ty ''CREDIT'')"

definition isNegativeActivityType :: "string \<Rightarrow> bool" where
  "isNegativeActivityType ty =
     (if ty \<in> set ACTIVITY_NEGATIVE_TYPES then True
      else includes_str ty ''FEE'' \<or> includes_str ty ''PENALTY'' \<or> includes_str ty ''DEBIT'')"

definition getActivityNetDelta :: "Activity \<Rightarrow> real" where
  "getActivityNetDelta activity =
     (let amountRaw = getActivityAmount activity in
      if amountRaw = 0 then 0
      else if amountRaw < 0 then amountRaw
      else
        (let ty = normalizeActivityType (a_type activity) in
         if ty = ''TRADE'' then
           (case a_side activity of
              Some s \<Rightarrow> if normalizeSide (Some s) = Buy then - amountRaw else amountRaw
            | None \<Rightarrow> 0)
         else
           (case a_side activity of
              Some s \<Rightarrow> if normalizeSide (Some s) = Buy then - amountRaw else amountRaw
            | None \<Rightarrow>
                if isIgnoredActivityType ty then 0
                else if isPositiveActivityType ty then amountRaw
                else if isNegativeActivityType ty then - amountRaw
                else 0)))"

section \<open>computeLifetimeAnalytics\<close>

text \<open>
  A daily bucket. Its key is \<open>new Date(ms).toISOString().slice(0, 10)\<close>, the UTC
  calendar date of the event. The function from the milliseconds to the key is a
  parameter, \<open>toISODate\<close>: it gives the key, of a type \<open>'d\<close> whose order stands for
  \<open>localeCompare\<close> on the date strings, or the \<open>RangeError\<close> that \<open>toISOString\<close> throws
  when the time value is out of the range of \<open>Date\<close>.
\<close>

datatype JsError = RangeError

record 'd DailyEntry =
  d_date :: 'd
  net :: real
  profit :: real
  loss :: real
  events :: nat

text \<open>
  For the years 1970 to 9999 the key is the calendar date, and calendar dates order as
  the numbers of their days, counted from 1 January 1970: \<open>utcDay\<close> is the parameter on
  that range. \<open>Date\<close> holds at most 8.64e15 milliseconds.
\<close>

definition utcDay :: "real \<Rightarrow> JsError + int" where
  "utcDay ms = (if \<bar>ms\<bar> > 8640000000000000 then Inl RangeError else Inr \<lfloor>ms / 86400000\<rfloor>)"

text \<open>
  \<open>dailyMap.get(date) || {date, net: 0, ...}\<close>, the update of the bucket, and
  \<open>dailyMap.set(date, existing)\<close>: an existing key keeps its place, a new key goes last.
\<close>

definition bucketUpdate :: "real \<Rightarrow> 'd DailyEntry \<Rightarrow> 'd DailyEntry" where
  "bucketUpdate delta existing =
     existing\<lparr> net := net existing + delta,
                profit := (if delta > 0 then profit existing + delta else profit existing),
                loss := (if delta > 0 then loss existing else loss existing + \<bar>delta\<bar>),
                events := events existing + 1 \<rparr>"

fun bucketAdd :: "'d \<Rightarrow> real \<Rightarrow> 'd DailyEntry list \<Rightarrow> 'd DailyEntry list" where
  "bucketAdd dt delta [] =
     [bucketUpdate delta \<lparr> d_date = dt, net = 0, profit = 0, loss = 0, events = 0 \<rparr>]"
| "bucketAdd dt delta (e # es) =
     (if d_date e = dt then bucketUpdate delta e # es else e # bucketAdd dt delta es)"

record 'd LifetimeAcc =
  acc_totalProfit :: real
  acc_totalLoss :: real
  acc_netPnl :: real
  dailyMap :: "'d DailyEntry list"

text \<open>One iteration of the loop over the sorted activities.\<close>

definition lifetimeStep ::
  "(real \<Rightarrow> JsError + 'd) \<Rightarrow> Activity \<Rightarrow> 'd LifetimeAcc \<Rightarrow> JsError + 'd LifetimeAcc" where
  "lifetimeStep toISODate activity acc =
     (let delta = getActivityNetDelta activity in
      if delta = 0 then Inr acc
      else
        (let acc1 = acc\<lparr> acc_netPnl := acc_netPnl acc + delta,
                         acc_totalProfit :=
                           (if delta > 0 then acc_totalProfit acc + delta else acc_totalProfit acc),
                         acc_totalLoss :=
                           (if delta > 0 then acc_totalLoss acc else acc_totalLoss acc + \<bar>delta\<bar>) \<rparr>;
             ts = parseNumber (a_timestamp activity)
         in if ts > 0
            then (case toISODate (normalizeTimestampMs ts) of
                    Inl err \<Rightarrow> Inl err
                  | Inr dt \<Rightarrow> Inr (acc1\<lparr> dailyMap := bucketAdd dt delta (dailyMap acc1) \<rparr>))
            else Inr acc1))"

definition sortActivities :: "Activity list \<Rightarrow> Activity list" where
  "sortActivities activities = sort_key (\<lambda>a. parseNumber (a_timestamp a)) activities"

fun lifetimeLoop ::
  "(real \<Rightarrow> JsError + 'd) \<Rightarrow> 'd LifetimeAcc \<Rightarrow> Activity list \<Rightarrow> JsError + 'd LifetimeAcc" where
  "lifetimeLoop toISODate acc [] = Inr acc"
| "lifetimeLoop toISODate acc (activity # rest) =
     (case lifetimeStep toISODate activity acc of
        Inl err \<Rightarrow> Inl err
      | Inr acc' \<Rightarrow> lifetimeLoop toISODate acc' rest)"

text \<open>The statistics derived from the date-ascending list \<open>daily\<close>.\<close>

definition totalPositive :: "'d DailyEntry list \<Rightarrow> real" where
  "totalPositive daily = fold (\<lambda>day sum. sum + (if net day > 0 then net day else 0)) daily 0"

definition totalNegative :: "'d DailyEntry list \<Rightarrow> real" where
  "totalNegative daily = fold (\<lambda>day sum. sum + (if net day < 0 then - net day else 0)) daily 0"

definition winDays :: "'d DailyEntry list \<Rightarrow> nat" where
  "winDays daily = length (filter (\<lambda>day. net day > 0) daily)"

definition lossDays :: "'d DailyEntry list \<Rightarrow> nat" where
  "lossDays daily = length (filter (\<lambda>day. net day < 0) daily)"

definition profitFactorOf :: "'d DailyEntry list \<Rightarrow> real option" where
  "profitFactorOf daily =
     (if totalNegative daily > 0 then Some (totalPositive daily / totalNegative daily) else None)"

text \<open>The drawdown loop: \<open>(cumulative, peak, maxDrawdown)\<close>, all three starting at 0.\<close>

definition drawdownStep :: "'d DailyEntry \<Rightarrow> real \<times> real \<times> real \<Rightarrow> real \<times> real \<times> real" where
  "drawdownStep day st =
     (case st of (cumulative, peak, maxDrawdown) \<Rightarrow>
        (let cumulative' = cumulative + net day;
             peak' = (if cumulative' > peak then cumulative' else peak);
             drawdown = peak' - cumulative';
             maxDrawdown' = (if drawdown > maxDrawdown then drawdown else maxDrawdown)
         in (cumulative', peak', maxDrawdown')))"

definition maxDrawdownValue :: "'d DailyEntry list \<Rightarrow> real option" where
  "maxDrawdownValue daily =
     (case fold drawdownStep daily (0, 0, 0) of
        (cumulative, peak, maxDrawdown) \<Rightarrow>
          if length daily > 0 then Some maxDrawdown else None)"

text \<open>
  The arithmetic of the Sharpe ratio, in IEEE 754 double precision: the exact result of
  an operation is rounded to the nearest number with a significand of 53 bits, a tie
  going to the even significand. The exponent of the leading bit of \<open>x\<close> is
  \<open>\<lfloor>log 2 \<bar>x\<bar>\<rfloor>\<close>, and not below -1022, where the subnormal numbers begin; the unit
  in the last place is 52 binary places below it. A result whose magnitude reaches
  \<open>2 ^ 1024\<close> is an infinity in the source and is not modelled. \<open>Math.pow\<close> and
  \<open>Math.sqrt\<close> are taken to round the exact power and root, as the engine computes a
  square and a square root.
\<close>

definition roundHalfEven :: "real \<Rightarrow> int" where
  "roundHalfEven y =
     (let f = \<lfloor>y\<rfloor>; r = y - of_int f
      in if r < 1 / 2 then f else if 1 / 2 < r then f + 1 else if even f then f else f + 1)"

definition binaryExponent :: "real \<Rightarrow> int" where
  "binaryExponent x = max \<lfloor>log 2 \<bar>x\<bar>\<rfloor> (- 1022)"

definition roundToDouble :: "real \<Rightarrow> real" where
  "roundToDouble x =
     (if x = 0 then 0
      else of_int (roundHalfEven (x / 2 powi (binaryExponent x - 52)))
             * 2 powi (binaryExponent x - 52))"

definition fl_add :: "real \<Rightarrow> real \<Rightarrow> real" where
  "fl_add x y = roundToDouble (x + y)"

definition fl_sub :: "real \<Rightarrow> real \<Rightarrow> real" where
  "fl_sub x y = roundToDouble (x - y)"

definition fl_mul :: "real \<Rightarrow> real \<Rightarrow> real" where
  "fl_mul x y = roundToDouble (x * y)"

definition fl_div :: "real \<Rightarrow> real \<Rightarrow> real" where
  "fl_div x y = roundToDouble (x / y)"

definition mathPow :: "real \<Rightarrow> nat \<Rightarrow> real" where
  "mathPow x n = roundToDouble (x ^ n)"

definition mathSqrt :: "real \<Rightarrow> real" where
  "mathSqrt x = roundToDouble (sqrt x)"

definition sharpeRatioOf :: "'d DailyEntry list \<Rightarrow> real option" where
  "sharpeRatioOf daily =
     (let activeDays = length daily in
      if activeDays \<ge> 2 then
        (let mean = fl_div (fold (\<lambda>day sum. fl_add sum (net day)) daily 0) (real activeDays);
             variance =
               fl_div (fold (\<lambda>day sum. fl_add sum (mathPow (fl_sub (net day) mean) 2)) daily 0)
                 (real (activeDays - 1));
             stdev = mathSqrt variance
         in if stdev > 0 then Some (fl_mul (fl_div mean stdev) (mathSqrt 365)) else None)
      else None)"

record 'd LifetimeSummary =
  l_totalProfit :: real
  l_totalLoss :: real
  l_netPnl :: real
  l_daily :: "'d DailyEntry list"
  l_winRate :: "real option"
  l_profitFactor :: "real option"
  l_avgWinDay :: "real option"
  l_avgLossDay :: "real option"
  l_maxDrawdown :: "real option"
  l_sharpeRatio :: "real option"
  l_lastDayNet :: "real option"
  l_activeDays :: nat
  l_firstTradeAt :: "real option"
  l_lastTradeAt :: "real option"

text \<open>What follows the loop: the statistics of the sorted buckets.\<close>

definition lifetimeSummary :: "Activity list \<Rightarrow> ('d::linorder) LifetimeAcc \<Rightarrow> 'd LifetimeSummary" where
  "lifetimeSummary sorted_acts acc =
     (let daily = sort_key d_date (dailyMap acc);
          activeDays = length daily
      in \<lparr> l_totalProfit = acc_totalProfit acc,
           l_totalLoss = acc_totalLoss acc,
           l_netPnl = acc_netPnl acc,
           l_daily = daily,
           l_winRate = (if activeDays > 0 then Some (real (winDays daily) / real activeDays)
                        else None),
           l_profitFactor = profitFactorOf daily,
           l_avgWinDay = (if winDays daily > 0
                          then Some (totalPositive daily / real (winDays daily)) else None),
           l_avgLossDay = (if lossDays daily > 0
                           then Some (totalNegative daily / real (lossDays daily)) else None),
           l_maxDrawdown = maxDrawdownValue daily,
           l_sharpeRatio = sharpeRatioOf daily,
           l_lastDayNet = (if length daily > 0 then Some (net (last daily)) else None),
           l_activeDays = activeDays,
           l_firstTradeAt =
             map_option (\<lambda>a. parseNumber (a_timestamp a))
               (find (\<lambda>a. parseNumber (a_timestamp a) > 0) sorted_acts),
           l_lastTradeAt =
             map_option (\<lambda>a. parseNumber (a_timestamp a))
               (find (\<lambda>a. parseNumber (a_timestamp a) > 0) (rev sorted_acts)) \<rparr>)"

definition computeLifetimeAnalytics ::
  "(real \<Rightarrow> JsError + 'd::linorder) \<Rightarrow> Activity list \<Rightarrow> JsError + 'd LifetimeSummary" where
  "computeLifetimeAnalytics toISODate activities =
     (let sorted_acts = sortActivities activities
      in case lifetimeLoop toISODate
                \<lparr> acc_totalProfit = 0, acc_totalLoss = 0, acc_netPnl = 0, dailyMap = [] \<rparr>
                sorted_acts of
           Inl err \<Rightarrow> Inl err
         | Inr acc \<Rightarrow> Inr (lifetimeSummary sorted_acts acc))"

section \<open>The statistics in the words of the specification\<close>

text \<open>A bucket with one event of the given net, for the examples.\<close>

definition dayOf :: "int \<Rightarrow> real \<Rightarrow> int DailyEntry" where
  "dayOf dt n = \<lparr> d_date = dt, net = n, profit = (if n > 0 then n else 0),
                 loss = (if n > 0 then 0 else \<bar>n\<bar>), events = 1 \<rparr>"

text \<open>Sample mean and sample standard deviation, with denominator \<open>n - 1\<close>.\<close>

definition sampleMean :: "real list \<Rightarrow> real" where
  "sampleMean xs = sum_list xs / real (length xs)"

definition sampleStdev :: "real list \<Rightarrow> real" where
  "sampleStdev xs =
     sqrt (sum_list (map (\<lambda>x. (x - sampleMean xs) ^ 2) xs) / (real (length xs) - 1))"

text \<open>
  The same two statistics with every operation rounded to a double: the sum runs from
  the left, starting from 0.
\<close>

definition doubleSum :: "real list \<Rightarrow> real" where
  "doubleSum xs = foldl fl_add 0 xs"

definition doubleMean :: "real list \<Rightarrow> real" where
  "doubleMean xs = fl_div (doubleSum xs) (real (length xs))"

definition doubleVariance :: "real list \<Rightarrow> real" where
  "doubleVariance xs =
     fl_div (doubleSum (map (\<lambda>x. mathPow (fl_sub x (doubleMean xs)) 2) xs))
       (real (length xs - 1))"

definition doubleStdev :: "real list \<Rightarrow> real" where
  "doubleStdev xs = mathSqrt (doubleVariance xs)"

text \<open>
  The double that the literal \<open>0.1\<close> denotes, and three days whose net is that number.
\<close>

definition tenth :: real where
  "tenth = 3602879701896397 / 2 ^ 55"

definition tenthDays :: "int DailyEntry list" where
  "tenthDays = [dayOf 1 tenth, dayOf 2 tenth, dayOf 3 tenth]"

text \<open>
  The cumulative daily net after each day, the running peak after each day and the
  drawdown of each day. The running peak of the loop starts from 0, the cumulative net
  before the first day.
\<close>

fun runningSums :: "real \<Rightarrow> real list \<Rightarrow> real list" where
  "runningSums c [] = []"
| "runningSums c (x # xs) = (c + x) # runningSums (c + x) xs"

fun runningMax :: "real \<Rightarrow> real list \<Rightarrow> real list" where
  "runningMax p [] = []"
| "runningMax p (c # cs) = max p c # runningMax (max p c) cs"

definition cumulativeNet :: "'d DailyEntry list \<Rightarrow> real list" where
  "cumulativeNet daily = runningSums 0 (map net daily)"

definition runningPeak :: "'d DailyEntry list \<Rightarrow> real list" where
  "runningPeak daily = runningMax 0 (cumulativeNet daily)"

definition drawdowns :: "'d DailyEntry list \<Rightarrow> real list" where
  "drawdowns daily = map2 (-) (runningPeak daily) (cumulativeNet daily)"

text \<open>
  The maximum drawdown as the specification words it: the running peak is the largest
  cumulative daily net seen so far, and the result is 0 when there is no day.
\<close>

definition specRunningPeak :: "'d DailyEntry list \<Rightarrow> real list" where
  "specRunningPeak daily =
     (case cumulativeNet daily of [] \<Rightarrow> [] | c # cs \<Rightarrow> runningMax c (c # cs))"

definition specMaxDrawdown :: "'d DailyEntry list \<Rightarrow> real" where
  "specMaxDrawdown daily =
     (if daily = [] then 0
      else Max (set (map2 (-) (specRunningPeak daily) (cumulativeNet daily))))"

text \<open>The daily nets \<open>[+10, -5, +3, -12, +4]\<close> of scenario D.\<close>

definition scenarioD :: "int DailyEntry list" where
  "scenarioD = [dayOf 1 10, dayOf 2 (- 5), dayOf 3 3, dayOf 4 (- 12), dayOf 5 4]"

section \<open>The classification and the aggregation in the words of the specification\<close>

text \<open>
  The words by which a type is classified: a type matches when it contains one of them.
  \<open>SETTLE\<close> stands for \<open>SETTLEMENT\<close> too, which contains it.
\<close>

definition positiveWords :: "string list" where
  "positiveWords = [''REDEEM'', ''SETTLE'', ''CLAIM'', ''PAYOUT'', ''REWARD'', ''REBATE'', ''CREDIT'']"

definition negativeWords :: "string list" where
  "negativeWords = [''FEE'', ''PENALTY'', ''DEBIT'']"

definition ignoreWords :: "string list" where
  "ignoreWords = [''TRANSFER'', ''DEPOSIT'', ''WITHDRAW'', ''BRIDGE'']"

definition matchesAny :: "string \<Rightarrow> string list \<Rightarrow> bool" where
  "matchesAny ty ws = list_ex (includes_str ty) ws"

definition activityTimestamp :: "Activity \<Rightarrow> real" where
  "activityTimestamp a = parseNumber (a_timestamp a)"

text \<open>Sum of the deltas of the activities that satisfy a condition.\<close>

definition deltaSum :: "(Activity \<Rightarrow> bool) \<Rightarrow> Activity list \<Rightarrow> real" where
  "deltaSum P acts = sum_list (map getActivityNetDelta (filter P acts))"

subsection \<open>Example activities\<close>

definition exampleActivity :: "string \<Rightarrow> string option \<Rightarrow> real \<Rightarrow> real \<Rightarrow> Activity" where
  "exampleActivity ty sd amt ts =
     \<lparr> a_type = Some ty, a_side = sd, a_usdcSize = Some amt, a_amount = None, a_value = None,
       a_usdcAmount = None, a_amountUsd = None, a_cashDelta = None, a_delta = None, a_pnl = None,
       a_timestamp = Some ts \<rparr>"

text \<open>A reward of 5 and a fee of 5, both with timestamp 0.\<close>

definition cancellingUntimed :: "Activity list" where
  "cancellingUntimed = [exampleActivity ''REWARD'' None 5 0, exampleActivity ''FEE'' None 5 0]"

text \<open>A reward of 5 with timestamp 0, then a reward of 2 and a fee of 3 on 2 January 1970.\<close>

definition timedAndUntimed :: "Activity list" where
  "timedAndUntimed =
     [exampleActivity ''REWARD'' None 5 0, exampleActivity ''REWARD'' None 2 86400,
      exampleActivity ''FEE'' None 3 86401]"

definition allTimed :: "Activity list" where
  "allTimed = [exampleActivity ''REWARD'' None 2 86400, exampleActivity ''FEE'' None 3 86401]"

section \<open>fetchActivityByUserWithRange: the offset-mode collector\<close>

text \<open>
  A raw record of the upstream feed. Its timestamp is read in three places that tell
  \<open>undefined\<close> from \<open>null\<close> or both from a number, so it keeps the three apart. The
  function that turns a number into text inside a template string is a parameter,
  \<open>numberToString\<close>; the template string turns \<open>undefined\<close> and \<open>null\<close> into their
  names.
\<close>

datatype JsNumber = Undefined | Null | Number real

definition numberOrUndefined :: "JsNumber \<Rightarrow> real option" where
  "numberOrUndefined v = (case v of Undefined \<Rightarrow> None | Null \<Rightarrow> None | Number n \<Rightarrow> Some n)"

definition templateString :: "(real \<Rightarrow> string) \<Rightarrow> JsNumber \<Rightarrow> string" where
  "templateString numberToString v =
     (case v of Undefined \<Rightarrow> ''undefined'' | Null \<Rightarrow> ''null'' | Number n \<Rightarrow> numberToString n)"

record RawItem =
  r_id :: "string option"
  r_title :: "string option"
  r_slug :: "string option"
  r_eventSlug :: "string option"
  r_side :: "string option"
  r_outcome :: "string option"
  r_asset :: "string option"
  r_market :: "string option"
  r_price :: "real option"
  r_size :: "real option"
  r_usdcSize :: "real option"
  r_timestamp :: JsNumber
  r_transactionHash :: "string option"

definition firstTruthy :: "string option \<Rightarrow> string option \<Rightarrow> string option" where
  "firstTruthy v w = (if truthy v then v else w)"

definition mapActivityItem :: "(real \<Rightarrow> string) \<Rightarrow> RawItem \<Rightarrow> string \<Rightarrow> TradeActivity" where
  "mapActivityItem numberToString item address =
     \<lparr> trade_id =
         (if truthy (r_id item) then orElse (r_id item) []
          else if truthy (r_transactionHash item) then orElse (r_transactionHash item) []
          else templateString numberToString (r_timestamp item)),
       userAddress = address,
       title = firstTruthy (r_title item) (firstTruthy (r_slug item) (r_asset item)),
       slug = r_slug item,
       eventSlug = r_eventSlug item,
       side = r_side item,
       outcome = r_outcome item,
       asset = r_asset item,
       market = r_market item,
       price = r_price item,
       trade_size = r_size item,
       usdcSize = r_usdcSize item,
       timestamp = numberOrUndefined (r_timestamp item),
       transactionHash = r_transactionHash item \<rparr>"

definition normalizeTimestampSeconds :: "real \<Rightarrow> real" where
  "normalizeTimestampSeconds ts =
     (if ts \<ge> 1000000000000 then real_of_int \<lfloor>ts / 1000\<rfloor> else real_of_int \<lfloor>ts\<rfloor>)"

definition getActivityTimestampSeconds :: "RawItem \<Rightarrow> real option" where
  "getActivityTimestampSeconds item =
     (let raw = parseNumber (numberOrUndefined (r_timestamp item))
      in if raw = 0 then None else Some (normalizeTimestampSeconds raw))"

fun getOldestLoop :: "real option \<Rightarrow> RawItem list \<Rightarrow> real option" where
  "getOldestLoop oldest [] = oldest"
| "getOldestLoop oldest (item # items) =
     (case getActivityTimestampSeconds item of
        None \<Rightarrow> getOldestLoop oldest items
      | Some ts \<Rightarrow>
          (case oldest of
             None \<Rightarrow> getOldestLoop (Some ts) items
           | Some old \<Rightarrow> getOldestLoop (if ts < old then Some ts else Some old) items))"

definition getOldestTimestampSeconds :: "RawItem list \<Rightarrow> real option" where
  "getOldestTimestampSeconds items = getOldestLoop None items"

text \<open>The timestamps, in seconds, of the records of a page that carry one.\<close>

definition pageTimestamps :: "RawItem list \<Rightarrow> real list" where
  "pageTimestamps data = List.map_filter getActivityTimestampSeconds data"

definition isTimestampInRange :: "real option \<Rightarrow> real option \<Rightarrow> real option \<Rightarrow> bool" where
  "isTimestampInRange ts startTs endTs =
     (case ts of
        None \<Rightarrow> False
      | Some t \<Rightarrow>
          (case startTs of Some s \<Rightarrow> \<not> t < s | None \<Rightarrow> True) \<and>
          (case endTs of Some e \<Rightarrow> \<not> t > e | None \<Rightarrow> True))"

text \<open>
  What \<open>fetchData\<close> gives for one request: it throws, or it returns something that is not
  an array, or it returns a page. The feed is a function of the offset and the limit of
  the request.
\<close>

datatype Response = FetchFailed | NotArray | Page "RawItem list"

datatype FetchError = FetchError

text \<open>\<open>slug?.trim().toLowerCase()\<close>, with the ASCII white space.\<close>

definition isSpace :: "char \<Rightarrow> bool" where
  "isSpace c = (c \<in> set [CHR '' '', CHR 0x09, CHR 0x0A, CHR 0x0B, CHR 0x0C, CHR 0x0D])"

definition trim :: "string \<Rightarrow> string" where
  "trim s = rev (dropWhile isSpace (rev (dropWhile isSpace s)))"

record ActivityRangeParams =
  address :: string
  limit :: nat
  slug_param :: "string option"
  offset :: nat
  startTs :: "real option"
  endTs :: "real option"

text \<open>
  The result, with the list of the requests that were made, as \<open>(offset, limit)\<close>, in
  order.
\<close>

record ActivityRangeResult =
  out_trades :: "TradeActivity list"
  nextOffset :: nat
  exhausted :: bool
  requests :: "(nat \<times> nat) list"

text \<open>
  The two constants are read from the environment when the server starts; both are
  positive, the batch size is at most 500, and the defaults are 500 and 5000.
\<close>

record RangeConfig =
  ACTIVITY_RANGE_BATCH_SIZE :: nat
  ACTIVITY_RANGE_MAX_EVENTS :: nat
  numberToString :: "real \<Rightarrow> string"

definition MAX_CONSECUTIVE_EMPTY :: nat where
  "MAX_CONSECUTIVE_EMPTY = 25"

definition maxEventsOf :: "RangeConfig \<Rightarrow> ActivityRangeParams \<Rightarrow> nat" where
  "maxEventsOf cfg params = min (max (limit params) 1) (ACTIVITY_RANGE_MAX_EVENTS cfg)"

definition slugFilterOf :: "ActivityRangeParams \<Rightarrow> string option" where
  "slugFilterOf params = map_option (\<lambda>s. toLowerCase (trim s)) (slug_param params)"

text \<open>The filter of a page: the time range, then the slug filter.\<close>

definition accepted :: "ActivityRangeParams \<Rightarrow> RawItem \<Rightarrow> bool" where
  "accepted params item =
     (if \<not> isTimestampInRange (getActivityTimestampSeconds item) (startTs params) (endTs params)
      then False
      else if truthy (slugFilterOf params)
      then includes_str
             (toLowerCase (orElse (r_slug item) [] @ '' '' @ orElse (r_eventSlug item) [] @ '' ''
                           @ orElse (r_title item) []))
             (orElse (slugFilterOf params) [])
      else True)"

text \<open>The variables of the loop.\<close>

record RangeState =
  st_trades :: "TradeActivity list"
  currentOffset :: nat
  consecutiveEmpty :: nat
  st_requests :: "(nat \<times> nat) list"

definition batchLimitOf :: "RangeConfig \<Rightarrow> ActivityRangeParams \<Rightarrow> RangeState \<Rightarrow> nat" where
  "batchLimitOf cfg params st =
     min (ACTIVITY_RANGE_BATCH_SIZE cfg) (maxEventsOf cfg params - length (st_trades st))"

text \<open>
  The part of an iteration from the filter to \<open>currentOffset += data.length\<close>: the
  accepted records are pushed until \<open>trades\<close> holds \<open>maxEvents\<close> of them.
\<close>

definition absorbPage ::
  "RangeConfig \<Rightarrow> ActivityRangeParams \<Rightarrow> RangeState \<Rightarrow> RawItem list \<Rightarrow> RangeState" where
  "absorbPage cfg params st data =
     (let filtered = filter (accepted params) data
      in \<lparr> st_trades =
             st_trades st @
               take (maxEventsOf cfg params - length (st_trades st))
                 (map (\<lambda>item. mapActivityItem (numberToString cfg) item (address params)) filtered),
           currentOffset = currentOffset st + length data,
           consecutiveEmpty = (if filtered = [] then consecutiveEmpty st + 1 else 0),
           st_requests = st_requests st @ [(currentOffset st, batchLimitOf cfg params st)] \<rparr>)"

text \<open>
  The three tests that end the loop after a page, each with \<open>exhausted = true\<close>: a short
  page, too many pages in a row without an accepted record, a page that reaches back
  before \<open>startTs\<close>.
\<close>

definition pastStart :: "ActivityRangeParams \<Rightarrow> RawItem list \<Rightarrow> bool" where
  "pastStart params data =
     (case startTs params of
        None \<Rightarrow> False
      | Some s \<Rightarrow> (case getOldestTimestampSeconds data of None \<Rightarrow> False | Some oldest \<Rightarrow> oldest < s))"

definition stopsAfter ::
  "RangeConfig \<Rightarrow> ActivityRangeParams \<Rightarrow> RangeState \<Rightarrow> RawItem list \<Rightarrow> bool" where
  "stopsAfter cfg params st data =
     (length data < batchLimitOf cfg params st
      \<or> consecutiveEmpty (absorbPage cfg params st data) \<ge> MAX_CONSECUTIVE_EMPTY
      \<or> pastStart params data)"

definition finish :: "RangeState \<Rightarrow> bool \<Rightarrow> ActivityRangeResult" where
  "finish st ex =
     \<lparr> out_trades = st_trades st, nextOffset = currentOffset st, exhausted = ex,
       requests = st_requests st \<rparr>"

function rangeLoop ::
  "RangeConfig \<Rightarrow> ActivityRangeParams \<Rightarrow> (nat \<Rightarrow> nat \<Rightarrow> Response) \<Rightarrow> RangeState
   \<Rightarrow> FetchError + ActivityRangeResult" where
  "rangeLoop cfg params feed st =
     (if length (st_trades st) < maxEventsOf cfg params then
        (case feed (currentOffset st) (batchLimitOf cfg params st) of
           FetchFailed \<Rightarrow> Inl FetchError
         | NotArray \<Rightarrow>
             Inr (finish (st\<lparr>st_requests := st_requests st
                    @ [(currentOffset st, batchLimitOf cfg params st)]\<rparr>) True)
         | Page data \<Rightarrow>
             if data = [] then
               Inr (finish (st\<lparr>st_requests := st_requests st
                      @ [(currentOffset st, batchLimitOf cfg params st)]\<rparr>) True)
             else if stopsAfter cfg params st data then
               Inr (finish (absorbPage cfg params st data) True)
             else rangeLoop cfg params feed (absorbPage cfg params st data))
      else Inr (finish st False))"
  by pat_completeness auto
termination
proof (relation "measures [\<lambda>(cfg, params, feed, st). maxEventsOf cfg params - length (st_trades st),
                           \<lambda>(cfg, params, feed, st). MAX_CONSECUTIVE_EMPTY - consecutiveEmpty st]")
  show "wf (measures [\<lambda>(cfg, params, feed, st). maxEventsOf cfg params - length (st_trades st),
                      \<lambda>(cfg, params, feed, st). MAX_CONSECUTIVE_EMPTY - consecutiveEmpty st])"
    by simp
next
  fix cfg params feed st data
  assume lt: "length (st_trades st) < maxEventsOf cfg params"
    and "feed (currentOffset st) (batchLimitOf cfg params st) = Page data"
    and "data \<noteq> []"
    and ns: "\<not> stopsAfter cfg params st data"
  show "((cfg, params, feed, absorbPage cfg params st data), (cfg, params, feed, st))
        \<in> measures [\<lambda>(cfg, params, feed, st). maxEventsOf cfg params - length (st_trades st),
                     \<lambda>(cfg, params, feed, st). MAX_CONSECUTIVE_EMPTY - consecutiveEmpty st]"
  proof (cases "filter (accepted params) data = []")
    case True
    with ns show ?thesis
      by (simp add: stopsAfter_def absorbPage_def Let_def) linarith
  next
    case False
    then have pos: "0 < length (filter (accepted params) data)" by simp
    have ar: "m - (l + min n (m - l)) < m - l" if "l < m" and "0 < n" for m l n :: nat
      using that by arith
    from ar [OF lt pos] show ?thesis
      by (simp add: absorbPage_def Let_def)
  qed
qed

declare rangeLoop.simps [simp del]

definition fetchActivityByUserWithRange ::
  "RangeConfig \<Rightarrow> ActivityRangeParams \<Rightarrow> (nat \<Rightarrow> nat \<Rightarrow> Response)
   \<Rightarrow> FetchError + ActivityRangeResult" where
  "fetchActivityByUserWithRange cfg params feed =
     rangeLoop cfg params feed
       \<lparr> st_trades = [], currentOffset = offset params, consecutiveEmpty = 0, st_requests = [] \<rparr>"

text \<open>A feed that holds a fixed list of records and serves it by offset and limit.\<close>

definition pagedFeed :: "RawItem list \<Rightarrow> nat \<Rightarrow> nat \<Rightarrow> Response" where
  "pagedFeed xs ofs cnt = Page (take cnt (drop ofs xs))"

section \<open>The export loops of the dashboard\<close>

text \<open>
  \<open>getTradeKey\<close>, and the filter \<open>batch.filter(...)\<close> that both export loops apply to
  every page they receive: a trade whose key is in \<open>seenIds\<close> is dropped, the key of a
  kept trade is added.
\<close>

definition getTradeKey :: "(real \<Rightarrow> string) \<Rightarrow> TradeActivity \<Rightarrow> string" where
  "getTradeKey numToString trade =
     (if trade_id trade \<noteq> [] then trade_id trade
      else if truthy (transactionHash trade) then orElse (transactionHash trade) []
      else userAddress trade @ ''-''
           @ (case timestamp trade of None \<Rightarrow> [] | Some n \<Rightarrow> numToString n) @ ''-''
           @ (case usdcSize trade of None \<Rightarrow> [] | Some n \<Rightarrow> numToString n))"

fun freshFilter ::
  "(real \<Rightarrow> string) \<Rightarrow> string set \<Rightarrow> TradeActivity list \<Rightarrow> string set \<times> TradeActivity list" where
  "freshFilter numToString seenIds [] = (seenIds, [])"
| "freshFilter numToString seenIds (trade # batch) =
     (let key = getTradeKey numToString trade
      in if key \<in> seenIds then freshFilter numToString seenIds batch
         else (case freshFilter numToString (insert key seenIds) batch of
                 (seenIds', fresh) \<Rightarrow> (seenIds', trade # fresh)))"

text \<open>
  The trades an export loop has collected after a list of pages: each page goes through
  the filter and the fresh trades are appended. \<open>handleFullExport\<close> pages by offset and
  \<open>handleRangeExport\<close> by cursor; whatever makes either loop stop, its \<open>trades\<close> are
  those of the pages it has processed.
\<close>

fun exportPages ::
  "(real \<Rightarrow> string) \<Rightarrow> string set \<Rightarrow> TradeActivity list \<Rightarrow> TradeActivity list list
   \<Rightarrow> TradeActivity list" where
  "exportPages numToString seenIds acc [] = acc"
| "exportPages numToString seenIds acc (batch # rest) =
     (case freshFilter numToString seenIds batch of
        (seenIds', fresh) \<Rightarrow> exportPages numToString seenIds' (acc @ fresh) rest)"

subsection \<open>Example feeds\<close>

text \<open>
  The default constants. The example records carry an id, so \<open>numberToString\<close> is never
  applied.
\<close>

definition defaultConfig :: RangeConfig where
  "defaultConfig =
     \<lparr> ACTIVITY_RANGE_BATCH_SIZE = 500, ACTIVITY_RANGE_MAX_EVENTS = 5000,
       numberToString = (\<lambda>n. ''0'') \<rparr>"

definition exampleItem :: "string \<Rightarrow> real \<Rightarrow> RawItem" where
  "exampleItem i ts =
     \<lparr> r_id = Some i, r_title = None, r_slug = None, r_eventSlug = None, r_side = Some ''BUY'',
       r_outcome = None, r_asset = Some ''A'', r_market = None, r_price = None,
       r_size = Some 1, r_usdcSize = Some 1, r_timestamp = Number ts, r_transactionHash = None \<rparr>"

definition exampleParams :: "nat \<Rightarrow> real option \<Rightarrow> real option \<Rightarrow> ActivityRangeParams" where
  "exampleParams n s e =
     \<lparr> address = ''0xabc'', limit = n, slug_param = None, offset = 0, startTs = s, endTs = e \<rparr>"

text \<open>
  A feed whose first page of three is not in order of time: its oldest record, at 100, is
  the second, and its newest, at 200, the first.
\<close>

definition unorderedFeed :: "RawItem list" where
  "unorderedFeed =
     [exampleItem ''r1'' 200, exampleItem ''r2'' 100, exampleItem ''r3'' 180,
      exampleItem ''r4'' 90, exampleItem ''r5'' 80]"

text \<open>
  A feed that grows by one record between two requests: the first request, at offset 0
  with limit 3, gets \<open>r1, r2, r3\<close>; the second, at offset 3 with limit 1, gets \<open>r3\<close>
  again.
\<close>

definition overlapFeed :: "nat \<Rightarrow> nat \<Rightarrow> Response" where
  "overlapFeed ofs cnt =
     (if ofs = 0 \<and> cnt = 3
      then Page [exampleItem ''r1'' 300, exampleItem ''r2'' 200, exampleItem ''r3'' 100]
      else if ofs = 3 \<and> cnt = 1 then Page [exampleItem ''r3'' 100]
      else Page [])"

chapter \<open>Properties\<close>

section \<open>Position replay\<close>

lemmas eval_defs = sortTrades_def exampleTrade_def normalizeTimestampMs_def parseNumber_def
  historyEntry_def historyStep_def historyExisting_def getPositionKey_def truthy_def orElse_def
  orUndefined_def normalizeSide_def toLowerCase_def toLowerCase_char_def upperLetters_def
  lowerLetters_def tradeSizeOf_def tradePriceOf_def tradeUsdcOf_def Let_def
  summaryStep_def summaryExisting_def summaryUpdate_def historyBefore_def summaryBefore_def
  computePositionHistory_def computePositionSummary_def summaryEntry_def insertionOrder_def

subsection \<open>The loops, event by event\<close>

lemma historyLoop_nth:
  "i < length ts \<Longrightarrow>
   historyLoop ps ts ! i = historyEntry (historyPositions ps (take i ts)) (ts ! i)"
proof (induction ts arbitrary: ps i)
  case Nil
  then show ?case by simp
next
  case (Cons t ts)
  show ?case
  proof (cases i)
    case 0
    then show ?thesis by simp
  next
    case (Suc j)
    with Cons.prems have "j < length ts" by simp
    from Cons.IH [OF this] Suc show ?thesis by simp
  qed
qed

lemma summaryLoop_snoc: "summaryLoop ps (ts @ [t]) = summaryStep (summaryLoop ps ts) t"
  by (induction ts arbitrary: ps) simp_all

lemma summaryLoop_take_Suc:
  "i < length ts \<Longrightarrow>
   summaryLoop ps (take (Suc i) ts) = summaryStep (summaryLoop ps (take i ts)) (ts ! i)"
  by (simp add: take_Suc_conv_app_nth summaryLoop_snoc)

lemma computePositionHistory_nth:
  "i < length (sortTrades trades) \<Longrightarrow>
   computePositionHistory trades ! i =
     historyEntry (historyBefore trades i) (sortTrades trades ! i)"
  by (simp add: computePositionHistory_def historyBefore_def historyLoop_nth)

lemma summaryBefore_Suc:
  "i < length (sortTrades trades) \<Longrightarrow>
   summaryBefore trades (Suc i) = summaryStep (summaryBefore trades i) (sortTrades trades ! i)"
  by (simp add: summaryBefore_def summaryLoop_take_Suc)

lemma summaryExisting_after_step:
  "summaryExisting (summaryStep ps t) t = summaryUpdate (summaryExisting ps t) t"
  by (simp add: summaryExisting_def summaryStep_def)

lemma oversell_sorted: "sortTrades oversellTrades = oversellTrades"
  by (simp add: oversellTrades_def eval_defs)

subsection \<open>Realized delta of a sell\<close>

text \<open>
  C1, as the code has it. For the event \<open>ev\<close> at index \<open>i\<close> of the replay, with side sell,
  on an instrument whose open size is strictly positive, and with a strictly positive
  trade size: the realized delta of the history entry, and the increase of the summary's
  realized PnL, are the sell notional minus \<open>avgCost\<close> times the whole trade size, where
  \<open>avgCost = costBasisUsd / openSize\<close>. No minimum with the open size is taken: this
  is the \<open>min(tradeSize, openSize)\<close> formula whenever the sell does not exceed the open
  size, and in an oversell the whole trade size takes part. After a sell of less than
  the open size, the open size is reduced by the trade size and the cost basis by
  \<open>avgCost\<close> times the trade size; after a sell of the open size or more, open size and
  cost basis are both 0. A sell whose size is not positive records no realized delta.
\<close>

theorem sell_realized_delta:
  assumes "i < length (sortTrades trades)"
    and "ev = sortTrades trades ! i"
    and "normalizeSide (side ev) = Sell"
    and "hp = historyExisting (historyBefore trades i) ev"
    and "sp = summaryExisting (summaryBefore trades i) ev"
    and "sp' = summaryExisting (summaryBefore trades (Suc i)) ev"
  shows "(0 < p_size hp \<and> 0 < tradeSizeOf ev \<longrightarrow>
            realizedPnl (computePositionHistory trades ! i) =
              tradeUsdcOf ev - (p_costBasisUsd hp / p_size hp) * tradeSizeOf ev)
       \<and> (0 < openSize sp \<and> 0 < tradeSizeOf ev \<longrightarrow>
            s_realizedPnl sp' - s_realizedPnl sp =
              tradeUsdcOf ev - (costBasisUsd sp / openSize sp) * tradeSizeOf ev)
       \<and> (0 < p_size hp \<and> 0 < tradeSizeOf ev \<and> tradeSizeOf ev \<le> p_size hp \<longrightarrow>
            realizedPnl (computePositionHistory trades ! i) =
              tradeUsdcOf ev - (p_costBasisUsd hp / p_size hp) * min (tradeSizeOf ev) (p_size hp))
       \<and> (tradeSizeOf ev \<le> 0 \<longrightarrow>
            realizedPnl (computePositionHistory trades ! i) = 0 \<and>
            s_realizedPnl sp' = s_realizedPnl sp)
       \<and> (0 < p_size hp \<and> 0 < tradeSizeOf ev \<and> p_size hp \<le> tradeSizeOf ev \<longrightarrow>
            positionSize (computePositionHistory trades ! i) = 0 \<and>
            positionCostBasis (computePositionHistory trades ! i) = 0)
       \<and> (0 < openSize sp \<and> 0 < tradeSizeOf ev \<and> openSize sp \<le> tradeSizeOf ev \<longrightarrow>
            openSize sp' = 0 \<and> costBasisUsd sp' = 0)
       \<and> (0 < tradeSizeOf ev \<and> tradeSizeOf ev < p_size hp \<longrightarrow>
            positionSize (computePositionHistory trades ! i) = p_size hp - tradeSizeOf ev \<and>
            positionCostBasis (computePositionHistory trades ! i) =
              p_costBasisUsd hp - (p_costBasisUsd hp / p_size hp) * tradeSizeOf ev)
       \<and> (0 < tradeSizeOf ev \<and> tradeSizeOf ev < openSize sp \<longrightarrow>
            openSize sp' = openSize sp - tradeSizeOf ev \<and>
            costBasisUsd sp' =
              costBasisUsd sp - (costBasisUsd sp / openSize sp) * tradeSizeOf ev)"
proof -
  have h: "computePositionHistory trades ! i = historyEntry (historyBefore trades i) ev"
    using assms(1,2) by (simp add: computePositionHistory_nth)
  have s: "sp' = summaryUpdate sp ev"
    using assms(1,2,5,6) by (simp add: summaryBefore_Suc summaryExisting_after_step)
  have 1: "0 < p_size hp \<and> 0 < tradeSizeOf ev \<longrightarrow>
            realizedPnl (computePositionHistory trades ! i) =
              tradeUsdcOf ev - (p_costBasisUsd hp / p_size hp) * tradeSizeOf ev"
    using assms(3,4) by (simp add: h historyEntry_def Let_def)
  have 2: "0 < openSize sp \<and> 0 < tradeSizeOf ev \<longrightarrow>
            s_realizedPnl sp' - s_realizedPnl sp =
              tradeUsdcOf ev - (costBasisUsd sp / openSize sp) * tradeSizeOf ev"
    using assms(3) by (simp add: s summaryUpdate_def Let_def)
  have 3: "tradeSizeOf ev \<le> 0 \<longrightarrow>
            realizedPnl (computePositionHistory trades ! i) = 0 \<and>
            s_realizedPnl sp' = s_realizedPnl sp"
    using assms(3,4) by (simp add: h s historyEntry_def summaryUpdate_def Let_def)
  have 4: "0 < p_size hp \<and> 0 < tradeSizeOf ev \<and> p_size hp \<le> tradeSizeOf ev \<longrightarrow>
            positionSize (computePositionHistory trades ! i) = 0 \<and>
            positionCostBasis (computePositionHistory trades ! i) = 0"
    using assms(3,4) by (simp add: h historyEntry_def Let_def)
  have 5: "0 < openSize sp \<and> 0 < tradeSizeOf ev \<and> openSize sp \<le> tradeSizeOf ev \<longrightarrow>
            openSize sp' = 0 \<and> costBasisUsd sp' = 0"
    using assms(3) by (simp add: s summaryUpdate_def Let_def)
  have 6: "0 < tradeSizeOf ev \<and> tradeSizeOf ev < p_size hp \<longrightarrow>
            positionSize (computePositionHistory trades ! i) = p_size hp - tradeSizeOf ev \<and>
            positionCostBasis (computePositionHistory trades ! i) =
              p_costBasisUsd hp - (p_costBasisUsd hp / p_size hp) * tradeSizeOf ev"
    using assms(3,4) by (simp add: h historyEntry_def Let_def)
  have 7: "0 < tradeSizeOf ev \<and> tradeSizeOf ev < openSize sp \<longrightarrow>
            openSize sp' = openSize sp - tradeSizeOf ev \<and>
            costBasisUsd sp' =
              costBasisUsd sp - (costBasisUsd sp / openSize sp) * tradeSizeOf ev"
    using assms(3) by (simp add: s summaryUpdate_def Let_def)
  from 1 2 3 have a: "(0 < p_size hp \<and> 0 < tradeSizeOf ev \<longrightarrow>
            realizedPnl (computePositionHistory trades ! i) =
              tradeUsdcOf ev - (p_costBasisUsd hp / p_size hp) * tradeSizeOf ev)
       \<and> (0 < openSize sp \<and> 0 < tradeSizeOf ev \<longrightarrow>
            s_realizedPnl sp' - s_realizedPnl sp =
              tradeUsdcOf ev - (costBasisUsd sp / openSize sp) * tradeSizeOf ev)
       \<and> (0 < p_size hp \<and> 0 < tradeSizeOf ev \<and> tradeSizeOf ev \<le> p_size hp \<longrightarrow>
            realizedPnl (computePositionHistory trades ! i) =
              tradeUsdcOf ev - (p_costBasisUsd hp / p_size hp) * min (tradeSizeOf ev) (p_size hp))
       \<and> (tradeSizeOf ev \<le> 0 \<longrightarrow>
            realizedPnl (computePositionHistory trades ! i) = 0 \<and>
            s_realizedPnl sp' = s_realizedPnl sp)"
    by (simp add: min_def)
  from a 4 5 6 7 show ?thesis by (intro conjI) (elim conjE, assumption)+
qed

text \<open>
  The theorem at the oversell: open size 10 at cost basis 4, sell of 15 for 9 USD; the
  realized delta is \<open>9 - 0.4 * 15 = 3\<close> in both loops, and the position is left with
  size 0 and cost basis 0. And at the partial close: open size 10 at cost basis 5, sell
  of 4 for 2.80 USD; the realized delta is \<open>0.8\<close>, and the position is left with size 6
  and cost basis 3.
\<close>

theorem sell_realized_delta_witness:
  "1 < length (sortTrades oversellTrades)
   \<and> normalizeSide (side (oversellTrades ! 1)) = Sell
   \<and> 0 < p_size (historyExisting (historyBefore oversellTrades 1) (oversellTrades ! 1))
   \<and> 0 < openSize (summaryExisting (summaryBefore oversellTrades 1) (oversellTrades ! 1))
   \<and> 0 < tradeSizeOf (oversellTrades ! 1)
   \<and> realizedPnl (computePositionHistory oversellTrades ! 1) = 9 - (4 / 10) * 15
   \<and> s_realizedPnl (summaryExisting (summaryBefore oversellTrades 2) (oversellTrades ! 1))
       - s_realizedPnl (summaryExisting (summaryBefore oversellTrades 1) (oversellTrades ! 1))
       = 9 - (4 / 10) * 15
   \<and> positionSize (computePositionHistory oversellTrades ! 1) = 0
   \<and> positionCostBasis (computePositionHistory oversellTrades ! 1) = 0
   \<and> openSize (summaryExisting (summaryBefore oversellTrades 2) (oversellTrades ! 1)) = 0
   \<and> costBasisUsd (summaryExisting (summaryBefore oversellTrades 2) (oversellTrades ! 1)) = 0
   \<and> realizedPnl (computePositionHistory partialCloseTrades ! 1) = 8 / 10
   \<and> positionSize (computePositionHistory partialCloseTrades ! 1) = 6
   \<and> positionCostBasis (computePositionHistory partialCloseTrades ! 1) = 3
   \<and> openSize (summaryExisting (summaryBefore partialCloseTrades 2) (partialCloseTrades ! 1)) = 6
   \<and> costBasisUsd (summaryExisting (summaryBefore partialCloseTrades 2) (partialCloseTrades ! 1))
       = 3"
proof -
  have a: "1 < length (sortTrades oversellTrades)"
    by (simp add: oversell_sorted) (simp add: oversellTrades_def)
  have b: "oversellTrades ! 1 = sortTrades oversellTrades ! 1"
    by (simp add: oversell_sorted)
  have c: "normalizeSide (side (oversellTrades ! 1)) = Sell"
    by (simp add: oversellTrades_def eval_defs)
  have d: "Suc 1 = 2" by simp
  note t = sell_realized_delta [OF a b c refl refl refl]
  have e: "p_size (historyExisting (historyBefore oversellTrades 1) (oversellTrades ! 1)) = 10"
     "p_costBasisUsd (historyExisting (historyBefore oversellTrades 1) (oversellTrades ! 1)) = 4"
     "openSize (summaryExisting (summaryBefore oversellTrades 1) (oversellTrades ! 1)) = 10"
     "costBasisUsd (summaryExisting (summaryBefore oversellTrades 1) (oversellTrades ! 1)) = 4"
     "tradeSizeOf (oversellTrades ! 1) = 15" "tradeUsdcOf (oversellTrades ! 1) = 9"
    by (simp_all add: oversellTrades_def eval_defs)
  from t a c have over:
    "1 < length (sortTrades oversellTrades)
     \<and> normalizeSide (side (oversellTrades ! 1)) = Sell
     \<and> realizedPnl (computePositionHistory oversellTrades ! 1) = 9 - (4 / 10) * 15
     \<and> s_realizedPnl (summaryExisting (summaryBefore oversellTrades 2) (oversellTrades ! 1))
         - s_realizedPnl (summaryExisting (summaryBefore oversellTrades 1) (oversellTrades ! 1))
         = 9 - (4 / 10) * 15
     \<and> positionSize (computePositionHistory oversellTrades ! 1) = 0
     \<and> positionCostBasis (computePositionHistory oversellTrades ! 1) = 0
     \<and> openSize (summaryExisting (summaryBefore oversellTrades 2) (oversellTrades ! 1)) = 0
     \<and> costBasisUsd (summaryExisting (summaryBefore oversellTrades 2) (oversellTrades ! 1)) = 0"
    unfolding d e by simp
  have ps: "sortTrades partialCloseTrades = partialCloseTrades"
    by (simp add: partialCloseTrades_def eval_defs)
  have a': "1 < length (sortTrades partialCloseTrades)"
    by (simp add: ps) (simp add: partialCloseTrades_def)
  have b': "partialCloseTrades ! 1 = sortTrades partialCloseTrades ! 1"
    by (simp add: ps)
  have c': "normalizeSide (side (partialCloseTrades ! 1)) = Sell"
    by (simp add: partialCloseTrades_def eval_defs)
  note t' = sell_realized_delta [OF a' b' c' refl refl refl]
  have e': "p_size (historyExisting (historyBefore partialCloseTrades 1) (partialCloseTrades ! 1)) = 10"
     "p_costBasisUsd (historyExisting (historyBefore partialCloseTrades 1) (partialCloseTrades ! 1)) = 5"
     "openSize (summaryExisting (summaryBefore partialCloseTrades 1) (partialCloseTrades ! 1)) = 10"
     "costBasisUsd (summaryExisting (summaryBefore partialCloseTrades 1) (partialCloseTrades ! 1)) = 5"
     "tradeSizeOf (partialCloseTrades ! 1) = 4" "tradeUsdcOf (partialCloseTrades ! 1) = 28 / 10"
    by (simp_all add: partialCloseTrades_def eval_defs)
  from t' have part:
    "realizedPnl (computePositionHistory partialCloseTrades ! 1) = 8 / 10
     \<and> positionSize (computePositionHistory partialCloseTrades ! 1) = 6
     \<and> positionCostBasis (computePositionHistory partialCloseTrades ! 1) = 3
     \<and> openSize (summaryExisting (summaryBefore partialCloseTrades 2) (partialCloseTrades ! 1)) = 6
     \<and> costBasisUsd (summaryExisting (summaryBefore partialCloseTrades 2) (partialCloseTrades ! 1))
         = 3"
    unfolding d e' by simp
  from over part e show ?thesis by simp
qed

text \<open>
  C1 as stated fails at the oversell: the sell has side sell, the open size is 10 and
  the cost basis 4, the trade size 15 and the notional 9, and the recorded delta is 3, not
  \<open>9 - 0.4 * min 15 10 = 5\<close>.
\<close>

theorem oversell_realized_counterexample:
  "normalizeSide (side (sortTrades oversellTrades ! 1)) = Sell
   \<and> p_size (historyExisting (historyBefore oversellTrades 1) (sortTrades oversellTrades ! 1)) = 10
   \<and> p_costBasisUsd (historyExisting (historyBefore oversellTrades 1) (sortTrades oversellTrades ! 1)) = 4
   \<and> tradeSizeOf (sortTrades oversellTrades ! 1) = 15
   \<and> tradeUsdcOf (sortTrades oversellTrades ! 1) = 9
   \<and> realizedPnl (computePositionHistory oversellTrades ! 1) = 3
   \<and> positionSize (computePositionHistory oversellTrades ! 1) = 0
   \<and> map e_realizedPnl (computePositionSummary oversellTrades) = [3]
   \<and> map e_openSize (computePositionSummary oversellTrades) = [0]
   \<and> realizedPnl (computePositionHistory oversellTrades ! 1) \<noteq> 9 - (4 / 10) * min 15 10"
  by (simp add: oversellTrades_def eval_defs)

subsection \<open>Open size and cost basis\<close>

lemma historyEntry_invariant:
  "0 \<le> positionSize (historyEntry ps t) \<and>
   (positionSize (historyEntry ps t) = 0 \<longrightarrow> positionCostBasis (historyEntry ps t) = 0)"
  by (simp add: historyEntry_def Let_def)

lemma historyLoop_invariant:
  "e \<in> set (historyLoop ps ts) \<Longrightarrow>
   0 \<le> positionSize e \<and> (positionSize e = 0 \<longrightarrow> positionCostBasis e = 0)"
proof (induction ts arbitrary: ps)
  case Nil
  then show ?case by simp
next
  case (Cons t ts)
  then show ?case using historyEntry_invariant [of ps t] by auto
qed

lemma historyStep_invariant: "historyInv ps \<Longrightarrow> historyInv (historyStep ps t)"
  using historyEntry_invariant [of ps t]
  by (auto simp: historyInv_def historyStep_def Let_def)

lemma historyPositions_invariant: "historyInv ps \<Longrightarrow> historyInv (historyPositions ps ts)"
  by (induction ts arbitrary: ps) (simp_all add: historyStep_invariant)

text \<open>
  In \<open>computePositionHistory\<close> both invariants hold after every event, for every
  instrument and every list of trades: the clamp follows the buy branch and the sell
  branch alike.
\<close>

lemma history_open_size_invariant:
  "historyInv (historyBefore trades i)"
  "e \<in> set (computePositionHistory trades) \<Longrightarrow>
     0 \<le> positionSize e \<and> (positionSize e = 0 \<longrightarrow> positionCostBasis e = 0)"
proof -
  have "historyInv Map.empty" by (simp add: historyInv_def)
  then show "historyInv (historyBefore trades i)"
    unfolding historyBefore_def by (rule historyPositions_invariant)
  show "e \<in> set (computePositionHistory trades) \<Longrightarrow>
     0 \<le> positionSize e \<and> (positionSize e = 0 \<longrightarrow> positionCostBasis e = 0)"
    unfolding computePositionHistory_def by (rule historyLoop_invariant)
qed

lemma summaryUpdate_invariant:
  assumes "0 \<le> openSize p \<and> (openSize p = 0 \<longrightarrow> costBasisUsd p = 0)"
    and "normalizeSide (side t) = Buy \<longrightarrow> 0 < tradeSizeOf t"
  shows "0 \<le> openSize (summaryUpdate p t) \<and>
         (openSize (summaryUpdate p t) = 0 \<longrightarrow> costBasisUsd (summaryUpdate p t) = 0)"
proof (cases "normalizeSide (side t)")
  case Buy
  with assms show ?thesis by (simp add: summaryUpdate_def Let_def)
next
  case Sell
  with assms show ?thesis by (simp add: summaryUpdate_def Let_def)
qed

lemma summaryExisting_invariant:
  "summaryInv ps \<Longrightarrow>
   0 \<le> openSize (summaryExisting ps t) \<and>
   (openSize (summaryExisting ps t) = 0 \<longrightarrow> costBasisUsd (summaryExisting ps t) = 0)"
  by (auto simp: summaryInv_def summaryExisting_def split: option.splits)

lemma summaryStep_invariant:
  "summaryInv ps \<Longrightarrow> (normalizeSide (side t) = Buy \<longrightarrow> 0 < tradeSizeOf t) \<Longrightarrow>
   summaryInv (summaryStep ps t)"
  using summaryUpdate_invariant [OF summaryExisting_invariant, of ps t t]
  by (auto simp: summaryInv_def summaryStep_def)

text \<open>
  In \<open>computePositionSummary\<close> the clamp sits inside the sell branch only. Sells, of any
  size, keep the invariants; so the invariants hold for every list of trades whose buys
  all have a strictly positive size.
\<close>

lemma summaryLoop_invariant:
  "summaryInv ps \<Longrightarrow> \<forall>t \<in> set ts. normalizeSide (side t) = Buy \<longrightarrow> 0 < tradeSizeOf t \<Longrightarrow>
   summaryInv (summaryLoop ps ts)"
  by (induction ts arbitrary: ps) (simp_all add: summaryStep_invariant)

text \<open>
  C2 in \<open>computePositionSummary\<close>, at buys whose size is not positive. A buy with a
  notional of 5 and no size leaves open size 0 with cost basis 5; a buy of size \<open>-5\<close>
  leaves open size \<open>-5\<close>, reported with status CLOSED. \<open>computePositionHistory\<close> clamps
  both to 0. After the first of these buys, a round trip BUY 10 for 4, SELL 10 for 6
  realizes \<open>-3\<close> in the summary and 2 in the history.
\<close>

theorem summary_buy_not_clamped:
  "map_option openSize (summaryLoop Map.empty (sortTrades zeroSizeBuy) ''A'') = Some 0
   \<and> map_option costBasisUsd (summaryLoop Map.empty (sortTrades zeroSizeBuy) ''A'') = Some 5
   \<and> map positionSize (computePositionHistory zeroSizeBuy) = [0]
   \<and> map positionCostBasis (computePositionHistory zeroSizeBuy) = [0]
   \<and> map e_openSize (computePositionSummary negativeSizeBuy) = [- 5]
   \<and> map e_status (computePositionSummary negativeSizeBuy) = [CLOSED]
   \<and> map positionSize (computePositionHistory negativeSizeBuy) = [0]
   \<and> map e_realizedPnl (computePositionSummary zeroSizeBuyThenRoundTrip) = [- 3]
   \<and> map realizedPnl (computePositionHistory zeroSizeBuyThenRoundTrip) = [0, 0, 2]"
  by (simp add: zeroSizeBuy_def negativeSizeBuy_def zeroSizeBuyThenRoundTrip_def eval_defs)

subsection \<open>A sell without open size\<close>

text \<open>
  C3, as the code has it. A sell on an instrument with no open size opens nothing: in the
  history the entry records realized delta 0, position size 0 and cost basis 0; in the
  summary open size, cost basis and realized PnL keep their values, and only
  \<open>sellSize\<close> and \<open>sellProceeds\<close> grow by the event's size and notional.
\<close>

theorem sell_without_open_size:
  assumes "i < length (sortTrades trades)"
    and "ev = sortTrades trades ! i"
    and "normalizeSide (side ev) = Sell"
    and "hp = historyExisting (historyBefore trades i) ev"
    and "sp = summaryExisting (summaryBefore trades i) ev"
    and "sp' = summaryExisting (summaryBefore trades (Suc i)) ev"
  shows "(\<not> 0 < p_size hp \<longrightarrow>
            realizedPnl (computePositionHistory trades ! i) = 0 \<and>
            positionSize (computePositionHistory trades ! i) = 0 \<and>
            positionCostBasis (computePositionHistory trades ! i) = 0)
       \<and> (\<not> 0 < openSize sp \<longrightarrow>
            openSize sp' = openSize sp \<and> costBasisUsd sp' = costBasisUsd sp \<and>
            s_realizedPnl sp' = s_realizedPnl sp \<and>
            sellSize sp' = sellSize sp + tradeSizeOf ev \<and>
            sellProceeds sp' = sellProceeds sp + tradeUsdcOf ev)"
proof -
  have h: "computePositionHistory trades ! i = historyEntry (historyBefore trades i) ev"
    using assms(1,2) by (simp add: computePositionHistory_nth)
  have s: "sp' = summaryUpdate sp ev"
    using assms(1,2,5,6) by (simp add: summaryBefore_Suc summaryExisting_after_step)
  have 1: "\<not> 0 < p_size hp \<longrightarrow>
            realizedPnl (computePositionHistory trades ! i) = 0 \<and>
            positionSize (computePositionHistory trades ! i) = 0 \<and>
            positionCostBasis (computePositionHistory trades ! i) = 0"
    using assms(3,4) by (simp add: h historyEntry_def Let_def)
  have 2: "\<not> 0 < openSize sp \<longrightarrow>
            openSize sp' = openSize sp \<and> costBasisUsd sp' = costBasisUsd sp \<and>
            s_realizedPnl sp' = s_realizedPnl sp \<and>
            sellSize sp' = sellSize sp + tradeSizeOf ev \<and>
            sellProceeds sp' = sellProceeds sp + tradeUsdcOf ev"
    using assms(3) by (simp add: s summaryUpdate_def Let_def)
  from 1 2 show ?thesis by simp
qed

text \<open>The theorem at a lone sell of 10 for 6 USD on a fresh instrument.\<close>

theorem sell_without_open_size_witness:
  "0 < length (sortTrades loneSell)
   \<and> normalizeSide (side (loneSell ! 0)) = Sell
   \<and> \<not> 0 < p_size (historyExisting (historyBefore loneSell 0) (loneSell ! 0))
   \<and> \<not> 0 < openSize (summaryExisting (summaryBefore loneSell 0) (loneSell ! 0))
   \<and> realizedPnl (computePositionHistory loneSell ! 0) = 0
   \<and> positionSize (computePositionHistory loneSell ! 0) = 0
   \<and> positionCostBasis (computePositionHistory loneSell ! 0) = 0
   \<and> openSize (summaryExisting (summaryBefore loneSell (Suc 0)) (loneSell ! 0)) = 0
   \<and> costBasisUsd (summaryExisting (summaryBefore loneSell (Suc 0)) (loneSell ! 0)) = 0"
proof -
  have a: "0 < length (sortTrades loneSell)"
    by (simp add: loneSell_def sortTrades_def)
  have b: "loneSell ! 0 = sortTrades loneSell ! 0"
    by (simp add: loneSell_def sortTrades_def)
  have c: "normalizeSide (side (loneSell ! 0)) = Sell"
    by (simp add: loneSell_def eval_defs)
  have e: "p_size (historyExisting (historyBefore loneSell 0) (loneSell ! 0)) = 0"
     "openSize (summaryExisting (summaryBefore loneSell 0) (loneSell ! 0)) = 0"
     "costBasisUsd (summaryExisting (summaryBefore loneSell 0) (loneSell ! 0)) = 0"
    by (simp_all add: loneSell_def eval_defs)
  note t = sell_without_open_size [OF a b c refl refl refl]
  from t a c show ?thesis unfolding e by simp
qed

text \<open>
  C3 as stated fails at the lone sell: the instrument has no position, the sell has size
  10 and notional 6, and afterwards the position size and the cost basis are 0, not 10
  and 6; the summary counts the event under \<open>sellSize\<close>, not under \<open>buySize\<close>.
\<close>

theorem sell_treated_like_buy_counterexample:
  "normalizeSide (side (sortTrades loneSell ! 0)) = Sell
   \<and> historyBefore loneSell 0 (getPositionKey (sortTrades loneSell ! 0)) = None
   \<and> tradeSizeOf (sortTrades loneSell ! 0) = 10
   \<and> tradeUsdcOf (sortTrades loneSell ! 0) = 6
   \<and> positionSize (computePositionHistory loneSell ! 0) = 0
   \<and> positionCostBasis (computePositionHistory loneSell ! 0) = 0
   \<and> map e_openSize (computePositionSummary loneSell) = [0]
   \<and> map e_buySize (computePositionSummary loneSell) = [0]
   \<and> map e_sellSize (computePositionSummary loneSell) = [10]"
  by (simp add: loneSell_def eval_defs)

section \<open>Lifetime statistics\<close>

subsection \<open>Sums of the daily list\<close>
lemma fold_plus_sum_list:
  "fold (\<lambda>day sum. sum + f day) ds (a::real) = a + sum_list (map f ds)"
  by (induction ds arbitrary: a) simp_all

lemma sum_list_if_filter:
  "sum_list (map (\<lambda>d. if P d then f d else (0::real)) ds) = sum_list (map f (filter P ds))"
  by (induction ds) simp_all

lemma totalPositive_sum:
  "totalPositive daily = sum_list (map net (filter (\<lambda>d. 0 < net d) daily))"
  by (simp add: totalPositive_def fold_plus_sum_list sum_list_if_filter)

lemma totalNegative_sum:
  "totalNegative daily = sum_list (map (\<lambda>d. \<bar>net d\<bar>) (filter (\<lambda>d. net d < 0) daily))"
proof -
  have "totalNegative daily = sum_list (map (\<lambda>d. - net d) (filter (\<lambda>d. net d < 0) daily))"
    by (simp add: totalNegative_def fold_plus_sum_list sum_list_if_filter)
  also have "\<dots> = sum_list (map (\<lambda>d. \<bar>net d\<bar>) (filter (\<lambda>d. net d < 0) daily))"
    by (rule arg_cong [where f = sum_list]) (rule map_cong, simp_all)
  finally show ?thesis .
qed

lemma sum_list_abs_pos:
  "0 < sum_list (map (\<lambda>d. \<bar>net d\<bar>) (filter (\<lambda>d. net d < 0) ds)) \<longleftrightarrow>
   filter (\<lambda>d. net d < 0) ds \<noteq> []"
proof (induction ds)
  case Nil
  then show ?case by simp
next
  case (Cons d ds)
  have nn: "0 \<le> sum_list (map (\<lambda>d. \<bar>net d\<bar>) (filter (\<lambda>d. net d < 0) ds))"
    by (rule sum_list_nonneg) auto
  show ?case
  proof (cases "net d < 0")
    case True
    with nn show ?thesis by simp
  next
    case False
    with Cons show ?thesis by simp
  qed
qed

lemma totalNegative_pos: "0 < totalNegative daily \<longleftrightarrow> lossDays daily \<noteq> 0"
  by (simp add: totalNegative_sum sum_list_abs_pos lossDays_def)

lemma computeLifetimeAnalytics_Inr:
  "computeLifetimeAnalytics f acts = Inr summary \<Longrightarrow>
   \<exists>acc. summary = lifetimeSummary (sortActivities acts) acc"
  by (auto simp: computeLifetimeAnalytics_def Let_def split: sum.splits)

lemma lifetimeSummary_fields:
  "l_profitFactor (lifetimeSummary xs acc) = profitFactorOf (l_daily (lifetimeSummary xs acc))"
  "l_sharpeRatio (lifetimeSummary xs acc) = sharpeRatioOf (l_daily (lifetimeSummary xs acc))"
  "l_maxDrawdown (lifetimeSummary xs acc) = maxDrawdownValue (l_daily (lifetimeSummary xs acc))"
  "l_activeDays (lifetimeSummary xs acc) = length (l_daily (lifetimeSummary xs acc))"
  by (simp_all add: lifetimeSummary_def Let_def)

subsection \<open>Profit factor\<close>

text \<open>
  C8. The profit factor is null if and only if no day has a negative net; otherwise it is
  the sum of the nets of the days with a positive net, divided by the sum of the absolute
  nets of the days with a negative net. It is the profit factor that
  \<open>computeLifetimeAnalytics\<close> returns for its daily list.
\<close>

theorem profit_factor:
  "(profitFactorOf daily = None \<longleftrightarrow> lossDays daily = 0)
   \<and> (lossDays daily \<noteq> 0 \<longrightarrow>
        profitFactorOf daily =
          Some (sum_list (map net (filter (\<lambda>d. 0 < net d) daily))
                / sum_list (map (\<lambda>d. \<bar>net d\<bar>) (filter (\<lambda>d. net d < 0) daily))))
   \<and> (computeLifetimeAnalytics toISODate activities = Inr summary \<longrightarrow>
        l_profitFactor summary = profitFactorOf (l_daily summary))"
proof -
  have 1: "profitFactorOf daily = None \<longleftrightarrow> lossDays daily = 0"
    using totalNegative_pos [of daily] by (simp add: profitFactorOf_def)
  have 2: "lossDays daily \<noteq> 0 \<longrightarrow>
        profitFactorOf daily =
          Some (sum_list (map net (filter (\<lambda>d. 0 < net d) daily))
                / sum_list (map (\<lambda>d. \<bar>net d\<bar>) (filter (\<lambda>d. net d < 0) daily)))"
    using totalNegative_pos [of daily]
    by (simp add: profitFactorOf_def totalPositive_sum [symmetric] totalNegative_sum [symmetric])
  have 3: "computeLifetimeAnalytics toISODate activities = Inr summary \<longrightarrow>
        l_profitFactor summary = profitFactorOf (l_daily summary)"
    by (auto dest!: computeLifetimeAnalytics_Inr simp: lifetimeSummary_fields)
  from 1 2 3 show ?thesis by blast
qed

text \<open>The theorem at the daily nets \<open>[10, -5, 0]\<close> and \<open>[10, 0]\<close>.\<close>

theorem profit_factor_witness:
  "lossDays [dayOf 1 10, dayOf 2 (- 5), dayOf 3 0] \<noteq> 0
   \<and> profitFactorOf [dayOf 1 10, dayOf 2 (- 5), dayOf 3 0] = Some 2
   \<and> lossDays [dayOf 1 10, dayOf 3 0] = 0
   \<and> profitFactorOf [dayOf 1 10, dayOf 3 0] = None"
  using profit_factor [where daily = "[dayOf 1 10, dayOf 2 (- 5), dayOf 3 0]",
          THEN conjunct2, THEN conjunct1]
        profit_factor [where daily = "[dayOf 1 10, dayOf 3 0]", THEN conjunct1]
  by (simp add: lossDays_def dayOf_def)

subsection \<open>Sharpe ratio\<close>

text \<open>Rounding to the nearest double.\<close>

lemma roundHalfEven_of_int: "roundHalfEven (of_int m) = m"
  by (simp add: roundHalfEven_def)

lemma roundHalfEven_nonneg: "0 \<le> y \<Longrightarrow> 0 \<le> roundHalfEven y"
  by (simp add: roundHalfEven_def Let_def)

lemma roundHalfEven_pos: "1 / 2 < y \<Longrightarrow> 0 < roundHalfEven y"
proof -
  assume a: "1 / 2 < y"
  define f where "f = \<lfloor>y\<rfloor>"
  have f: "0 \<le> f" using a by (simp add: f_def)
  have r: "roundHalfEven y =
      (if y - of_int f < 1 / 2 then f else if 1 / 2 < y - of_int f then f + 1
       else if even f then f else f + 1)"
    by (simp add: roundHalfEven_def Let_def f_def)
  show ?thesis
  proof (cases "f = 0")
    case True
    with a show ?thesis by (simp add: r)
  next
    case False
    with f have "0 < f" by simp
    then show ?thesis by (simp add: r)
  qed
qed

lemma roundHalfEven_eval:
  "of_int f \<le> y \<Longrightarrow> y < of_int f + 1 \<Longrightarrow>
   roundHalfEven y =
     (if y - of_int f < 1 / 2 then f else if 1 / 2 < y - of_int f then f + 1
      else if even f then f else f + 1)"
proof -
  assume "of_int f \<le> y" "y < of_int f + 1"
  then have "\<lfloor>y\<rfloor> = f" by linarith
  then show ?thesis by (simp add: roundHalfEven_def Let_def)
qed

lemma roundToDouble_nonneg: "0 \<le> x \<Longrightarrow> 0 \<le> roundToDouble x"
  by (simp add: roundToDouble_def roundHalfEven_nonneg)

lemma binaryExponent_eq:
  assumes "- 1022 \<le> e" and "2 powi e \<le> \<bar>x\<bar>" and "\<bar>x\<bar> < 2 powi (e + 1)"
  shows "binaryExponent x = e"
proof -
  have pos: "0 < \<bar>x\<bar>"
    using assms(2) zero_less_power_int [of "2::real" e] by linarith
  have "(2::real) powr real_of_int e = 2 powi e" "(2::real) powr (real_of_int e + 1) = 2 powi (e + 1)"
    using powr_real_of_int' [of "2::real" e] powr_real_of_int' [of "2::real" "e + 1"] by simp_all
  with assms have "\<lfloor>log 2 \<bar>x\<bar>\<rfloor> = e"
    using floor_log_eq_powr_iff [of "\<bar>x\<bar>" 2 e] pos by simp
  with assms(1) show ?thesis by (simp add: binaryExponent_def)
qed

lemma binaryExponent_subnormal:
  assumes "x \<noteq> 0" and "\<bar>x\<bar> < 2 powi (- 1022)"
  shows "binaryExponent x = - 1022"
proof -
  have pos: "0 < \<bar>x\<bar>" using assms(1) by simp
  have "\<lfloor>log 2 \<bar>x\<bar>\<rfloor> < - 1022"
  proof (rule ccontr)
    assume "\<not> \<lfloor>log 2 \<bar>x\<bar>\<rfloor> < - 1022"
    then have "- 1022 \<le> \<lfloor>log 2 \<bar>x\<bar>\<rfloor>" by simp
    then have "real_of_int (- 1022) \<le> log 2 \<bar>x\<bar>" by linarith
    then have "2 powr real_of_int (- 1022) \<le> \<bar>x\<bar>"
      using pos by (simp add: le_log_iff)
    moreover have "(2::real) powr real_of_int (- 1022) = 2 powi (- 1022)"
      by (rule powr_real_of_int') simp_all
    ultimately show False using assms(2) by linarith
  qed
  then show ?thesis by (simp add: binaryExponent_def)
qed

lemma binaryExponent_bounds:
  assumes "x \<noteq> 0"
  shows "- 1022 \<le> binaryExponent x" and "\<bar>x\<bar> < 2 powi (binaryExponent x + 1)"
proof -
  show "- 1022 \<le> binaryExponent x" by (simp add: binaryExponent_def)
  have pos: "0 < \<bar>x\<bar>" using assms by simp
  have "\<bar>x\<bar> < 2 powr (real_of_int \<lfloor>log 2 \<bar>x\<bar>\<rfloor> + 1)"
    using floor_log_eq_powr_iff [of "\<bar>x\<bar>" 2 "\<lfloor>log 2 \<bar>x\<bar>\<rfloor>"] pos by simp
  also have "\<dots> = 2 powi (\<lfloor>log 2 \<bar>x\<bar>\<rfloor> + 1)"
    using powr_real_of_int' [of "2::real" "\<lfloor>log 2 \<bar>x\<bar>\<rfloor> + 1"] by simp
  also have "\<dots> \<le> 2 powi (binaryExponent x + 1)"
    by (rule power_int_increasing) (simp_all add: binaryExponent_def)
  finally show "\<bar>x\<bar> < 2 powi (binaryExponent x + 1)" .
qed

lemma roundToDouble_eval:
  assumes "- 1022 \<le> e" and "2 powi e \<le> \<bar>x\<bar>" and "\<bar>x\<bar> < 2 powi (e + 1)"
  shows "roundToDouble x = of_int (roundHalfEven (x / 2 powi (e - 52))) * 2 powi (e - 52)"
proof -
  have "0 < \<bar>x\<bar>" using assms(2) zero_less_power_int [of "2::real" e] by linarith
  then have "x \<noteq> 0" by simp
  then show ?thesis by (simp add: roundToDouble_def binaryExponent_eq [OF assms])
qed

text \<open>A multiple of a power of two with a significand below 2^53 is a double.\<close>

lemma roundToDouble_exact:
  assumes m: "\<bar>m\<bar> < 2 ^ 53" and k: "- 1074 \<le> k"
  shows "roundToDouble (of_int m * 2 powi k) = of_int m * 2 powi k"
proof (cases "m = 0")
  case True
  then show ?thesis by (simp add: roundToDouble_def)
next
  case False
  define x :: real where "x = of_int m * 2 powi k"
  define q where "q = binaryExponent x - 52"
  have x0: "x \<noteq> 0" using False by (simp add: x_def)
  have "\<bar>x\<bar> = of_int \<bar>m\<bar> * 2 powi k" by (simp add: x_def abs_mult)
  also have "\<dots> < 2 ^ 53 * 2 powi k"
    using m by (intro mult_strict_right_mono) simp_all
  also have "\<dots> = 2 powi (k + 53)" by (simp add: power_int_add)
  finally have ub: "\<bar>x\<bar> < 2 powi (k + 53)" .
  have qk: "q \<le> k"
  proof (cases "\<bar>x\<bar> < 2 powi (- 1022)")
    case True
    then have "binaryExponent x = - 1022" using x0 by (intro binaryExponent_subnormal)
    with k show ?thesis by (simp add: q_def)
  next
    case False
    then have ge: "2 powi (- 1022) \<le> \<bar>x\<bar>" by simp
    have pos: "0 < \<bar>x\<bar>" using x0 by simp
    have "2 powr real_of_int \<lfloor>log 2 \<bar>x\<bar>\<rfloor> \<le> \<bar>x\<bar>"
      using floor_log_eq_powr_iff [of "\<bar>x\<bar>" 2 "\<lfloor>log 2 \<bar>x\<bar>\<rfloor>"] pos by simp
    then have "2 powi \<lfloor>log 2 \<bar>x\<bar>\<rfloor> \<le> \<bar>x\<bar>"
      using powr_real_of_int' [of "2::real" "\<lfloor>log 2 \<bar>x\<bar>\<rfloor>"] by simp
    with ub have "(2::real) powi \<lfloor>log 2 \<bar>x\<bar>\<rfloor> < 2 powi (k + 53)" by linarith
    then have "\<lfloor>log 2 \<bar>x\<bar>\<rfloor> < k + 53"
      using power_int_increasing [of "k + 53" "\<lfloor>log 2 \<bar>x\<bar>\<rfloor>" "2::real"] by (cases "\<lfloor>log 2 \<bar>x\<bar>\<rfloor> < k + 53") auto
    with k show ?thesis by (simp add: q_def binaryExponent_def)
  qed
  have "x / 2 powi q = of_int m * 2 powi (k - q)"
    by (simp add: x_def power_int_diff)
  also have "\<dots> = of_int m * 2 ^ nat (k - q)"
    using qk by (simp add: power_int_def)
  also have "\<dots> = of_int (m * 2 ^ nat (k - q))" by simp
  finally have "roundHalfEven (x / 2 powi q) = m * 2 ^ nat (k - q)"
    by (simp only: roundHalfEven_of_int)
  then have "of_int (roundHalfEven (x / 2 powi q)) * 2 powi q
              = of_int m * 2 ^ nat (k - q) * 2 powi q" by simp
  also have "\<dots> = of_int m * ((2::real) powi (k - q) * 2 powi q)"
    using qk by (simp add: power_int_def)
  also have "2 powi (k - q) * 2 powi q = (2::real) powi k"
    by (simp flip: power_int_add)
  finally show ?thesis
    using x0 unfolding x_def [symmetric] q_def by (simp add: roundToDouble_def)
qed

lemma roundToDouble_pos:
  assumes "2 powi (- 1075) < x"
  shows "0 < roundToDouble x"
proof -
  have xp: "0 < x" using assms zero_less_power_int [of "2::real" "- 1075"] by linarith
  define E where "E = binaryExponent x"
  have "1 / 2 < x / 2 powi (E - 52)"
  proof (cases "x < 2 powi (- 1022)")
    case True
    then have "E = - 1022" using xp by (simp add: E_def binaryExponent_subnormal)
    then have "x / 2 powi (E - 52) = x * 2 powi 1074"
      by (simp add: power_int_minus field_simps)
    moreover have "2 powi (- 1075) * 2 powi 1074 < x * 2 powi 1074"
      using assms by (intro mult_strict_right_mono) simp_all
    moreover have "(2::real) powi (- 1075) * 2 powi 1074 = 2 powi (- 1)"
      by (simp flip: power_int_add)
    ultimately show ?thesis by (simp add: power_int_minus)
  next
    case False
    have "\<bar>x\<bar> < 2 powi (E + 1)" using binaryExponent_bounds(2) [of x] xp by (simp add: E_def)
    then have "x < 2 powi (E + 1)" using xp by simp
    have pos: "0 < \<bar>x\<bar>" using xp by simp
    have le: "2 powi \<lfloor>log 2 \<bar>x\<bar>\<rfloor> \<le> \<bar>x\<bar>"
      using floor_log_eq_powr_iff [of "\<bar>x\<bar>" 2 "\<lfloor>log 2 \<bar>x\<bar>\<rfloor>"] pos
        powr_real_of_int' [of "2::real" "\<lfloor>log 2 \<bar>x\<bar>\<rfloor>"] by simp
    have "- 1022 \<le> \<lfloor>log 2 \<bar>x\<bar>\<rfloor>"
    proof (rule ccontr)
      assume "\<not> - 1022 \<le> \<lfloor>log 2 \<bar>x\<bar>\<rfloor>"
      then have "\<lfloor>log 2 \<bar>x\<bar>\<rfloor> + 1 \<le> - 1022" by linarith
      then have "(2::real) powi (\<lfloor>log 2 \<bar>x\<bar>\<rfloor> + 1) \<le> 2 powi (- 1022)"
        by (intro power_int_increasing) simp_all
      moreover have "\<bar>x\<bar> < 2 powi (\<lfloor>log 2 \<bar>x\<bar>\<rfloor> + 1)"
        using floor_log_eq_powr_iff [of "\<bar>x\<bar>" 2 "\<lfloor>log 2 \<bar>x\<bar>\<rfloor>"] pos
          powr_real_of_int' [of "2::real" "\<lfloor>log 2 \<bar>x\<bar>\<rfloor> + 1"] by simp
      ultimately show False using False xp by simp
    qed
    then have "E = \<lfloor>log 2 \<bar>x\<bar>\<rfloor>" by (simp add: E_def binaryExponent_def)
    with le xp have "2 powi E \<le> x" by simp
    then have "2 powi E / 2 powi (E - 52) \<le> x / 2 powi (E - 52)"
      by (intro divide_right_mono) simp_all
    moreover have "(2::real) powi E / 2 powi (E - 52) = 2 powi 52"
      by (simp flip: power_int_diff)
    ultimately have "(2::real) powi 52 \<le> x / 2 powi (E - 52)" by (simp only:)
    moreover have "1 / 2 < (2::real) powi 52" by simp
    ultimately show ?thesis by (rule less_le_trans [rotated])
  qed
  then have "0 < roundHalfEven (x / 2 powi (E - 52))" by (rule roundHalfEven_pos)
  then show ?thesis using xp by (simp add: roundToDouble_def E_def)
qed


lemma roundHalfEven_near:
  assumes "of_int m - 1 / 2 < y" and "y < of_int m + 1 / 2"
  shows "roundHalfEven y = m"
proof (cases "of_int m \<le> y")
  case True
  with assms have "\<lfloor>y\<rfloor> = m" by linarith
  with assms show ?thesis by (simp add: roundHalfEven_def Let_def)
next
  case False
  with assms have f: "\<lfloor>y\<rfloor> = m - 1" by linarith
  have "1 / 2 < y - of_int (m - 1)" using assms by simp
  then show ?thesis by (simp add: roundHalfEven_def Let_def f)
qed

lemma roundHalfEven_tie:
  "roundHalfEven (of_int m + 1 / 2) = (if even m then m else m + 1)"
proof -
  have "\<lfloor>of_int m + 1 / 2 :: real\<rfloor> = m" by linarith
  then show ?thesis by (simp add: roundHalfEven_def Let_def)
qed

lemma roundToDouble_near:
  assumes "- 1022 \<le> e" and "2 powi e \<le> \<bar>x\<bar>" and "\<bar>x\<bar> < 2 powi (e + 1)"
    and "(of_int m - 1 / 2) * 2 powi (e - 52) < x"
    and "x < (of_int m + 1 / 2) * 2 powi (e - 52)"
  shows "roundToDouble x = of_int m * 2 powi (e - 52)"
proof -
  have p: "0 < (2::real) powi (e - 52)" by simp
  have "of_int m - 1 / 2 < x / 2 powi (e - 52)" "x / 2 powi (e - 52) < of_int m + 1 / 2"
    using assms(4,5) p by (simp_all add: pos_less_divide_eq pos_divide_less_eq)
  then have "roundHalfEven (x / 2 powi (e - 52)) = m" by (rule roundHalfEven_near)
  then show ?thesis by (simp add: roundToDouble_eval [OF assms(1-3)])
qed

lemma roundToDouble_tie:
  assumes "- 1022 \<le> e" and "2 powi e \<le> \<bar>x\<bar>" and "\<bar>x\<bar> < 2 powi (e + 1)"
    and "x = (of_int m + 1 / 2) * 2 powi (e - 52)"
  shows "roundToDouble x = of_int (if even m then m else m + 1) * 2 powi (e - 52)"
proof -
  have "x / 2 powi (e - 52) = of_int m + 1 / 2"
    using assms(4) by simp
  then show ?thesis
    by (simp only: roundToDouble_eval [OF assms(1-3)] roundHalfEven_tie)
qed

lemma roundToDouble_sqrt:
  assumes "- 1022 \<le> e" and "1 \<le> m"
    and "(2 powi e)\<^sup>2 \<le> v" and "v < (2 powi (e + 1))\<^sup>2"
    and "((of_int m - 1 / 2) * 2 powi (e - 52))\<^sup>2 < v"
    and "v < ((of_int m + 1 / 2) * 2 powi (e - 52))\<^sup>2"
  shows "roundToDouble (sqrt v) = of_int m * 2 powi (e - 52)"
proof -
  have v: "0 \<le> v" using assms(3) zero_le_power2 [of "2 powi e :: real"] by linarith
  then have s: "0 \<le> sqrt v" by simp
  have 1: "2 powi e \<le> \<bar>sqrt v\<bar>"
    using assms(3) s by (simp add: real_le_rsqrt)
  have 2: "\<bar>sqrt v\<bar> < 2 powi (e + 1)"
    using assms(4) s by (simp add: real_less_lsqrt)
  have 3: "(of_int m - 1 / 2) * 2 powi (e - 52) < sqrt v"
    using assms(5) by (rule real_less_rsqrt)
  have "0 \<le> (real_of_int m + 1 / 2) * 2 powi (e - 52)"
    using assms(2) by simp
  then have 4: "sqrt v < (of_int m + 1 / 2) * 2 powi (e - 52)"
    using assms(6) by (intro real_less_lsqrt)
  from assms(1) 1 2 3 4 show ?thesis by (rule roundToDouble_near)
qed


lemma roundToDouble_subnormal:
  assumes "x \<noteq> 0" and "\<bar>x\<bar> < 2 powi (- 1022)"
  shows "roundToDouble x = of_int (roundHalfEven (x / 2 powi (- 1074))) * 2 powi (- 1074)"
  using assms by (simp add: roundToDouble_def binaryExponent_subnormal)

text \<open>
  Known values: \<open>2 ^ 53 + 1\<close> lies half way between two doubles and goes to the even
  one, \<open>2 ^ 53\<close>, and \<open>2 ^ 53 + 3\<close> goes up to \<open>2 ^ 53 + 4\<close>; one tenth is not a
  double; half the least positive double, \<open>2 ^ - 1074\<close>, goes to 0, and three halves of
  it to twice it.
\<close>

lemma roundToDouble_ties_to_even:
  "roundToDouble (2 ^ 53 + 1) = 2 ^ 53"
  "roundToDouble (2 ^ 53 + 3) = 2 ^ 53 + 4"
  using roundToDouble_tie [of 53 "2 ^ 53 + 1" "2 ^ 52"]
    roundToDouble_tie [of 53 "2 ^ 53 + 3" "2 ^ 52 + 1"]
  by simp_all

lemma roundToDouble_tenth: "roundToDouble (1 / 10) = tenth"
  using roundToDouble_near [of "- 4" "1 / 10" 7205759403792794]
  by (simp add: tenth_def)

lemma roundToDouble_underflow:
  "roundToDouble (2 powi (- 1075)) = 0"
  "roundToDouble (3 * 2 powi (- 1075)) = 2 powi (- 1073)"
proof -
  have a: "(2::real) powi (- 1075) / 2 powi (- 1074) = of_int 0 + 1 / 2"
    "3 * (2::real) powi (- 1075) / 2 powi (- 1074) = of_int 1 + 1 / 2"
    by (simp_all add: power_int_minus field_simps)
  have b: "(2::real) powi (- 1075) < 2 powi (- 1022)"
    "3 * (2::real) powi (- 1075) < 2 powi (- 1022)"
    by (simp_all add: power_int_minus field_simps)
  have "roundToDouble (2 powi (- 1075)) = of_int (roundHalfEven (of_int 0 + 1 / 2)) * 2 powi (- 1074)"
    using roundToDouble_subnormal [of "2 powi (- 1075)"] b(1) by (simp only: a) simp
  then show "roundToDouble (2 powi (- 1075)) = 0"
    by (simp only: roundHalfEven_tie) simp
  have "roundToDouble (3 * 2 powi (- 1075))
          = of_int (roundHalfEven (of_int 1 + 1 / 2)) * 2 powi (- 1074)"
    using roundToDouble_subnormal [of "3 * 2 powi (- 1075)"] b(2) by (simp only: a) simp
  then show "roundToDouble (3 * 2 powi (- 1075)) = 2 powi (- 1073)"
    by (simp only: roundHalfEven_tie) (simp add: power_int_minus)
qed

lemma roundToDouble_zero: "roundToDouble 0 = 0"
  by (simp add: roundToDouble_def)

lemma fold_fl_add:
  "fold (\<lambda>day sum. fl_add sum (f day)) daily acc = foldl fl_add acc (map f daily)"
  by (induction daily arbitrary: acc) simp_all

lemma sharpeRatioOf_eq:
  "sharpeRatioOf daily =
     (if 2 \<le> length daily
      then (if 0 < doubleStdev (map net daily)
            then Some (fl_mul (fl_div (doubleMean (map net daily)) (doubleStdev (map net daily)))
                         (mathSqrt 365))
            else None)
      else None)"
  by (simp add: sharpeRatioOf_def Let_def fold_fl_add doubleStdev_def doubleVariance_def
        doubleMean_def doubleSum_def comp_def)

lemma foldl_fl_add_nonneg:
  "0 \<le> acc \<Longrightarrow> (\<And>x. x \<in> set xs \<Longrightarrow> 0 \<le> x) \<Longrightarrow> 0 \<le> foldl fl_add acc xs"
proof (induction xs arbitrary: acc)
  case Nil
  then show ?case by simp
next
  case (Cons x xs)
  have "0 \<le> fl_add acc x"
    using Cons.prems by (simp add: fl_add_def roundToDouble_nonneg)
  then show ?case using Cons.prems by (simp add: Cons.IH)
qed

lemma doubleVariance_nonneg: "0 \<le> doubleVariance xs"
proof -
  have "0 \<le> doubleSum (map (\<lambda>x. mathPow (fl_sub x (doubleMean xs)) 2) xs)"
    unfolding doubleSum_def
    by (rule foldl_fl_add_nonneg) (auto simp: mathPow_def roundToDouble_nonneg)
  then show ?thesis
    by (simp add: doubleVariance_def fl_div_def roundToDouble_nonneg)
qed

lemma doubleStdev_nonneg: "0 \<le> doubleStdev xs"
  by (simp add: doubleStdev_def mathSqrt_def roundToDouble_nonneg doubleVariance_nonneg)

lemma foldl_fl_add_equal:
  assumes "- 1074 \<le> k"
    and "(int j + int (length xs)) * \<bar>m\<bar> < 2 ^ 53"
    and "\<And>x. x \<in> set xs \<Longrightarrow> x = of_int m * 2 powi k"
  shows "foldl fl_add (of_int (int j * m) * 2 powi k) xs
           = of_int ((int j + int (length xs)) * m) * 2 powi k"
  using assms(2,3)
proof (induction xs arbitrary: j)
  case Nil
  then show ?case by simp
next
  case (Cons x xs)
  have x: "x = of_int m * 2 powi k" using Cons.prems(2) by simp
  have b: "(int (Suc j) + int (length xs)) * \<bar>m\<bar> < 2 ^ 53"
    using Cons.prems(1) by (simp add: algebra_simps)
  have "int (Suc j) * \<bar>m\<bar> \<le> (int (Suc j) + int (length xs)) * \<bar>m\<bar>"
    by (intro mult_right_mono) simp_all
  with b have "\<bar>int (Suc j) * m\<bar> < 2 ^ 53"
    by (simp add: abs_mult)
  then have r: "roundToDouble (of_int (int (Suc j) * m) * 2 powi k)
                  = of_int (int (Suc j) * m) * 2 powi k"
    using assms(1) by (rule roundToDouble_exact)
  have "of_int (int j * m) * 2 powi k + x = (of_int (int (Suc j) * m) * 2 powi k :: real)"
    by (simp add: x algebra_simps)
  then have "fl_add (of_int (int j * m) * 2 powi k) x = of_int (int (Suc j) * m) * 2 powi k"
    by (simp only: fl_add_def r)
  then have "foldl fl_add (of_int (int j * m) * 2 powi k) (x # xs)
               = foldl fl_add (of_int (int (Suc j) * m) * 2 powi k) xs"
    by simp
  also have "\<dots> = of_int ((int (Suc j) + int (length xs)) * m) * 2 powi k"
    using b Cons.prems(2) by (intro Cons.IH) simp_all
  finally show ?case by (simp add: algebra_simps)
qed

lemma foldl_fl_add_zero:
  "(\<And>x. x \<in> set xs \<Longrightarrow> x = 0) \<Longrightarrow> foldl fl_add 0 xs = 0"
proof (induction xs)
  case Nil
  then show ?case by simp
next
  case (Cons x xs)
  have "x = 0" using Cons.prems by simp
  then have "fl_add 0 x = 0" by (simp add: fl_add_def roundToDouble_zero)
  then show ?case using Cons.prems by (simp add: Cons.IH)
qed

lemma equal_nets:
  assumes n: "2 \<le> length xs"
    and eq: "\<And>x. x \<in> set xs \<Longrightarrow> x = of_int m * 2 powi k"
    and k: "- 1074 \<le> k"
    and b: "int (length xs) * \<bar>m\<bar> < 2 ^ 53"
  shows "doubleMean xs = of_int m * 2 powi k" and "doubleStdev xs = 0"
proof -
  have "foldl fl_add (of_int (int 0 * m) * 2 powi k) xs
          = of_int ((int 0 + int (length xs)) * m) * 2 powi k"
    using k b eq by (intro foldl_fl_add_equal) simp_all
  then have s: "doubleSum xs = of_int (int (length xs) * m) * 2 powi k"
    by (simp add: doubleSum_def)
  have "1 * \<bar>m\<bar> \<le> int (length xs) * \<bar>m\<bar>"
    using n by (intro mult_right_mono) simp_all
  with b have "\<bar>m\<bar> < 2 ^ 53" by simp
  then have r: "roundToDouble (of_int m * 2 powi k) = of_int m * 2 powi k"
    using k by (rule roundToDouble_exact)
  have "xs \<noteq> []" using n by auto
  then have "doubleSum xs / real (length xs) = of_int m * 2 powi k"
    by (simp add: s)
  then show mean: "doubleMean xs = of_int m * 2 powi k"
    by (simp only: doubleMean_def fl_div_def r)
  have "doubleSum (map (\<lambda>x. mathPow (fl_sub x (doubleMean xs)) 2) xs) = 0"
    unfolding doubleSum_def
  proof (rule foldl_fl_add_zero)
    fix y
    assume "y \<in> set (map (\<lambda>x. mathPow (fl_sub x (doubleMean xs)) 2) xs)"
    then obtain x where "x \<in> set xs" and y: "y = mathPow (fl_sub x (doubleMean xs)) 2"
      by auto
    then have "x = doubleMean xs" using eq mean by simp
    then show "y = 0"
      by (simp add: y fl_sub_def mathPow_def roundToDouble_zero)
  qed
  then show "doubleStdev xs = 0"
    by (simp add: doubleStdev_def doubleVariance_def fl_div_def mathSqrt_def roundToDouble_zero)
qed


lemma doubleMean_two: "doubleMean [a, b] = fl_div (fl_add (fl_add 0 a) b) 2"
  by (simp add: doubleMean_def doubleSum_def)

lemma doubleMean_three: "doubleMean [a, b, c] = fl_div (fl_add (fl_add (fl_add 0 a) b) c) 3"
  by (simp add: doubleMean_def doubleSum_def)

lemma doubleVariance_two:
  "doubleVariance [a, b] =
     fl_div (fl_add (fl_add 0 (mathPow (fl_sub a (doubleMean [a, b])) 2))
               (mathPow (fl_sub b (doubleMean [a, b])) 2)) 1"
  by (simp add: doubleVariance_def doubleSum_def)

lemma doubleVariance_three:
  "doubleVariance [a, b, c] =
     fl_div (fl_add (fl_add (fl_add 0 (mathPow (fl_sub a (doubleMean [a, b, c])) 2))
                       (mathPow (fl_sub b (doubleMean [a, b, c])) 2))
               (mathPow (fl_sub c (doubleMean [a, b, c])) 2)) 2"
  by (simp add: doubleVariance_def doubleSum_def)

text \<open>
  C7, as the code has it. The Sharpe ratio is null when there are fewer than two active
  days. Otherwise it is computed in double precision: the mean is the rounded sum from
  the left divided by the number of days, the variance the rounded sum of the rounded
  squares of the rounded deviations divided by \<open>n - 1\<close>, the standard deviation its
  rounded square root, each operation rounded to the nearest double. The computed
  variance and standard deviation are never negative; the ratio is null when the
  computed standard deviation is 0, and else the quotient of the computed mean by the
  computed standard deviation, times the double of \<open>sqrt 365\<close>, both operations rounded.
  When the daily nets of two or more days are one number \<open>m * 2 ^ k\<close>, with \<open>m\<close> an
  integer, \<open>k\<close> at least -1074 and \<open>n * \<bar>m\<bar>\<close> below \<open>2 ^ 53\<close>, as they are for
  \<open>[+5, +5]\<close>, the computed mean is that number, the computed standard deviation is 0
  and the ratio is null.
\<close>

theorem sharpe_ratio:
  "(length daily < 2 \<longrightarrow> sharpeRatioOf daily = None)
   \<and> 0 \<le> doubleVariance (map net daily)
   \<and> 0 \<le> doubleStdev (map net daily)
   \<and> (2 \<le> length daily \<and> doubleStdev (map net daily) = 0 \<longrightarrow> sharpeRatioOf daily = None)
   \<and> (2 \<le> length daily \<and> doubleStdev (map net daily) \<noteq> 0 \<longrightarrow>
        sharpeRatioOf daily =
          Some (fl_mul (fl_div (doubleMean (map net daily)) (doubleStdev (map net daily)))
                  (mathSqrt 365)))
   \<and> (2 \<le> length daily \<and> (\<forall>day\<in>set daily. net day = of_int m * 2 powi k)
        \<and> - 1074 \<le> k \<and> int (length daily) * \<bar>m\<bar> < 2 ^ 53 \<longrightarrow>
        doubleMean (map net daily) = of_int m * 2 powi k
        \<and> doubleStdev (map net daily) = 0
        \<and> sharpeRatioOf daily = None)
   \<and> sharpeRatioOf [dayOf 1 5, dayOf 2 5] = None
   \<and> (computeLifetimeAnalytics toISODate activities = Inr summary \<longrightarrow>
        l_sharpeRatio summary = sharpeRatioOf (l_daily summary)
        \<and> l_activeDays summary = length (l_daily summary))"
proof -
  have 1: "length daily < 2 \<longrightarrow> sharpeRatioOf daily = None"
    by (simp add: sharpeRatioOf_eq)
  have 2: "0 \<le> doubleVariance (map net daily)" by (rule doubleVariance_nonneg)
  have 3: "0 \<le> doubleStdev (map net daily)" by (rule doubleStdev_nonneg)
  have 4: "2 \<le> length daily \<and> doubleStdev (map net daily) = 0 \<longrightarrow> sharpeRatioOf daily = None"
    by (simp add: sharpeRatioOf_eq)
  have 5: "2 \<le> length daily \<and> doubleStdev (map net daily) \<noteq> 0 \<longrightarrow>
        sharpeRatioOf daily =
          Some (fl_mul (fl_div (doubleMean (map net daily)) (doubleStdev (map net daily)))
                  (mathSqrt 365))"
    using 3 by (auto simp: sharpeRatioOf_eq)
  have 6: "2 \<le> length daily \<and> (\<forall>day\<in>set daily. net day = of_int m * 2 powi k)
        \<and> - 1074 \<le> k \<and> int (length daily) * \<bar>m\<bar> < 2 ^ 53 \<longrightarrow>
        doubleMean (map net daily) = of_int m * 2 powi k
        \<and> doubleStdev (map net daily) = 0
        \<and> sharpeRatioOf daily = None"
  proof
    assume a: "2 \<le> length daily \<and> (\<forall>day\<in>set daily. net day = of_int m * 2 powi k)
        \<and> - 1074 \<le> k \<and> int (length daily) * \<bar>m\<bar> < 2 ^ 53"
    then have e: "doubleMean (map net daily) = of_int m * 2 powi k"
        "doubleStdev (map net daily) = 0"
      using equal_nets [of "map net daily" m k] by auto
    with a show "doubleMean (map net daily) = of_int m * 2 powi k
        \<and> doubleStdev (map net daily) = 0
        \<and> sharpeRatioOf daily = None"
      by (simp add: sharpeRatioOf_eq)
  qed
  have "doubleStdev (map net [dayOf 1 5, dayOf 2 5]) = 0"
    using equal_nets(2) [of "map net [dayOf 1 5, dayOf 2 5]" 5 0] by (auto simp: dayOf_def)
  then have 7: "sharpeRatioOf [dayOf 1 5, dayOf 2 5] = None"
    by (simp add: sharpeRatioOf_eq)
  have 8: "computeLifetimeAnalytics toISODate activities = Inr summary \<longrightarrow>
        l_sharpeRatio summary = sharpeRatioOf (l_daily summary)
        \<and> l_activeDays summary = length (l_daily summary)"
    by (auto dest!: computeLifetimeAnalytics_Inr simp: lifetimeSummary_fields)
  from 1 2 3 4 5 6 7 8 show ?thesis by (intro conjI)
qed

text \<open>
  The theorem at one day, at the daily nets \<open>[1, 3]\<close>, where the computed standard
  deviation is the double of \<open>sqrt 2\<close> and the ratio the double 27.01851217221259, and at
  \<open>[5, 5]\<close>.
\<close>

theorem sharpe_ratio_witness:
  "length [dayOf 1 7] < 2 \<and> sharpeRatioOf [dayOf 1 7] = None
   \<and> 2 \<le> length [dayOf 1 1, dayOf 2 3]
   \<and> doubleMean (map net [dayOf 1 1, dayOf 2 3]) = 2
   \<and> doubleStdev (map net [dayOf 1 1, dayOf 2 3]) = 6369051672525773 / 2 ^ 52
   \<and> sharpeRatioOf [dayOf 1 1, dayOf 2 3] = Some (3802517542215057 / 2 ^ 47)
   \<and> 2 \<le> length [dayOf 1 5, dayOf 2 5]
   \<and> doubleMean (map net [dayOf 1 5, dayOf 2 5]) = 5
   \<and> doubleStdev (map net [dayOf 1 5, dayOf 2 5]) = 0
   \<and> sharpeRatioOf [dayOf 1 5, dayOf 2 5] = None"
proof -
  have ex: "roundToDouble 1 = 1" "roundToDouble 2 = 2" "roundToDouble 4 = 4"
      "roundToDouble (- 1) = - 1"
    using roundToDouble_exact [of 1 0] roundToDouble_exact [of 2 0] roundToDouble_exact [of 4 0]
      roundToDouble_exact [of "- 1" 0]
    by simp_all
  have u: "fl_add 0 1 = 1" "fl_add 1 3 = 4" "fl_div 4 2 = 2" "fl_sub 1 2 = - 1"
      "mathPow (- 1) 2 = 1" "fl_sub 3 2 = 1" "mathPow 1 2 = 1" "fl_add 1 1 = 2"
      "fl_div 2 1 = 2"
    by (simp_all add: fl_add_def fl_sub_def fl_div_def mathPow_def ex)
  have xs: "map net [dayOf 1 1, dayOf 2 3] = [1, 3]"
    by (simp add: dayOf_def)
  have m: "doubleMean (map net [dayOf 1 1, dayOf 2 3]) = 2"
    by (simp only: xs doubleMean_two u)
  have v: "doubleVariance (map net [dayOf 1 1, dayOf 2 3]) = 2"
    using m by (simp only: xs doubleVariance_two u)
  have r2: "mathSqrt 2 = 6369051672525773 / 2 ^ 52"
    using roundToDouble_sqrt [of 0 6369051672525773 2]
    by (simp add: mathSqrt_def power2_eq_square)
  have s: "doubleStdev (map net [dayOf 1 1, dayOf 2 3]) = 6369051672525773 / 2 ^ 52"
    by (simp only: doubleStdev_def v r2)
  have q: "fl_div 2 (6369051672525773 / 2 ^ 52) = 1592262918131443 / 2 ^ 50"
    using roundToDouble_near [of 0 "2 / (6369051672525773 / 2 ^ 52)" 6369051672525772]
    by (simp add: fl_div_def)
  have r365: "mathSqrt 365 = 2688785939681071 / 2 ^ 47"
    using roundToDouble_sqrt [of 4 5377571879362142 365]
    by (simp add: mathSqrt_def power2_eq_square)
  have p: "fl_mul (1592262918131443 / 2 ^ 50) (2688785939681071 / 2 ^ 47)
             = 3802517542215057 / 2 ^ 47"
    using roundToDouble_near [of 4 "1592262918131443 / 2 ^ 50 * (2688785939681071 / 2 ^ 47)"
        7605035084430114]
    by (simp add: fl_mul_def)
  have nz: "doubleStdev (map net [dayOf 1 1, dayOf 2 3]) \<noteq> 0"
    unfolding s by simp
  have l: "length [dayOf 1 7] < 2" "2 \<le> length [dayOf 1 1, dayOf 2 3]"
      "2 \<le> length [dayOf 1 5, dayOf 2 5]"
    by simp_all
  have a: "sharpeRatioOf [dayOf 1 7] = None"
    using sharpe_ratio [where daily = "[dayOf 1 7]", THEN conjunct1] by simp
  have "sharpeRatioOf [dayOf 1 1, dayOf 2 3] =
          Some (fl_mul (fl_div (doubleMean (map net [dayOf 1 1, dayOf 2 3]))
                          (doubleStdev (map net [dayOf 1 1, dayOf 2 3]))) (mathSqrt 365))"
    using sharpe_ratio [where daily = "[dayOf 1 1, dayOf 2 3]", THEN conjunct2, THEN conjunct2,
      THEN conjunct2, THEN conjunct2, THEN conjunct1] l(2) nz
    by blast
  then have b: "sharpeRatioOf [dayOf 1 1, dayOf 2 3] = Some (3802517542215057 / 2 ^ 47)"
    by (simp only: m s q r365 p)
  have c: "doubleMean (map net [dayOf 1 5, dayOf 2 5]) = 5
      \<and> doubleStdev (map net [dayOf 1 5, dayOf 2 5]) = 0
      \<and> sharpeRatioOf [dayOf 1 5, dayOf 2 5] = None"
    using sharpe_ratio [where daily = "[dayOf 1 5, dayOf 2 5]" and m = 5 and k = 0,
      THEN conjunct2, THEN conjunct2, THEN conjunct2, THEN conjunct2, THEN conjunct2,
      THEN conjunct1]
    by (simp add: dayOf_def)
  from l a m s b c show ?thesis by (intro conjI) simp_all
qed

text \<open>
  C7 as stated fails where rounding separates the computed standard deviation from the
  exact one. Three days of net 0.1, the double nearest to one tenth: the sample standard
  deviation is 0, the computed mean exceeds 0.1 by one unit in the last place, the
  computed standard deviation is about \<open>1.7e-17\<close>, and the ratio is not null but
  \<open>112403687761722272\<close>.
\<close>

theorem sharpe_rounding_counterexample:
  "roundToDouble (1 / 10) = tenth
   \<and> sampleStdev (map net tenthDays) = 0
   \<and> doubleMean (map net tenthDays) = 7205759403792795 / 2 ^ 56
   \<and> doubleStdev (map net tenthDays) = 2757880273211543 / 2 ^ 107
   \<and> sharpeRatioOf tenthDays = Some 112403687761722272"
proof -
  have n: "roundToDouble (1 / 10) = tenth"
    using roundToDouble_near [of "- 4" "1 / 10" 7205759403792794]
    by (simp add: tenth_def)
  have z: "sampleStdev (map net tenthDays) = 0"
    by (simp add: sampleStdev_def sampleMean_def tenthDays_def dayOf_def)
  have t1: "fl_add 0 tenth = tenth"
    using roundToDouble_exact [of 3602879701896397 "- 55"]
    by (simp add: tenth_def fl_add_def)
  have t2: "fl_add tenth tenth = 3602879701896397 / 2 ^ 54"
    using roundToDouble_exact [of 3602879701896397 "- 54"]
    by (simp add: tenth_def fl_add_def)
  have t3: "fl_add (3602879701896397 / 2 ^ 54) tenth = 1351079888211149 / 2 ^ 52"
    using roundToDouble_tie [of "- 2" "3602879701896397 / 2 ^ 54 + tenth" 5404319552844595]
    by (simp add: tenth_def fl_add_def)
  have t4: "fl_div (1351079888211149 / 2 ^ 52) 3 = 7205759403792795 / 2 ^ 56"
    using roundToDouble_near [of "- 4" "1351079888211149 / 2 ^ 52 / 3" 7205759403792795]
    by (simp add: fl_div_def)
  have t5: "fl_sub tenth (7205759403792795 / 2 ^ 56) = - (1 / 2 ^ 56)"
    using roundToDouble_exact [of "- 1" "- 56"]
    by (simp add: tenth_def fl_sub_def)
  have t6: "mathPow (- (1 / 2 ^ 56)) 2 = 1 / 2 ^ 112"
    using roundToDouble_exact [of 1 "- 112"]
    by (simp add: mathPow_def power2_eq_square)
  have t7: "fl_add 0 (1 / 2 ^ 112) = 1 / 2 ^ 112"
    using roundToDouble_exact [of 1 "- 112"]
    by (simp add: fl_add_def)
  have t8: "fl_add (1 / 2 ^ 112) (1 / 2 ^ 112) = 1 / 2 ^ 111"
    using roundToDouble_exact [of 1 "- 111"]
    by (simp add: fl_add_def)
  have t9: "fl_add (1 / 2 ^ 111) (1 / 2 ^ 112) = 3 / 2 ^ 112"
    using roundToDouble_exact [of 3 "- 112"]
    by (simp add: fl_add_def)
  have t10: "fl_div (3 / 2 ^ 112) 2 = 3 / 2 ^ 113"
    using roundToDouble_exact [of 3 "- 113"]
    by (simp add: fl_div_def)
  have t11: "mathSqrt (3 / 2 ^ 113) = 2757880273211543 / 2 ^ 107"
    using roundToDouble_sqrt [of "- 56" 5515760546423086 "3 / 2 ^ 113"]
    by (simp add: mathSqrt_def power2_eq_square)
  have t12: "fl_div (7205759403792795 / 2 ^ 56) (2757880273211543 / 2 ^ 107) = 5883477916184627"
    using roundToDouble_near [of 52 "7205759403792795 / 2 ^ 56 / (2757880273211543 / 2 ^ 107)"
        5883477916184627]
    by (simp add: fl_div_def)
  have t13: "mathSqrt 365 = 2688785939681071 / 2 ^ 47"
    using roundToDouble_sqrt [of 4 5377571879362142 365]
    by (simp add: mathSqrt_def power2_eq_square)
  have t14: "fl_mul 5883477916184627 (2688785939681071 / 2 ^ 47) = 112403687761722272"
    using roundToDouble_near [of 56 "5883477916184627 * (2688785939681071 / 2 ^ 47)"
        7025230485107642]
    by (simp add: fl_mul_def)
  have xs: "map net tenthDays = [tenth, tenth, tenth]"
    by (simp add: tenthDays_def dayOf_def)
  have m: "doubleMean (map net tenthDays) = 7205759403792795 / 2 ^ 56"
    by (simp only: xs doubleMean_three t1 t2 t3 t4)
  have v: "doubleVariance (map net tenthDays) = 3 / 2 ^ 113"
    using m by (simp only: xs doubleVariance_three t5 t6 t7 t8 t9 t10)
  have s: "doubleStdev (map net tenthDays) = 2757880273211543 / 2 ^ 107"
    by (simp only: doubleStdev_def v t11)
  have "0 < doubleStdev (map net tenthDays)"
    unfolding s by simp
  moreover have "2 \<le> length tenthDays"
    by (simp add: tenthDays_def)
  ultimately have "sharpeRatioOf tenthDays =
      Some (fl_mul (fl_div (doubleMean (map net tenthDays)) (doubleStdev (map net tenthDays)))
              (mathSqrt 365))"
    by (simp add: sharpeRatioOf_eq)
  then have r: "sharpeRatioOf tenthDays = Some 112403687761722272"
    by (simp only: m s t12 t13 t14)
  from n z m s r show ?thesis by (intro conjI)
qed

subsection \<open>Maximum drawdown\<close>

lemma length_runningSums [simp]: "length (runningSums c xs) = length xs"
  by (induction xs arbitrary: c) simp_all

lemma length_runningMax [simp]: "length (runningMax p cs) = length cs"
  by (induction cs arbitrary: p) simp_all

lemma Max_insert_max:
  "finite S \<Longrightarrow> Max (insert (max a b) S) = Max (insert (a::real) (insert b S))"
  by (cases "S = {}") (simp_all add: max.assoc)

lemma fold_drawdownStep:
  "fold drawdownStep ds (c, p, m) = (c', p', m') \<Longrightarrow>
   m' = Max (insert m (set (map2 (-) (runningMax p (runningSums c (map net ds)))
                                      (runningSums c (map net ds)))))"
proof (induction ds arbitrary: c p m)
  case Nil
  then show ?case by simp
next
  case (Cons d ds)
  define c1 where "c1 = c + net d"
  define p1 where "p1 = max p c1"
  define S where "S = set (map2 (-) (runningMax p1 (runningSums c1 (map net ds)))
                                    (runningSums c1 (map net ds)))"
  have step: "drawdownStep d (c, p, m) = (c1, p1, max m (p1 - c1))"
    by (simp add: drawdownStep_def Let_def max_def c1_def p1_def)
  from Cons.prems have "fold drawdownStep ds (c1, p1, max m (p1 - c1)) = (c', p', m')"
    by (simp add: step)
  from Cons.IH [OF this] have "m' = Max (insert (max m (p1 - c1)) S)"
    by (simp only: S_def)
  also have "\<dots> = Max (insert m (insert (p1 - c1) S))"
    by (rule Max_insert_max) (simp add: S_def)
  also have "insert (p1 - c1) S =
     set (map2 (-) (runningMax p (runningSums c (map net (d # ds))))
                   (runningSums c (map net (d # ds))))"
    by (simp add: S_def c1_def p1_def)
  finally show ?case .
qed

lemma runningMax_ge: "i < length cs \<Longrightarrow> cs ! i \<le> runningMax p cs ! i"
proof (induction cs arbitrary: p i)
  case Nil
  then show ?case by simp
next
  case (Cons c cs)
  then show ?case by (cases i) simp_all
qed

lemma drawdowns_nonneg: "x \<in> set (drawdowns daily) \<Longrightarrow> 0 \<le> x"
proof -
  assume "x \<in> set (drawdowns daily)"
  then obtain i where i: "i < length (cumulativeNet daily)"
    and x: "x = runningPeak daily ! i - cumulativeNet daily ! i"
    by (auto simp: drawdowns_def runningPeak_def in_set_conv_nth)
  from runningMax_ge [OF i, of 0] x show ?thesis by (simp add: runningPeak_def)
qed

lemma drawdowns_nonempty: "daily \<noteq> [] \<Longrightarrow> drawdowns daily \<noteq> []"
  by (cases daily) (simp_all add: drawdowns_def runningPeak_def cumulativeNet_def)

lemma maxDrawdownValue_eq:
  "maxDrawdownValue daily = (if daily = [] then None else Some (Max (set (drawdowns daily))))"
proof (cases "daily = []")
  case True
  then show ?thesis by (simp add: maxDrawdownValue_def)
next
  case False
  obtain c p m where r: "fold drawdownStep daily (0, 0, 0) = (c, p, m)"
    by (cases "fold drawdownStep daily (0, 0, 0)") auto
  from fold_drawdownStep [OF r]
  have m: "m = Max (insert 0 (set (drawdowns daily)))"
    by (simp add: drawdowns_def runningPeak_def cumulativeNet_def)
  have ne: "set (drawdowns daily) \<noteq> {}" using drawdowns_nonempty [OF False] by simp
  have "Max (set (drawdowns daily)) \<in> set (drawdowns daily)"
    using ne by (intro Max_in) simp_all
  then have "0 \<le> Max (set (drawdowns daily))" by (rule drawdowns_nonneg)
  with ne m have "m = Max (set (drawdowns daily))" by (simp add: max_def)
  with False r show ?thesis by (simp add: maxDrawdownValue_def)
qed

lemma runningMax_sorted: "sorted (p # cs) \<Longrightarrow> runningMax p cs = cs"
proof (induction cs arbitrary: p)
  case Nil
  then show ?case by simp
next
  case (Cons c cs)
  from Cons.prems have pc: "p \<le> c" and s: "sorted (c # cs)" by simp_all
  from pc have "max p c = c" by (simp add: max_def)
  with Cons.IH [OF s] show ?case by simp
qed

lemma map2_minus_self: "set (map2 (-) cs cs) \<subseteq> {0::real}"
  by (induction cs) auto

text \<open>
  C4, as the code has it. With at least one active day, the maximum drawdown is the
  maximum over the days of the running peak minus the cumulative daily net, where the
  running peak starts from 0, the cumulative net before the first day; it is never
  negative, and it is 0 when the cumulative daily net, taken from that 0 on, never
  decreases. With no active day it is null.
\<close>

theorem max_drawdown:
  "maxDrawdownValue daily = (if daily = [] then None else Some (Max (set (drawdowns daily))))
   \<and> (\<forall>d. maxDrawdownValue daily = Some d \<longrightarrow> 0 \<le> d)
   \<and> (daily \<noteq> [] \<and> sorted (0 # cumulativeNet daily) \<longrightarrow> maxDrawdownValue daily = Some 0)
   \<and> (computeLifetimeAnalytics toISODate activities = Inr summary \<longrightarrow>
        l_maxDrawdown summary = maxDrawdownValue (l_daily summary)
        \<and> l_activeDays summary = length (l_daily summary))"
proof -
  note 1 = maxDrawdownValue_eq [of daily]
  have 2: "\<forall>d. maxDrawdownValue daily = Some d \<longrightarrow> 0 \<le> d"
  proof (intro allI impI)
    fix d assume "maxDrawdownValue daily = Some d"
    with 1 have ne: "daily \<noteq> []" and d: "d = Max (set (drawdowns daily))"
      by (auto split: if_splits)
    from drawdowns_nonempty [OF ne] have "d \<in> set (drawdowns daily)"
      unfolding d by (intro Max_in) simp_all
    then show "0 \<le> d" by (rule drawdowns_nonneg)
  qed
  have 3: "daily \<noteq> [] \<and> sorted (0 # cumulativeNet daily) \<longrightarrow> maxDrawdownValue daily = Some 0"
  proof
    assume a: "daily \<noteq> [] \<and> sorted (0 # cumulativeNet daily)"
    then have "runningPeak daily = cumulativeNet daily"
      by (simp only: runningPeak_def runningMax_sorted)
    then have "drawdowns daily = map2 (-) (cumulativeNet daily) (cumulativeNet daily)"
      by (simp only: drawdowns_def)
    then have "set (drawdowns daily) \<subseteq> {0}"
      by (simp only: map2_minus_self)
    moreover from a have "set (drawdowns daily) \<noteq> {}"
      using drawdowns_nonempty [of daily] by simp
    ultimately have "set (drawdowns daily) = {0}" by (auto dest: subset_singletonD)
    with a 1 show "maxDrawdownValue daily = Some 0" by simp
  qed
  have 4: "computeLifetimeAnalytics toISODate activities = Inr summary \<longrightarrow>
        l_maxDrawdown summary = maxDrawdownValue (l_daily summary)
        \<and> l_activeDays summary = length (l_daily summary)"
    by (auto dest!: computeLifetimeAnalytics_Inr simp: lifetimeSummary_fields)
  from 1 2 3 4 show ?thesis by blast
qed

lemmas dd_defs = drawdowns_def runningPeak_def cumulativeNet_def dayOf_def specMaxDrawdown_def
  specRunningPeak_def

text \<open>The theorem at scenario D, and at the daily nets \<open>[2, 0, 1]\<close>.\<close>

theorem max_drawdown_witness:
  "cumulativeNet scenarioD = [10, 5, 8, - 4, 0]
   \<and> runningPeak scenarioD = [10, 10, 10, 10, 10]
   \<and> drawdowns scenarioD = [0, 5, 2, 14, 10]
   \<and> maxDrawdownValue scenarioD = Some 14
   \<and> [dayOf 1 2, dayOf 2 0, dayOf 3 1] \<noteq> []
   \<and> sorted (0 # cumulativeNet [dayOf 1 2, dayOf 2 0, dayOf 3 1])
   \<and> maxDrawdownValue [dayOf 1 2, dayOf 2 0, dayOf 3 1] = Some 0"
  using max_drawdown [where daily = scenarioD, THEN conjunct1]
    max_drawdown [where daily = "[dayOf 1 2, dayOf 2 0, dayOf 3 1]", THEN conjunct2,
      THEN conjunct2, THEN conjunct1]
  by (simp add: scenarioD_def dd_defs)

text \<open>
  C4 as stated fails twice. With no activity there is no active day and the maximum
  drawdown is null, not 0. With the daily nets \<open>[-5, +1]\<close> the cumulative daily net
  \<open>[-5, -4]\<close> never decreases and the maximum over the days of its running peak minus
  its value is 0, yet the code returns 5, the fall from the initial 0.
\<close>

theorem max_drawdown_counterexample:
  "map_sum id l_activeDays (computeLifetimeAnalytics utcDay []) = Inr 0
   \<and> map_sum id l_maxDrawdown (computeLifetimeAnalytics utcDay []) = Inr None
   \<and> map_sum id l_maxDrawdown (computeLifetimeAnalytics utcDay []) \<noteq> Inr (Some 0)
   \<and> cumulativeNet [dayOf 1 (- 5), dayOf 2 1] = [- 5, - 4]
   \<and> sorted (cumulativeNet [dayOf 1 (- 5), dayOf 2 1])
   \<and> specMaxDrawdown [dayOf 1 (- 5), dayOf 2 1] = 0
   \<and> maxDrawdownValue [dayOf 1 (- 5), dayOf 2 1] = Some 5"
  by (simp add: computeLifetimeAnalytics_def lifetimeSummary_def sortActivities_def
        maxDrawdownValue_def drawdownStep_def dd_defs)

section \<open>Signed delta of an activity\<close>

lemmas delta_defs = getActivityNetDelta_def getActivityAmount_def nullish_def parseNumber_def
  normalizeActivityType_def toUpperCase_def toUpperCase_char_def upperLetters_def lowerLetters_def
  normalizeSide_def toLowerCase_def toLowerCase_char_def
  isIgnoredActivityType_def isPositiveActivityType_def isNegativeActivityType_def
  ACTIVITY_POSITIVE_TYPES_def ACTIVITY_NEGATIVE_TYPES_def ACTIVITY_IGNORE_TYPES_def
  includes_str_def sublist_code(3) exampleActivity_def Let_def

lemmas word_defs = matchesAny_def positiveWords_def negativeWords_def ignoreWords_def
  includes_str_def sublist_code(3)

lemma isIgnored_words: "isIgnoredActivityType ty \<longleftrightarrow> matchesAny ty ignoreWords"
  by (auto simp: isIgnoredActivityType_def ACTIVITY_IGNORE_TYPES_def matchesAny_def
        ignoreWords_def includes_str_def sublist_code(3))

lemma isPositive_words:
  "isPositiveActivityType ty \<longleftrightarrow> matchesAny ty positiveWords \<or> ty = ''REFUND''"
  by (auto simp: isPositiveActivityType_def ACTIVITY_POSITIVE_TYPES_def matchesAny_def
        positiveWords_def includes_str_def sublist_code(3))

lemma isNegative_words: "isNegativeActivityType ty \<longleftrightarrow> matchesAny ty negativeWords"
  by (auto simp: isNegativeActivityType_def ACTIVITY_NEGATIVE_TYPES_def matchesAny_def
        negativeWords_def includes_str_def sublist_code(3))

text \<open>
  C9, as the code has it. A zero amount gives 0 and a negative amount is used as it is.
  Otherwise an event with a side, a trade or not, gets minus the amount for a buy and
  plus the amount for a sell. Otherwise, for an event without a side: a trade gives 0; a
  type containing TRANSFER, DEPOSIT, WITHDRAW or BRIDGE gives 0, whatever else it
  contains; else a type containing REDEEM, SETTLE, CLAIM, PAYOUT, REWARD, REBATE or
  CREDIT, and the type REFUND itself, is positive; else, among the types that do not
  contain REFUND, a type containing FEE, PENALTY or DEBIT is negative and every other
  type gives 0. Nothing is stated here of a type that contains REFUND without being
  REFUND and contains none of the words that give 0 or a positive delta.
\<close>

theorem activity_net_delta:
  assumes "amt = getActivityAmount a" and "ty = normalizeActivityType (a_type a)"
  shows "(amt < 0 \<longrightarrow> getActivityNetDelta a = amt)
   \<and> (amt = 0 \<longrightarrow> getActivityNetDelta a = 0)
   \<and> (0 < amt \<and> a_side a \<noteq> None \<longrightarrow>
        getActivityNetDelta a = (if normalizeSide (a_side a) = Buy then - amt else amt))
   \<and> (0 < amt \<and> a_side a = None \<and> (ty = ''TRADE'' \<or> matchesAny ty ignoreWords) \<longrightarrow>
        getActivityNetDelta a = 0)
   \<and> (0 < amt \<and> a_side a = None \<and> ty \<noteq> ''TRADE'' \<and> \<not> matchesAny ty ignoreWords
        \<and> (matchesAny ty positiveWords \<or> ty = ''REFUND'') \<longrightarrow>
        getActivityNetDelta a = amt)
   \<and> (0 < amt \<and> a_side a = None \<and> ty \<noteq> ''TRADE'' \<and> \<not> matchesAny ty ignoreWords
        \<and> \<not> matchesAny ty positiveWords \<and> \<not> includes_str ty ''REFUND''
        \<and> matchesAny ty negativeWords \<longrightarrow>
        getActivityNetDelta a = - amt)
   \<and> (0 < amt \<and> a_side a = None \<and> \<not> matchesAny ty ignoreWords
        \<and> \<not> matchesAny ty positiveWords \<and> \<not> includes_str ty ''REFUND''
        \<and> \<not> matchesAny ty negativeWords \<longrightarrow>
        getActivityNetDelta a = 0)"
proof -
  have refund: "\<not> includes_str ty ''REFUND'' \<Longrightarrow> ty \<noteq> ''REFUND''"
    by (auto simp: includes_str_def)
  show ?thesis
    using assms refund
    by (auto simp: getActivityNetDelta_def Let_def isIgnored_words isPositive_words
          isNegative_words split: option.splits)
qed

text \<open>The theorem at one activity for each case.\<close>

theorem activity_net_delta_witness:
  "getActivityAmount (exampleActivity ''fee'' None (- 3) 1) < 0
   \<and> getActivityNetDelta (exampleActivity ''fee'' None (- 3) 1) = - 3
   \<and> 0 < getActivityAmount (exampleActivity ''TRADE'' (Some ''SELL'') 5 1)
   \<and> a_side (exampleActivity ''TRADE'' (Some ''SELL'') 5 1) \<noteq> None
   \<and> getActivityNetDelta (exampleActivity ''TRADE'' (Some ''SELL'') 5 1) = 5
   \<and> matchesAny (normalizeActivityType (a_type (exampleActivity ''deposit'' None 5 1))) ignoreWords
   \<and> getActivityNetDelta (exampleActivity ''deposit'' None 5 1) = 0
   \<and> matchesAny (normalizeActivityType (a_type (exampleActivity ''Redeem'' None 5 1))) positiveWords
   \<and> getActivityNetDelta (exampleActivity ''Redeem'' None 5 1) = 5
   \<and> matchesAny (normalizeActivityType (a_type (exampleActivity ''TAKER_FEE'' None 5 1))) negativeWords
   \<and> getActivityNetDelta (exampleActivity ''TAKER_FEE'' None 5 1) = - 5
   \<and> getActivityNetDelta (exampleActivity ''AIRDROP'' None 5 1) = 0"
proof -
  have 1: "getActivityAmount (exampleActivity ''fee'' None (- 3) 1) < 0
     \<and> getActivityNetDelta (exampleActivity ''fee'' None (- 3) 1) = - 3"
    using activity_net_delta [OF refl refl, of "exampleActivity ''fee'' None (- 3) 1"]
    by (simp add: getActivityAmount_def nullish_def parseNumber_def exampleActivity_def)
  have 2: "0 < getActivityAmount (exampleActivity ''TRADE'' (Some ''SELL'') 5 1)
     \<and> a_side (exampleActivity ''TRADE'' (Some ''SELL'') 5 1) \<noteq> None
     \<and> getActivityNetDelta (exampleActivity ''TRADE'' (Some ''SELL'') 5 1) = 5"
    using activity_net_delta [OF refl refl, of "exampleActivity ''TRADE'' (Some ''SELL'') 5 1"]
    by (simp add: getActivityAmount_def nullish_def parseNumber_def exampleActivity_def
          normalizeSide_def toLowerCase_def toLowerCase_char_def upperLetters_def
          lowerLetters_def)
  have a: "getActivityAmount (exampleActivity ty None 5 1) = 5"
      "a_side (exampleActivity ty None 5 1) = None" for ty
    by (simp_all add: getActivityAmount_def nullish_def parseNumber_def exampleActivity_def)
  have t: "normalizeActivityType (a_type (exampleActivity ''deposit'' None 5 1)) = ''DEPOSIT''"
      "normalizeActivityType (a_type (exampleActivity ''Redeem'' None 5 1)) = ''REDEEM''"
      "normalizeActivityType (a_type (exampleActivity ''TAKER_FEE'' None 5 1)) = ''TAKER_FEE''"
      "normalizeActivityType (a_type (exampleActivity ''AIRDROP'' None 5 1)) = ''AIRDROP''"
    by (simp_all add: normalizeActivityType_def toUpperCase_def toUpperCase_char_def
          upperLetters_def lowerLetters_def exampleActivity_def)
  have 3: "matchesAny ''DEPOSIT'' ignoreWords"
    by (simp add: word_defs)
  have 4: "\<not> matchesAny ''REDEEM'' ignoreWords" "matchesAny ''REDEEM'' positiveWords"
    by (simp_all add: word_defs)
  have 5: "\<not> matchesAny ''TAKER_FEE'' ignoreWords" "\<not> matchesAny ''TAKER_FEE'' positiveWords"
      "\<not> includes_str ''TAKER_FEE'' ''REFUND''" "matchesAny ''TAKER_FEE'' negativeWords"
    by (simp_all add: word_defs)
  have 6: "\<not> matchesAny ''AIRDROP'' ignoreWords" "\<not> matchesAny ''AIRDROP'' positiveWords"
      "\<not> includes_str ''AIRDROP'' ''REFUND''" "\<not> matchesAny ''AIRDROP'' negativeWords"
    by (simp_all add: word_defs)
  have 7: "getActivityNetDelta (exampleActivity ''deposit'' None 5 1) = 0"
    using activity_net_delta [OF refl refl, of "exampleActivity ''deposit'' None 5 1"] 3
    by (simp add: a t)
  have 8: "getActivityNetDelta (exampleActivity ''Redeem'' None 5 1) = 5"
    using activity_net_delta [OF refl refl, of "exampleActivity ''Redeem'' None 5 1"] 4
    by (simp add: a t)
  have 9: "getActivityNetDelta (exampleActivity ''TAKER_FEE'' None 5 1) = - 5"
    using activity_net_delta [OF refl refl, of "exampleActivity ''TAKER_FEE'' None 5 1"] 5
    by (simp add: a t)
  have 10: "getActivityNetDelta (exampleActivity ''AIRDROP'' None 5 1) = 0"
    using activity_net_delta [OF refl refl, of "exampleActivity ''AIRDROP'' None 5 1"] 6
    by (simp add: a t)
  from 1 2 3 4 5 7 8 9 10 show ?thesis by (simp add: t)
qed

text \<open>
  C9 as stated fails where a type matches two classes: \<open>DEPOSIT_REWARD\<close> contains
  REWARD and yields 0, not the amount; \<open>TRANSFER_FEE\<close> contains FEE and yields 0, not
  minus the amount. The ignored types are tested first.
\<close>

theorem positive_type_counterexample:
  "getActivityAmount (exampleActivity ''DEPOSIT_REWARD'' None 5 1) = 5
   \<and> a_side (exampleActivity ''DEPOSIT_REWARD'' None 5 1) = None
   \<and> normalizeActivityType (a_type (exampleActivity ''DEPOSIT_REWARD'' None 5 1)) = ''DEPOSIT_REWARD''
   \<and> includes_str ''DEPOSIT_REWARD'' ''REWARD''
   \<and> getActivityNetDelta (exampleActivity ''DEPOSIT_REWARD'' None 5 1) = 0
   \<and> getActivityNetDelta (exampleActivity ''DEPOSIT_REWARD'' None 5 1) \<noteq> 5
   \<and> includes_str ''TRANSFER_FEE'' ''FEE''
   \<and> getActivityNetDelta (exampleActivity ''TRANSFER_FEE'' None 5 1) = 0
   \<and> getActivityNetDelta (exampleActivity ''TRANSFER_FEE'' None 5 1) \<noteq> - 5"
  by (simp add: delta_defs)

section \<open>Events without a positive timestamp\<close>

lemma sum_list_insort_key:
  "sum_list (map g (insort_key k x xs)) = (g x :: real) + sum_list (map g xs)"
  by (induction xs) simp_all

lemma sum_list_sort_key: "sum_list (map g (sort_key k xs)) = (sum_list (map g xs) :: real)"
  by (induction xs) (simp_all add: sum_list_insort_key)

lemma deltaSum_if:
  "deltaSum P acts = sum_list (map (\<lambda>a. if P a then getActivityNetDelta a else 0) acts)"
  by (simp add: deltaSum_def sum_list_if_filter)

lemma deltaSum_sort: "deltaSum P (sort_key k acts) = deltaSum P acts"
  by (simp add: deltaSum_if sum_list_sort_key)

lemma bucketAdd_net: "sum_list (map net (bucketAdd dt delta es)) = sum_list (map net es) + delta"
  by (induction es) (simp_all add: bucketUpdate_def)

lemma bucketAdd_events:
  "sum_list (map events (bucketAdd dt delta es)) = sum_list (map events es) + 1"
  by (induction es) (simp_all add: bucketUpdate_def)

lemma lifetimeStep_effect:
  assumes "lifetimeStep f a acc = Inr acc'"
  shows "acc_netPnl acc' = acc_netPnl acc + getActivityNetDelta a"
    and "acc_totalProfit acc' =
      acc_totalProfit acc + (if 0 < getActivityNetDelta a then getActivityNetDelta a else 0)"
    and "acc_totalLoss acc' =
      acc_totalLoss acc - (if getActivityNetDelta a < 0 then getActivityNetDelta a else 0)"
    and "sum_list (map net (dailyMap acc')) =
      sum_list (map net (dailyMap acc))
      + (if 0 < activityTimestamp a then getActivityNetDelta a else 0)"
    and "sum_list (map events (dailyMap acc')) =
      sum_list (map events (dailyMap acc))
      + (if getActivityNetDelta a \<noteq> 0 \<and> 0 < activityTimestamp a then 1 else 0)"
  using assms
  by (auto simp: lifetimeStep_def Let_def bucketAdd_net bucketAdd_events activityTimestamp_def
        split: if_splits sum.splits)

lemma lifetimeLoop_effect:
  "lifetimeLoop f acc acts = Inr acc' \<Longrightarrow>
   acc_netPnl acc' = acc_netPnl acc + deltaSum (\<lambda>a. True) acts
   \<and> acc_totalProfit acc' = acc_totalProfit acc + deltaSum (\<lambda>a. 0 < getActivityNetDelta a) acts
   \<and> acc_totalLoss acc' = acc_totalLoss acc - deltaSum (\<lambda>a. getActivityNetDelta a < 0) acts
   \<and> sum_list (map net (dailyMap acc')) =
       sum_list (map net (dailyMap acc)) + deltaSum (\<lambda>a. 0 < activityTimestamp a) acts
   \<and> sum_list (map events (dailyMap acc')) =
       sum_list (map events (dailyMap acc))
       + length (filter (\<lambda>a. getActivityNetDelta a \<noteq> 0 \<and> 0 < activityTimestamp a) acts)"
proof (induction acts arbitrary: acc)
  case Nil
  then show ?case by (simp add: deltaSum_def)
next
  case (Cons a acts)
  from Cons.prems obtain acc1 where s: "lifetimeStep f a acc = Inr acc1"
    and r: "lifetimeLoop f acc1 acts = Inr acc'"
    by (auto split: sum.splits)
  from Cons.IH [OF r] lifetimeStep_effect [OF s] show ?case
    by (simp add: deltaSum_def)
qed

lemma lifetimeStep_returns:
  "(getActivityNetDelta a \<noteq> 0 \<and> 0 < activityTimestamp a \<longrightarrow>
      (\<exists>d. f (normalizeTimestampMs (activityTimestamp a)) = Inr d)) \<Longrightarrow>
   \<exists>acc'. lifetimeStep f a acc = Inr acc'"
  by (auto simp: lifetimeStep_def Let_def activityTimestamp_def)

lemma lifetimeLoop_returns:
  "\<forall>a \<in> set acts. getActivityNetDelta a \<noteq> 0 \<and> 0 < activityTimestamp a \<longrightarrow>
      (\<exists>d. f (normalizeTimestampMs (activityTimestamp a)) = Inr d) \<Longrightarrow>
   \<exists>acc'. lifetimeLoop f acc acts = Inr acc'"
proof (induction acts arbitrary: acc)
  case Nil
  then show ?case by simp
next
  case (Cons a acts)
  from Cons.prems lifetimeStep_returns [of a f acc]
  obtain acc1 where s: "lifetimeStep f a acc = Inr acc1" by auto
  from Cons.prems have "\<forall>a \<in> set acts. getActivityNetDelta a \<noteq> 0 \<and> 0 < activityTimestamp a \<longrightarrow>
      (\<exists>d. f (normalizeTimestampMs (activityTimestamp a)) = Inr d)" by simp
  from Cons.IH [OF this, of acc1] s show ?case by simp
qed

lemma sum_list_nat_insort_key:
  "sum_list (map g (insort_key k x xs)) = (g x :: nat) + sum_list (map g xs)"
  by (induction xs) simp_all

lemma sum_list_nat_sort_key: "sum_list (map g (sort_key k xs)) = (sum_list (map g xs) :: nat)"
  by (induction xs) (simp_all add: sum_list_nat_insort_key)

lemma length_filter_insort_key:
  "length (filter P (insort_key k x xs)) = (if P x then 1 else 0) + length (filter P xs)"
  by (induction xs) simp_all

lemma length_filter_sort_key: "length (filter P (sort_key k xs)) = length (filter P xs)"
  by (induction xs) (simp_all add: length_filter_insort_key)

lemma deltaSum_split:
  "deltaSum (\<lambda>a. True) acts = deltaSum P acts + deltaSum (\<lambda>a. \<not> P a) acts"
  unfolding deltaSum_if by (induction acts) simp_all

lemma deltaSum_zero:
  "\<forall>a \<in> set acts. P a \<longrightarrow> getActivityNetDelta a = 0 \<Longrightarrow> deltaSum P acts = 0"
  unfolding deltaSum_if by (induction acts) simp_all

text \<open>
  C10, as the code has it. When the aggregation returns a summary: every event adds its
  delta to \<open>netPnl\<close>, and to \<open>totalProfit\<close> or \<open>totalLoss\<close>, whatever its timestamp;
  the daily buckets hold the deltas of the events with a positive timestamp only, and
  count only those events. So \<open>netPnl\<close> is the sum of the daily nets plus the sum of the
  deltas of the events without a positive timestamp, and the two agree whenever every
  event with a non-zero delta has a positive timestamp. The aggregation returns a summary
  whenever every bucketed event has a date.
\<close>

theorem lifetime_untimed_events:
  "(computeLifetimeAnalytics toISODate acts = Inr summary \<longrightarrow>
      l_netPnl summary = deltaSum (\<lambda>a. True) acts
      \<and> l_totalProfit summary = deltaSum (\<lambda>a. 0 < getActivityNetDelta a) acts
      \<and> l_totalLoss summary = - deltaSum (\<lambda>a. getActivityNetDelta a < 0) acts
      \<and> sum_list (map net (l_daily summary)) = deltaSum (\<lambda>a. 0 < activityTimestamp a) acts
      \<and> sum_list (map events (l_daily summary)) =
           length (filter (\<lambda>a. getActivityNetDelta a \<noteq> 0 \<and> 0 < activityTimestamp a) acts)
      \<and> l_netPnl summary =
           sum_list (map net (l_daily summary)) + deltaSum (\<lambda>a. \<not> 0 < activityTimestamp a) acts
      \<and> ((\<forall>a \<in> set acts. getActivityNetDelta a \<noteq> 0 \<longrightarrow> 0 < activityTimestamp a) \<longrightarrow>
           l_netPnl summary = sum_list (map net (l_daily summary))))
   \<and> ((\<forall>a \<in> set acts. getActivityNetDelta a \<noteq> 0 \<and> 0 < activityTimestamp a \<longrightarrow>
          (\<exists>d. toISODate (normalizeTimestampMs (activityTimestamp a)) = Inr d)) \<longrightarrow>
       (\<exists>summary'. computeLifetimeAnalytics toISODate acts = Inr summary'))"
proof (intro conjI impI)
  assume "\<forall>a \<in> set acts. getActivityNetDelta a \<noteq> 0 \<and> 0 < activityTimestamp a \<longrightarrow>
          (\<exists>d. toISODate (normalizeTimestampMs (activityTimestamp a)) = Inr d)"
  then have "\<forall>a \<in> set (sortActivities acts).
      getActivityNetDelta a \<noteq> 0 \<and> 0 < activityTimestamp a \<longrightarrow>
          (\<exists>d. toISODate (normalizeTimestampMs (activityTimestamp a)) = Inr d)"
    by (simp add: sortActivities_def)
  from lifetimeLoop_returns [OF this,
      of "\<lparr> acc_totalProfit = 0, acc_totalLoss = 0, acc_netPnl = 0, dailyMap = [] \<rparr>"]
  show "\<exists>summary'. computeLifetimeAnalytics toISODate acts = Inr summary'"
    by (auto simp: computeLifetimeAnalytics_def Let_def)
next
  assume r: "computeLifetimeAnalytics toISODate acts = Inr summary"
  then obtain acc where l: "lifetimeLoop toISODate
        \<lparr> acc_totalProfit = 0, acc_totalLoss = 0, acc_netPnl = 0, dailyMap = [] \<rparr>
        (sortActivities acts) = Inr acc"
    and s: "summary = lifetimeSummary (sortActivities acts) acc"
    by (auto simp: computeLifetimeAnalytics_def Let_def split: sum.splits)
  note e = lifetimeLoop_effect [OF l]
  show 1: "l_netPnl summary = deltaSum (\<lambda>a. True) acts"
    using e by (simp add: s lifetimeSummary_def Let_def sortActivities_def deltaSum_sort)
  show "l_totalProfit summary = deltaSum (\<lambda>a. 0 < getActivityNetDelta a) acts"
    using e by (simp add: s lifetimeSummary_def Let_def sortActivities_def deltaSum_sort)
  show "l_totalLoss summary = - deltaSum (\<lambda>a. getActivityNetDelta a < 0) acts"
    using e by (simp add: s lifetimeSummary_def Let_def sortActivities_def deltaSum_sort)
  show 4: "sum_list (map net (l_daily summary)) = deltaSum (\<lambda>a. 0 < activityTimestamp a) acts"
    using e
    by (simp add: s lifetimeSummary_def Let_def sortActivities_def deltaSum_sort
          sum_list_sort_key)
  show "sum_list (map events (l_daily summary)) =
        length (filter (\<lambda>a. getActivityNetDelta a \<noteq> 0 \<and> 0 < activityTimestamp a) acts)"
    using e
    by (simp add: s lifetimeSummary_def Let_def sortActivities_def sum_list_nat_sort_key
          length_filter_sort_key)
  show 6: "l_netPnl summary =
        sum_list (map net (l_daily summary)) + deltaSum (\<lambda>a. \<not> 0 < activityTimestamp a) acts"
    unfolding 1 4 by (rule deltaSum_split)
  assume "\<forall>a \<in> set acts. getActivityNetDelta a \<noteq> 0 \<longrightarrow> 0 < activityTimestamp a"
  then have "\<forall>a \<in> set acts. \<not> 0 < activityTimestamp a \<longrightarrow> getActivityNetDelta a = 0"
    by blast
  then have "deltaSum (\<lambda>a. \<not> 0 < activityTimestamp a) acts = 0"
    by (rule deltaSum_zero)
  with 6 show "l_netPnl summary = sum_list (map net (l_daily summary))" by simp
qed

lemma example_deltas:
  "getActivityNetDelta (exampleActivity ''REWARD'' None 5 0) = 5"
  "getActivityNetDelta (exampleActivity ''FEE'' None 5 0) = - 5"
  "getActivityNetDelta (exampleActivity ''REWARD'' None 2 86400) = 2"
  "getActivityNetDelta (exampleActivity ''FEE'' None 3 86401) = - 3"
  by (simp_all add: delta_defs)

lemma example_timestamps:
  "parseNumber (a_timestamp (exampleActivity ty sd amt ts)) = ts"
  by (simp add: exampleActivity_def parseNumber_def)

lemmas lifetime_defs = computeLifetimeAnalytics_def lifetimeSummary_def sortActivities_def
  lifetimeStep_def example_deltas example_timestamps Let_def utcDay_def
  normalizeTimestampMs_def bucketUpdate_def activityTimestamp_def

text \<open>
  The theorem at a reward of 5 without timestamp followed by a reward of 2 and a fee of
  3 on one day, and at the last two alone.
\<close>

theorem lifetime_untimed_events_witness:
  "map_sum id l_netPnl (computeLifetimeAnalytics utcDay timedAndUntimed) = Inr 4
   \<and> map_sum id l_totalProfit (computeLifetimeAnalytics utcDay timedAndUntimed) = Inr 7
   \<and> map_sum id l_totalLoss (computeLifetimeAnalytics utcDay timedAndUntimed) = Inr 3
   \<and> map_sum id (\<lambda>s. map net (l_daily s)) (computeLifetimeAnalytics utcDay timedAndUntimed)
       = Inr [- 1]
   \<and> map_sum id (\<lambda>s. map events (l_daily s)) (computeLifetimeAnalytics utcDay timedAndUntimed)
       = Inr [2]
   \<and> deltaSum (\<lambda>a. \<not> 0 < activityTimestamp a) timedAndUntimed = 5
   \<and> map_sum id l_netPnl (computeLifetimeAnalytics utcDay allTimed) = Inr (- 1)
   \<and> map_sum id (\<lambda>s. sum_list (map net (l_daily s))) (computeLifetimeAnalytics utcDay allTimed)
       = Inr (- 1)"
proof -
  have d1: "\<forall>a \<in> set timedAndUntimed. getActivityNetDelta a \<noteq> 0 \<and> 0 < activityTimestamp a \<longrightarrow>
          (\<exists>d. utcDay (normalizeTimestampMs (activityTimestamp a)) = Inr d)"
    by (simp add: timedAndUntimed_def example_timestamps activityTimestamp_def utcDay_def
          normalizeTimestampMs_def)
  have d2: "\<forall>a \<in> set allTimed. getActivityNetDelta a \<noteq> 0 \<and> 0 < activityTimestamp a \<longrightarrow>
          (\<exists>d. utcDay (normalizeTimestampMs (activityTimestamp a)) = Inr d)"
    by (simp add: allTimed_def example_timestamps activityTimestamp_def utcDay_def
          normalizeTimestampMs_def)
  from lifetime_untimed_events [where toISODate = utcDay and acts = timedAndUntimed] d1
  obtain s1 where s1: "computeLifetimeAnalytics utcDay timedAndUntimed = Inr s1" by blast
  from lifetime_untimed_events [where toISODate = utcDay and acts = allTimed] d2
  obtain s2 where s2: "computeLifetimeAnalytics utcDay allTimed = Inr s2" by blast
  have d: "map_sum id (\<lambda>s. map net (l_daily s)) (computeLifetimeAnalytics utcDay timedAndUntimed)
       = Inr [- 1]"
      "map_sum id (\<lambda>s. map events (l_daily s)) (computeLifetimeAnalytics utcDay timedAndUntimed)
       = Inr [2]"
    by (simp_all add: timedAndUntimed_def lifetime_defs)
  have u: "deltaSum (\<lambda>a. \<not> 0 < activityTimestamp a) timedAndUntimed = 5"
      "deltaSum (\<lambda>a. True) timedAndUntimed = 4"
      "deltaSum (\<lambda>a. 0 < getActivityNetDelta a) timedAndUntimed = 7"
      "deltaSum (\<lambda>a. getActivityNetDelta a < 0) timedAndUntimed = - 3"
    by (simp_all add: timedAndUntimed_def deltaSum_def example_deltas example_timestamps
          activityTimestamp_def)
  have h: "\<forall>a \<in> set allTimed. getActivityNetDelta a \<noteq> 0 \<longrightarrow> 0 < activityTimestamp a"
    by (simp add: allTimed_def example_timestamps activityTimestamp_def)
  have n: "deltaSum (\<lambda>a. True) allTimed = - 1"
    by (simp add: allTimed_def deltaSum_def example_deltas)
  from lifetime_untimed_events [where toISODate = utcDay and acts = timedAndUntimed
      and summary = s1]
    lifetime_untimed_events [where toISODate = utcDay and acts = allTimed and summary = s2]
    s1 s2 d u h n
  show ?thesis by simp
qed

text \<open>
  C10 as stated fails at a reward of 5 and a fee of 5 that both have timestamp 0: both
  contribute, to \<open>totalProfit\<close> and to \<open>totalLoss\<close>, no bucket exists, and \<open>netPnl\<close>
  equals the sum of the daily nets, both being 0, although no contributing event has a
  positive timestamp.
\<close>

theorem untimed_cancel_counterexample:
  "map getActivityNetDelta cancellingUntimed = [5, - 5]
   \<and> map activityTimestamp cancellingUntimed = [0, 0]
   \<and> map_sum id l_totalProfit (computeLifetimeAnalytics utcDay cancellingUntimed) = Inr 5
   \<and> map_sum id l_totalLoss (computeLifetimeAnalytics utcDay cancellingUntimed) = Inr 5
   \<and> map_sum id l_daily (computeLifetimeAnalytics utcDay cancellingUntimed) = Inr []
   \<and> map_sum id l_netPnl (computeLifetimeAnalytics utcDay cancellingUntimed) = Inr 0"
  by (simp add: cancellingUntimed_def lifetime_defs)

section \<open>Pagination\<close>

subsection \<open>One iteration of the offset-mode loop\<close>

lemma rangeLoop_empty:
  assumes "length (st_trades st) < maxEventsOf cfg params"
    and "feed (currentOffset st) (batchLimitOf cfg params st) = NotArray
         \<or> feed (currentOffset st) (batchLimitOf cfg params st) = Page []"
  shows "rangeLoop cfg params feed st =
     Inr \<lparr> out_trades = st_trades st, nextOffset = currentOffset st, exhausted = True,
           requests = st_requests st @ [(currentOffset st, batchLimitOf cfg params st)] \<rparr>"
  using assms by (subst rangeLoop.simps) (auto simp: finish_def)

lemma rangeLoop_stop:
  assumes "length (st_trades st) < maxEventsOf cfg params"
    and "feed (currentOffset st) (batchLimitOf cfg params st) = Page data"
    and "data \<noteq> []"
    and "stopsAfter cfg params st data"
  shows "rangeLoop cfg params feed st = Inr (finish (absorbPage cfg params st data) True)"
  using assms by (subst rangeLoop.simps) simp

lemma rangeLoop_continue:
  assumes "length (st_trades st) < maxEventsOf cfg params"
    and "feed (currentOffset st) (batchLimitOf cfg params st) = Page data"
    and "data \<noteq> []"
    and "\<not> stopsAfter cfg params st data"
  shows "rangeLoop cfg params feed st = rangeLoop cfg params feed (absorbPage cfg params st data)"
  using assms by (subst rangeLoop.simps) simp

lemma rangeLoop_cap:
  "\<not> length (st_trades st) < maxEventsOf cfg params \<Longrightarrow>
   rangeLoop cfg params feed st = Inr (finish st False)"
  by (subst rangeLoop.simps) simp

lemma finish_absorb:
  "finish (absorbPage cfg params st data) True =
     \<lparr> out_trades = st_trades st @
          take (maxEventsOf cfg params - length (st_trades st))
            (map (\<lambda>item. mapActivityItem (numberToString cfg) item (address params))
              (filter (accepted params) data)),
       nextOffset = currentOffset st + length data, exhausted = True,
       requests = st_requests st @ [(currentOffset st, batchLimitOf cfg params st)] \<rparr>"
  by (simp add: finish_def absorbPage_def Let_def)

lemma pageTimestamps_Cons:
  "pageTimestamps (item # items) =
     (case getActivityTimestampSeconds item of
        None \<Rightarrow> pageTimestamps items | Some t \<Rightarrow> t # pageTimestamps items)"
  by (simp add: pageTimestamps_def split: option.splits)

lemma set_pageTimestamps:
  "set (pageTimestamps data) = {t. \<exists>item\<in>set data. getActivityTimestampSeconds item = Some t}"
  by (induction data) (auto simp: pageTimestamps_Cons pageTimestamps_def split: option.splits)

lemma getOldestLoop_Min:
  "getOldestLoop acc items =
     (case acc of
        None \<Rightarrow> (if pageTimestamps items = [] then None
                  else Some (Min (set (pageTimestamps items))))
      | Some a \<Rightarrow> Some (Min (set (a # pageTimestamps items))))"
proof (induction items arbitrary: acc)
  case Nil
  then show ?case by (simp add: pageTimestamps_def split: option.splits)
next
  case (Cons item items)
  show ?case
  proof (cases "getActivityTimestampSeconds item")
    case None
    then show ?thesis by (simp add: Cons.IH pageTimestamps_Cons split: option.splits)
  next
    case (Some t)
    show ?thesis
    proof (cases acc)
      case None
      with Some show ?thesis by (simp add: Cons.IH pageTimestamps_Cons)
    next
      case (Some a)
      have m: "Min (insert (if t < a then t else a) S) = Min (insert a (insert t S))"
        if "finite S" for S
      proof (cases "S = {}")
        case True
        then show ?thesis by (simp add: min_def)
      next
        case False
        with that have "Min (insert (if t < a then t else a) S) = min (if t < a then t else a) (Min S)"
          and "Min (insert t S) = min t (Min S)"
          and "Min (insert a (insert t S)) = min a (Min (insert t S))"
          by (simp_all only: Min_insert finite_insert insert_not_empty not_False_eq_True)
        then show ?thesis by (simp only: min_def) (simp split: if_splits)
      qed
      have "getOldestLoop acc (item # items) =
              getOldestLoop (Some (if t < a then t else a)) items"
        using Some \<open>getActivityTimestampSeconds item = Some t\<close> by simp
      also have "\<dots> = Some (Min (insert (if t < a then t else a) (set (pageTimestamps items))))"
        by (simp only: Cons.IH option.case list.set)
      also have "\<dots> = Some (Min (insert a (insert t (set (pageTimestamps items)))))"
        by (simp only: m [OF finite_set])
      also have "\<dots> = Some (Min (set (a # pageTimestamps (item # items))))"
        using \<open>getActivityTimestampSeconds item = Some t\<close>
        by (simp only: pageTimestamps_Cons option.case list.set)
      finally show ?thesis by (simp only: Some option.case)
    qed
  qed
qed

lemma getOldestTimestampSeconds_Min:
  "getOldestTimestampSeconds data =
     (if pageTimestamps data = [] then None else Some (Min (set (pageTimestamps data))))"
  by (simp add: getOldestTimestampSeconds_def getOldestLoop_Min)

lemma pastStart_iff:
  "pastStart params data \<longleftrightarrow>
     (\<exists>s. startTs params = Some s
        \<and> (\<exists>item\<in>set data. \<exists>t. getActivityTimestampSeconds item = Some t \<and> t < s))"
proof (cases "startTs params")
  case None
  then show ?thesis by (simp add: pastStart_def)
next
  case (Some s)
  show ?thesis
  proof (cases "pageTimestamps data = []")
    case True
    then have "set (pageTimestamps data) = {}" by simp
    then have "\<not> (\<exists>item\<in>set data. \<exists>t. getActivityTimestampSeconds item = Some t \<and> t < s)"
      unfolding set_pageTimestamps by blast
    with Some True show ?thesis
      by (simp add: pastStart_def getOldestTimestampSeconds_Min)
  next
    case False
    then have "Min (set (pageTimestamps data)) < s \<longleftrightarrow> (\<exists>t\<in>set (pageTimestamps data). t < s)"
      by (simp add: Min_less_iff)
    also have "\<dots> \<longleftrightarrow> (\<exists>item\<in>set data. \<exists>t. getActivityTimestampSeconds item = Some t \<and> t < s)"
      unfolding set_pageTimestamps by blast
    finally show ?thesis using Some False
      by (simp add: pastStart_def getOldestTimestampSeconds_Min)
  qed
qed

subsection \<open>Three pages of sizes 500, 500, 120\<close>

lemma scenario_C:
  assumes len: "length xs = 1120"
    and bs: "ACTIVITY_RANGE_BATCH_SIZE cfg = 500"
    and cap1: "length (filter (accepted params) (take 500 xs)) + 500 \<le> maxEventsOf cfg params"
    and cap2: "length (filter (accepted params) (take 1000 xs)) + 120 < maxEventsOf cfg params"
    and off: "offset params = 0"
    and ps1: "\<not> pastStart params (take 500 xs)"
    and ps2: "\<not> pastStart params (take 500 (drop 500 xs))"
  shows "\<exists>res. fetchActivityByUserWithRange cfg params (pagedFeed xs) = Inr res
     \<and> exhausted res \<and> nextOffset res = 1120
     \<and> map fst (requests res) = [0, 500, 1000]
     \<and> out_trades res = map (\<lambda>item. mapActivityItem (numberToString cfg) item (address params))
                        (filter (accepted params) xs)"
proof -
  let ?m = "\<lambda>item. mapActivityItem (numberToString cfg) item (address params)"
  let ?acc = "\<lambda>ys. map ?m (filter (accepted params) ys)"
  define M where "M = maxEventsOf cfg params"
  define p1 where "p1 = take 500 xs"
  define p2 where "p2 = take 500 (drop 500 xs)"
  define p3 where "p3 = drop 1000 xs"
  have l1: "length p1 = 500" and l2: "length p2 = 500" and l3: "length p3 = 120"
    using len by (simp_all add: p1_def p2_def p3_def)
  have a1: "length (?acc p1) \<le> 500" and a2: "length (?acc p2) \<le> 500"
    and a3: "length (?acc p3) \<le> 120"
    using l1 l2 l3 length_filter_le [of "accepted params" p1]
      length_filter_le [of "accepted params" p2] length_filter_le [of "accepted params" p3]
    by simp_all
  define s0 where "s0 = \<lparr> st_trades = [], currentOffset = 0, consecutiveEmpty = 0,
                           st_requests = ([] :: (nat \<times> nat) list) \<rparr>"
  define s1 where "s1 = absorbPage cfg params s0 p1"
  define s2 where "s2 = absorbPage cfg params s1 p2"
  have "take 1000 xs = p1 @ p2"
    unfolding p1_def p2_def using take_add [of 500 500 xs] by simp
  with cap1 cap2 have M: "length (?acc p1) + 500 \<le> M"
      "length (?acc p1) + length (?acc p2) + 120 < M"
    by (simp_all add: M_def p1_def)
  \<comment> \<open>first page\<close>
  have b0: "batchLimitOf cfg params s0 = 500"
    using M bs by (simp add: batchLimitOf_def s0_def M_def [symmetric])
  have f0: "pagedFeed xs (currentOffset s0) (batchLimitOf cfg params s0) = Page p1"
    using b0 by (simp add: pagedFeed_def s0_def p1_def)
  have t1: "st_trades s1 = ?acc p1"
    using a1 M by (simp add: s1_def absorbPage_def Let_def s0_def M_def [symmetric])
  have o1: "currentOffset s1 = 500" and c1: "consecutiveEmpty s1 \<le> 1"
    and r1: "st_requests s1 = [(0, 500)]"
    using l1 b0 by (simp_all add: s1_def absorbPage_def Let_def s0_def)
  have n0: "\<not> stopsAfter cfg params s0 p1"
    using ps1 c1 l1 b0
    by (simp add: stopsAfter_def s1_def [symmetric] p1_def [symmetric] MAX_CONSECUTIVE_EMPTY_def)
  have lt0: "length (st_trades s0) < maxEventsOf cfg params"
    using M by (simp add: s0_def M_def)
  have ne1: "p1 \<noteq> []" using l1 by auto
  have step0: "rangeLoop cfg params (pagedFeed xs) s0 = rangeLoop cfg params (pagedFeed xs) s1"
    unfolding s1_def
    by (rule rangeLoop_continue [where feed = "pagedFeed xs" and st = s0 and data = p1,
          OF lt0 f0 ne1 n0])
  \<comment> \<open>second page\<close>
  have b1: "batchLimitOf cfg params s1 = 500"
    using M bs a1 by (simp add: batchLimitOf_def t1 M_def [symmetric])
  have f1: "pagedFeed xs (currentOffset s1) (batchLimitOf cfg params s1) = Page p2"
    by (simp add: b1 o1 pagedFeed_def p2_def)
  have t2: "st_trades s2 = ?acc p1 @ ?acc p2"
    using a1 a2 M by (simp add: s2_def absorbPage_def Let_def t1 M_def [symmetric])
  have o2: "currentOffset s2 = 1000" and c2: "consecutiveEmpty s2 \<le> 2"
    and r2: "st_requests s2 = [(0, 500), (500, 500)]"
    using l2 b1 o1 c1 r1 by (simp_all add: s2_def absorbPage_def Let_def)
  have n1: "\<not> stopsAfter cfg params s1 p2"
    using ps2 c2 l2 b1
    by (simp add: stopsAfter_def s2_def [symmetric] p2_def [symmetric] MAX_CONSECUTIVE_EMPTY_def)
  have lt1: "length (st_trades s1) < maxEventsOf cfg params"
    using M a1 by (simp add: t1 M_def)
  have ne2: "p2 \<noteq> []" using l2 by auto
  have step1: "rangeLoop cfg params (pagedFeed xs) s1 = rangeLoop cfg params (pagedFeed xs) s2"
    unfolding s2_def
    by (rule rangeLoop_continue [where feed = "pagedFeed xs" and st = s1 and data = p2,
          OF lt1 f1 ne2 n1])
  \<comment> \<open>third page\<close>
  have lt2: "length (st_trades s2) < maxEventsOf cfg params"
    using a1 a2 M by (simp add: t2 M_def)
  have b2: "120 < batchLimitOf cfg params s2"
    using M bs a1 a2 by (simp add: batchLimitOf_def t2 M_def [symmetric])
  have f2: "pagedFeed xs (currentOffset s2) (batchLimitOf cfg params s2) = Page p3"
    using b2 len by (simp add: o2 pagedFeed_def p3_def)
  have n2: "stopsAfter cfg params s2 p3"
    using b2 l3 by (simp add: stopsAfter_def)
  have ne3: "p3 \<noteq> []" using l3 by auto
  have step2: "rangeLoop cfg params (pagedFeed xs) s2
      = Inr (finish (absorbPage cfg params s2 p3) True)"
    by (rule rangeLoop_stop [where feed = "pagedFeed xs" and st = s2 and data = p3,
          OF lt2 f2 ne3 n2])
  have xs: "xs = p1 @ p2 @ p3"
  proof -
    have "p2 @ p3 = drop 500 xs"
      unfolding p2_def p3_def
      using append_take_drop_id [of 500 "drop 500 xs"] by simp
    then show ?thesis
      unfolding p1_def using append_take_drop_id [of 500 xs] by simp
  qed
  have tr: "out_trades (finish (absorbPage cfg params s2 p3) True) = ?acc xs"
  proof -
    have "length (?acc p3) \<le> M - length (st_trades s2)"
      using a1 a2 a3 M by (simp add: t2)
    then have "take (M - length (st_trades s2)) (?acc p3) = ?acc p3" by simp
    then have "out_trades (finish (absorbPage cfg params s2 p3) True) = ?acc p1 @ ?acc p2 @ ?acc p3"
      by (simp add: finish_absorb t2 M_def)
    also have "\<dots> = ?acc (p1 @ p2 @ p3)" by simp
    also have "\<dots> = ?acc xs" by (simp only: xs [symmetric])
    finally show ?thesis .
  qed
  have r: "fetchActivityByUserWithRange cfg params (pagedFeed xs)
      = Inr (finish (absorbPage cfg params s2 p3) True)"
    using step0 step1 step2 off by (simp add: fetchActivityByUserWithRange_def s0_def)
  have e: "exhausted (finish (absorbPage cfg params s2 p3) True)"
    by (simp add: finish_absorb)
  have n: "nextOffset (finish (absorbPage cfg params s2 p3) True) = 1120"
    using l3 o2 by (simp add: finish_absorb)
  have q: "map fst (requests (finish (absorbPage cfg params s2 p3) True)) = [0, 500, 1000]"
    using r2 o2 by (simp add: finish_absorb)
  show ?thesis
  proof (intro exI conjI)
    show "fetchActivityByUserWithRange cfg params (pagedFeed xs)
      = Inr (finish (absorbPage cfg params s2 p3) True)" by (rule r)
  qed (rule e n q tr)+
qed

text \<open>
  C6. In offset mode, from any state of the loop that is about to fetch: a response that
  is not an array, or an empty page, ends the collection with \<open>exhausted = true\<close>,
  \<open>trades\<close> and \<open>nextOffset\<close> unchanged; a page shorter than the requested limit, and,
  when \<open>startTs\<close> is set, a page that holds a record whose timestamp precedes
  \<open>startTs\<close>, end it with \<open>exhausted = true\<close> after the page has been taken in; no
  further request is made.
  For a feed of 1120 records served at batch size 500, so in pages of 500, 500 and 120:
  when the result cap leaves the limit of the second request at 500 and that of the third
  above 120, as it does when every request has limit 500 and when the cap exceeds 1120,
  and no record of the first two pages is older than \<open>startTs\<close>, the collection makes
  three requests, at offsets 0, 500 and 1000, and ends after the third with
  \<open>exhausted = true\<close>, \<open>nextOffset = 1120\<close> and every accepted record.
  The timestamp that the loop compares with \<open>startTs\<close> is the least of the timestamps
  of the page, and there is none when no record of the page carries a timestamp; so the
  \<open>startTs\<close> test of the loop holds exactly when \<open>startTs\<close> is set and some record of the
  page has a timestamp before it.
\<close>

theorem offset_mode_stops:
  "(length (st_trades st) < maxEventsOf cfg params
      \<and> (feed (currentOffset st) (batchLimitOf cfg params st) = NotArray
          \<or> feed (currentOffset st) (batchLimitOf cfg params st) = Page []) \<longrightarrow>
      rangeLoop cfg params feed st =
        Inr \<lparr> out_trades = st_trades st, nextOffset = currentOffset st, exhausted = True,
              requests = st_requests st @ [(currentOffset st, batchLimitOf cfg params st)] \<rparr>)
   \<and> (length (st_trades st) < maxEventsOf cfg params
      \<and> feed (currentOffset st) (batchLimitOf cfg params st) = Page data \<and> data \<noteq> []
      \<and> (length data < batchLimitOf cfg params st
          \<or> startTs params = Some s
             \<and> (\<exists>item\<in>set data. \<exists>t. getActivityTimestampSeconds item = Some t \<and> t < s))
      \<longrightarrow>
      rangeLoop cfg params feed st =
        Inr \<lparr> out_trades = st_trades st @
                take (maxEventsOf cfg params - length (st_trades st))
                  (map (\<lambda>item. mapActivityItem (numberToString cfg) item (address params))
                    (filter (accepted params) data)),
              nextOffset = currentOffset st + length data, exhausted = True,
              requests = st_requests st @ [(currentOffset st, batchLimitOf cfg params st)] \<rparr>)
   \<and> (length xs = 1120 \<and> ACTIVITY_RANGE_BATCH_SIZE cfg = 500
      \<and> length (filter (accepted params) (take 500 xs)) + 500 \<le> maxEventsOf cfg params
      \<and> length (filter (accepted params) (take 1000 xs)) + 120 < maxEventsOf cfg params
      \<and> offset params = 0
      \<and> \<not> pastStart params (take 500 xs) \<and> \<not> pastStart params (take 500 (drop 500 xs))
      \<longrightarrow>
      (\<exists>res. fetchActivityByUserWithRange cfg params (pagedFeed xs) = Inr res
         \<and> exhausted res \<and> nextOffset res = 1120
         \<and> map fst (requests res) = [0, 500, 1000]
         \<and> out_trades res = map (\<lambda>item. mapActivityItem (numberToString cfg) item (address params))
                            (filter (accepted params) xs)))
   \<and> getOldestTimestampSeconds data =
        (if pageTimestamps data = [] then None else Some (Min (set (pageTimestamps data))))
   \<and> set (pageTimestamps data) =
        {t. \<exists>item\<in>set data. getActivityTimestampSeconds item = Some t}
   \<and> (pastStart params data \<longleftrightarrow>
        (\<exists>s. startTs params = Some s
           \<and> (\<exists>item\<in>set data. \<exists>t. getActivityTimestampSeconds item = Some t \<and> t < s)))"
proof (intro conjI impI)
  assume "length (st_trades st) < maxEventsOf cfg params
      \<and> (feed (currentOffset st) (batchLimitOf cfg params st) = NotArray
          \<or> feed (currentOffset st) (batchLimitOf cfg params st) = Page [])"
  then show "rangeLoop cfg params feed st =
        Inr \<lparr> out_trades = st_trades st, nextOffset = currentOffset st, exhausted = True,
              requests = st_requests st @ [(currentOffset st, batchLimitOf cfg params st)] \<rparr>"
    by (intro rangeLoop_empty) simp_all
next
  assume a: "length (st_trades st) < maxEventsOf cfg params
      \<and> feed (currentOffset st) (batchLimitOf cfg params st) = Page data \<and> data \<noteq> []
      \<and> (length data < batchLimitOf cfg params st
          \<or> startTs params = Some s
             \<and> (\<exists>item\<in>set data. \<exists>t. getActivityTimestampSeconds item = Some t \<and> t < s))"
  then have "length data < batchLimitOf cfg params st \<or> pastStart params data"
    unfolding pastStart_iff by blast
  then have "stopsAfter cfg params st data"
    by (auto simp: stopsAfter_def)
  with a have "rangeLoop cfg params feed st = Inr (finish (absorbPage cfg params st data) True)"
    by (intro rangeLoop_stop) simp_all
  then show "rangeLoop cfg params feed st =
        Inr \<lparr> out_trades = st_trades st @
                take (maxEventsOf cfg params - length (st_trades st))
                  (map (\<lambda>item. mapActivityItem (numberToString cfg) item (address params))
                    (filter (accepted params) data)),
              nextOffset = currentOffset st + length data, exhausted = True,
              requests = st_requests st @ [(currentOffset st, batchLimitOf cfg params st)] \<rparr>"
    by (simp only: finish_absorb)
next
  assume "length xs = 1120 \<and> ACTIVITY_RANGE_BATCH_SIZE cfg = 500
      \<and> length (filter (accepted params) (take 500 xs)) + 500 \<le> maxEventsOf cfg params
      \<and> length (filter (accepted params) (take 1000 xs)) + 120 < maxEventsOf cfg params
      \<and> offset params = 0
      \<and> \<not> pastStart params (take 500 xs) \<and> \<not> pastStart params (take 500 (drop 500 xs))"
  then show "\<exists>res. fetchActivityByUserWithRange cfg params (pagedFeed xs) = Inr res
         \<and> exhausted res \<and> nextOffset res = 1120
         \<and> map fst (requests res) = [0, 500, 1000]
         \<and> out_trades res = map (\<lambda>item. mapActivityItem (numberToString cfg) item (address params))
                            (filter (accepted params) xs)"
    by (intro scenario_C) simp_all
next
  show "getOldestTimestampSeconds data =
        (if pageTimestamps data = [] then None else Some (Min (set (pageTimestamps data))))"
    by (rule getOldestTimestampSeconds_Min)
next
  show "set (pageTimestamps data) =
        {t. \<exists>item\<in>set data. getActivityTimestampSeconds item = Some t}"
    by (rule set_pageTimestamps)
next
  show "pastStart params data \<longleftrightarrow>
        (\<exists>s. startTs params = Some s
           \<and> (\<exists>item\<in>set data. \<exists>t. getActivityTimestampSeconds item = Some t \<and> t < s))"
    by (rule pastStart_iff)
qed

lemmas range_defs = fetchActivityByUserWithRange_def defaultConfig_def exampleParams_def
  maxEventsOf_def batchLimitOf_def absorbPage_def stopsAfter_def pastStart_def finish_def
  accepted_def slugFilterOf_def isTimestampInRange_def getActivityTimestampSeconds_def
  normalizeTimestampSeconds_def getOldestTimestampSeconds_def parseNumber_def truthy_def
  mapActivityItem_def firstTruthy_def orElse_def exampleItem_def MAX_CONSECUTIVE_EMPTY_def
  numberOrUndefined_def templateString_def Let_def

text \<open>
  The theorem at an empty feed, at a feed of one record, at a full page of three records
  whose second and oldest record, at 100, lies before a \<open>startTs\<close> of 150 while the first
  and newest, at 200, does not, and at a feed of 1120 equal records. At the page of three
  the collection keeps the two records in range and makes no second request, although
  the cap of 3 is not reached.
\<close>

theorem offset_mode_stops_witness:
  "map_sum id exhausted
     (fetchActivityByUserWithRange defaultConfig (exampleParams 10 None None) (\<lambda>ofs cnt. Page []))
     = Inr True
   \<and> map_sum id exhausted
       (fetchActivityByUserWithRange defaultConfig (exampleParams 10 None None)
          (pagedFeed [exampleItem ''r1'' 100])) = Inr True
   \<and> length (take 3 unorderedFeed) = 3
   \<and> batchLimitOf defaultConfig (exampleParams 3 (Some 150) None)
        \<lparr> st_trades = [], currentOffset = 0, consecutiveEmpty = 0, st_requests = [] \<rparr> = 3
   \<and> getActivityTimestampSeconds (unorderedFeed ! 0) = Some 200
   \<and> getActivityTimestampSeconds (unorderedFeed ! 1) = Some 100
   \<and> getActivityTimestampSeconds (unorderedFeed ! 2) = Some 180
   \<and> getOldestTimestampSeconds (take 3 unorderedFeed) = Some 100
   \<and> map_sum id exhausted
       (fetchActivityByUserWithRange defaultConfig (exampleParams 3 (Some 150) None)
          (pagedFeed unorderedFeed)) = Inr True
   \<and> map_sum id requests
       (fetchActivityByUserWithRange defaultConfig (exampleParams 3 (Some 150) None)
          (pagedFeed unorderedFeed)) = Inr [(0, 3)]
   \<and> map_sum id nextOffset
       (fetchActivityByUserWithRange defaultConfig (exampleParams 3 (Some 150) None)
          (pagedFeed unorderedFeed)) = Inr 3
   \<and> map_sum id (\<lambda>res. map trade_id (out_trades res))
       (fetchActivityByUserWithRange defaultConfig (exampleParams 3 (Some 150) None)
          (pagedFeed unorderedFeed)) = Inr [''r1'', ''r3'']
   \<and> map_sum id exhausted
       (fetchActivityByUserWithRange defaultConfig (exampleParams 5000 None None)
          (pagedFeed (replicate 1120 (exampleItem ''r'' 100)))) = Inr True
   \<and> map_sum id nextOffset
       (fetchActivityByUserWithRange defaultConfig (exampleParams 5000 None None)
          (pagedFeed (replicate 1120 (exampleItem ''r'' 100)))) = Inr 1120
   \<and> map_sum id (\<lambda>res. length (out_trades res))
       (fetchActivityByUserWithRange defaultConfig (exampleParams 5000 None None)
          (pagedFeed (replicate 1120 (exampleItem ''r'' 100)))) = Inr 1120"
proof -
  let ?s = "\<lambda>p. \<lparr> st_trades = [], currentOffset = offset p, consecutiveEmpty = 0,
                   st_requests = ([] :: (nat \<times> nat) list) \<rparr>"
  let ?p10 = "exampleParams 10 None None"
  let ?p3 = "exampleParams 3 (Some 150) None"
  let ?pC = "exampleParams 5000 None None"
  have 1: "map_sum id exhausted
     (fetchActivityByUserWithRange defaultConfig ?p10 (\<lambda>ofs cnt. Page [])) = Inr True"
    using offset_mode_stops [of "?s ?p10" defaultConfig ?p10 "\<lambda>ofs cnt. Page []"]
    by (simp add: fetchActivityByUserWithRange_def defaultConfig_def exampleParams_def
          maxEventsOf_def)
  have 2: "map_sum id exhausted
       (fetchActivityByUserWithRange defaultConfig ?p10 (pagedFeed [exampleItem ''r1'' 100]))
       = Inr True"
    using offset_mode_stops [of "?s ?p10" defaultConfig ?p10 "pagedFeed [exampleItem ''r1'' 100]"
        "[exampleItem ''r1'' 100]"]
    by (simp add: fetchActivityByUserWithRange_def defaultConfig_def exampleParams_def
          maxEventsOf_def batchLimitOf_def pagedFeed_def)
  have ts: "getActivityTimestampSeconds (unorderedFeed ! 0) = Some 200"
      "getActivityTimestampSeconds (unorderedFeed ! 1) = Some 100"
      "getActivityTimestampSeconds (unorderedFeed ! 2) = Some 180"
    by (simp_all add: unorderedFeed_def range_defs)
  have ts': "getActivityTimestampSeconds (exampleItem ''r1'' 200) = Some 200"
      "getActivityTimestampSeconds (exampleItem ''r2'' 100) = Some 100"
      "getActivityTimestampSeconds (exampleItem ''r3'' 180) = Some 180"
    by (simp_all add: range_defs)
  have pg: "take 3 unorderedFeed =
      [exampleItem ''r1'' 200, exampleItem ''r2'' 100, exampleItem ''r3'' 180]"
    by (simp add: unorderedFeed_def)
  have pt: "pageTimestamps (take 3 unorderedFeed) = [200, 100, 180]"
    by (simp add: pg pageTimestamps_def ts')
  let ?init = "\<lparr> st_trades = [], currentOffset = 0, consecutiveEmpty = 0,
               st_requests = ([] :: (nat \<times> nat) list) \<rparr>"
  have bl: "batchLimitOf defaultConfig ?p3 ?init = 3" "offset ?p3 = 0"
      "startTs ?p3 = Some 150" "maxEventsOf defaultConfig ?p3 = 3" "address ?p3 = ''0xabc''"
    by (simp_all add: defaultConfig_def exampleParams_def maxEventsOf_def batchLimitOf_def)
  have old: "\<exists>item\<in>set (take 3 unorderedFeed). \<exists>t.
                getActivityTimestampSeconds item = Some t \<and> t < 150"
    by (simp add: pg ts')
  have acc3: "filter (accepted ?p3) (take 3 unorderedFeed) =
      [exampleItem ''r1'' 200, exampleItem ''r3'' 180]"
    by (simp add: pg accepted_def ts' isTimestampInRange_def slugFilterOf_def truthy_def
          exampleParams_def)
  have ids: "trade_id (mapActivityItem nts (exampleItem ''r1'' 200) a) = ''r1''"
      "trade_id (mapActivityItem nts (exampleItem ''r3'' 180) a) = ''r3''" for nts a
    by (simp_all add: mapActivityItem_def exampleItem_def truthy_def orElse_def)
  have o: "getOldestTimestampSeconds (take 3 unorderedFeed) = Some 100"
    using offset_mode_stops [of "?s ?p3" defaultConfig ?p3 "pagedFeed unorderedFeed"
        "take 3 unorderedFeed" 150, THEN conjunct2, THEN conjunct2, THEN conjunct2,
        THEN conjunct1]
    by (simp add: pt)
  have ne: "unorderedFeed \<noteq> []" "length unorderedFeed = 5"
    by (simp_all add: unorderedFeed_def)
  have r3: "rangeLoop defaultConfig ?p3 (pagedFeed unorderedFeed) ?init =
        Inr \<lparr> out_trades = map (\<lambda>item. mapActivityItem (numberToString defaultConfig) item ''0xabc'')
                  [exampleItem ''r1'' 200, exampleItem ''r3'' 180],
              nextOffset = 3, exhausted = True, requests = [(0, 3)] \<rparr>"
    using offset_mode_stops [of ?init defaultConfig ?p3 "pagedFeed unorderedFeed"
        "take 3 unorderedFeed" 150, THEN conjunct2, THEN conjunct1] old
    by (simp add: bl pagedFeed_def acc3 ne)
  have 3: "map_sum id exhausted
       (fetchActivityByUserWithRange defaultConfig ?p3 (pagedFeed unorderedFeed)) = Inr True
   \<and> map_sum id requests
       (fetchActivityByUserWithRange defaultConfig ?p3 (pagedFeed unorderedFeed)) = Inr [(0, 3)]
   \<and> map_sum id nextOffset
       (fetchActivityByUserWithRange defaultConfig ?p3 (pagedFeed unorderedFeed)) = Inr 3
   \<and> map_sum id (\<lambda>res. map trade_id (out_trades res))
       (fetchActivityByUserWithRange defaultConfig ?p3 (pagedFeed unorderedFeed))
       = Inr [''r1'', ''r3'']"
    by (simp add: fetchActivityByUserWithRange_def bl r3 ids)
  have acc: "accepted ?pC (exampleItem ''r'' 100)"
    by (simp add: range_defs)
  let ?xs = "replicate 1120 (exampleItem ''r'' 100)"
  have hyp: "length ?xs = 1120 \<and> ACTIVITY_RANGE_BATCH_SIZE defaultConfig = 500
      \<and> length (filter (accepted ?pC) (take 500 ?xs)) + 500 \<le> maxEventsOf defaultConfig ?pC
      \<and> length (filter (accepted ?pC) (take 1000 ?xs)) + 120 < maxEventsOf defaultConfig ?pC
      \<and> offset ?pC = 0
      \<and> \<not> pastStart ?pC (take 500 ?xs) \<and> \<not> pastStart ?pC (take 500 (drop 500 ?xs))"
    using length_filter_le [of "accepted ?pC" "take 500 ?xs"]
      length_filter_le [of "accepted ?pC" "take 1000 ?xs"]
    by (simp add: defaultConfig_def exampleParams_def maxEventsOf_def pastStart_def)
  note t = offset_mode_stops [of "?s ?pC" defaultConfig ?pC "pagedFeed ?xs" "[]" 0 ?xs,
      THEN conjunct2, THEN conjunct2, THEN conjunct1, THEN mp, OF hyp]
  then obtain res where r: "fetchActivityByUserWithRange defaultConfig ?pC (pagedFeed ?xs) = Inr res"
      "exhausted res" "nextOffset res = 1120"
      "out_trades res = map (\<lambda>item. mapActivityItem (numberToString defaultConfig) item (address ?pC))
                            (filter (accepted ?pC) ?xs)"
    by blast
  have 4: "map_sum id exhausted
       (fetchActivityByUserWithRange defaultConfig ?pC
          (pagedFeed (replicate 1120 (exampleItem ''r'' 100)))) = Inr True
   \<and> map_sum id nextOffset
       (fetchActivityByUserWithRange defaultConfig ?pC
          (pagedFeed (replicate 1120 (exampleItem ''r'' 100)))) = Inr 1120
   \<and> map_sum id (\<lambda>res. length (out_trades res))
       (fetchActivityByUserWithRange defaultConfig ?pC
          (pagedFeed (replicate 1120 (exampleItem ''r'' 100)))) = Inr 1120"
    using r acc by simp
  have len: "length (take 3 unorderedFeed) = 3" by (simp add: pg)
  from 1 2 len bl(1) ts o 3 4 show ?thesis by simp
qed

subsection \<open>Duplicates across pages\<close>

lemma freshFilter_props:
  "freshFilter nts seen batch = (seen', fresh) \<Longrightarrow>
   distinct (map (getTradeKey nts) fresh)
   \<and> getTradeKey nts ` set fresh \<inter> seen = {}
   \<and> seen' = seen \<union> getTradeKey nts ` set fresh
   \<and> set fresh \<subseteq> set batch"
proof (induction batch arbitrary: seen seen' fresh)
  case Nil
  then show ?case by simp
next
  case (Cons t batch)
  show ?case
  proof (cases "getTradeKey nts t \<in> seen")
    case True
    with Cons.prems have "freshFilter nts seen batch = (seen', fresh)" by simp
    from Cons.IH [OF this] show ?thesis by auto
  next
    case False
    obtain s2 f2 where r: "freshFilter nts (insert (getTradeKey nts t) seen) batch = (s2, f2)"
      by (cases "freshFilter nts (insert (getTradeKey nts t) seen) batch") auto
    with False Cons.prems have eq: "seen' = s2" "fresh = t # f2" by (simp_all add: Let_def)
    from Cons.IH [OF r] False show ?thesis unfolding eq by auto
  qed
qed

lemma exportPages_distinct:
  "distinct (map (getTradeKey nts) acc) \<Longrightarrow> getTradeKey nts ` set acc \<subseteq> seen \<Longrightarrow>
   distinct (map (getTradeKey nts) (exportPages nts seen acc pages))"
proof (induction pages arbitrary: seen acc)
  case Nil
  then show ?case by simp
next
  case (Cons batch pages)
  obtain s2 f2 where r: "freshFilter nts seen batch = (s2, f2)"
    by (cases "freshFilter nts seen batch") auto
  from freshFilter_props [OF r]
  have f: "distinct (map (getTradeKey nts) f2)" "getTradeKey nts ` set f2 \<inter> seen = {}"
    "s2 = seen \<union> getTradeKey nts ` set f2" by simp_all
  have d: "distinct (map (getTradeKey nts) (acc @ f2))"
    using Cons.prems f by auto
  have s: "getTradeKey nts ` set (acc @ f2) \<subseteq> s2"
    using Cons.prems(2) f(3) by auto
  from Cons.IH [OF d s] r show ?case by simp
qed

lemma exportPages_no_duplicates:
  "distinct (map (getTradeKey nts) (exportPages nts resumeKeys [] pages))"
  by (rule exportPages_distinct) simp_all

text \<open>
  C5 in \<open>fetchActivityByUserWithRange\<close>, at pages that overlap. With limit 3 and
  \<open>endTs = 250\<close> the first page holds \<open>r1, r2, r3\<close>, of which \<open>r1\<close> is out of range;
  the second request, at offset 3 with limit 1, gets \<open>r3\<close> again, and the returned
  trades have the keys \<open>r2, r3, r3\<close>. The collector has no set of seen keys. The
  export loops of the dashboard have one, and never return two trades with the same key
  (lemma \<open>exportPages_no_duplicates\<close>).
\<close>

theorem range_collector_keeps_duplicates:
  "map_sum id (\<lambda>res. map (getTradeKey (numberToString defaultConfig)) (out_trades res))
     (fetchActivityByUserWithRange defaultConfig (exampleParams 3 None (Some 250)) overlapFeed)
     = Inr [''r2'', ''r3'', ''r3'']
   \<and> map_sum id requests
       (fetchActivityByUserWithRange defaultConfig (exampleParams 3 None (Some 250)) overlapFeed)
     = Inr [(0, 3), (3, 1)]
   \<and> map_sum id exhausted
       (fetchActivityByUserWithRange defaultConfig (exampleParams 3 None (Some 250)) overlapFeed)
     = Inr False"
  by (simp add: range_defs overlapFeed_def getTradeKey_def rangeLoop.simps)

end
